(* ===== verification/Nexus_Prelude.thy ===== *)
theory Nexus_Prelude
  imports Main "HOL-Library.Sublist" "HOL-Library.Multiset"
begin

text \<open>
  What every component of the development shares: the fixed-width arithmetic of
  Rust that the sources use (\<open>checked_add\<close>, \<open>saturating_add\<close>,
  \<open>saturating_sub\<close>, release-mode \<open>+=\<close>), the ASCII classes of
  \<open>u8\<close>, strings as bytes and strings as Unicode scalar values, the iterator
  methods \<open>position\<close> and \<open>find\<close>, and length-prefixed byte
  encodings with their injectivity.

  A Rust \<open>&str\<close> that the code reads byte by byte is a \<open>string\<close>
  (a \<open>char\<close> of HOL is exactly one byte). One that the code reads by
  \<open>chars()\<close> is a \<open>ustr\<close>, the list of its Unicode scalar values;
  \<open>ulen\<close> is then its length in bytes.
\<close>

named_theorems code_words \<open>definitions of the closed codes and their texts\<close>
named_theorems step_defs \<open>definitions of the operations that change a component's state\<close>


section \<open>Fixed-width integers\<close>

definition U32_MAX :: nat where "U32_MAX = 4294967295"

definition U64_MAX :: nat where "U64_MAX = 18446744073709551615"

definition sat_add_u32 :: "nat \<Rightarrow> nat \<Rightarrow> nat" where
  "sat_add_u32 a b = min (a + b) U32_MAX"

definition sat_add_u64 :: "nat \<Rightarrow> nat \<Rightarrow> nat" where
  "sat_add_u64 a b = min (a + b) U64_MAX"

text \<open>The release-mode \<open>a + b\<close> on a \<open>u64\<close>, and the cast of a \<open>u64\<close> to a \<open>u32\<close>.\<close>

definition add_u64 :: "nat \<Rightarrow> nat \<Rightarrow> nat" where
  "add_u64 a b = (a + b) mod (U64_MAX + 1)"

definition as_u32 :: "nat \<Rightarrow> nat" where
  "as_u32 a = a mod (U32_MAX + 1)"

definition checked_add_u32 :: "nat \<Rightarrow> nat \<Rightarrow> nat option" where
  "checked_add_u32 a b = (if a + b \<le> U32_MAX then Some (a + b) else None)"

text \<open>The release-mode \<open>x += 1\<close> on a \<open>u64\<close> wraps.\<close>

definition inc_u64 :: "nat \<Rightarrow> nat" where
  "inc_u64 n = (if n = U64_MAX then 0 else n + 1)"

definition inc_u32 :: "nat \<Rightarrow> nat" where
  "inc_u32 n = (if n = U32_MAX then 0 else n + 1)"

lemma checked_add_u32_Some [simp]:
  "checked_add_u32 a b = Some c \<longleftrightarrow> c = a + b \<and> a + b \<le> U32_MAX"
  by (auto simp: checked_add_u32_def)

lemma checked_add_u32_None [simp]:
  "checked_add_u32 a b = None \<longleftrightarrow> U32_MAX < a + b"
  by (auto simp: checked_add_u32_def)

lemma inc_u64_small: "n < U64_MAX \<Longrightarrow> inc_u64 n = Suc n"
  by (simp add: inc_u64_def)

lemma inc_u32_small: "n < U32_MAX \<Longrightarrow> inc_u32 n = Suc n"
  by (simp add: inc_u32_def)


section \<open>Bytes and their ASCII classes\<close>

definition is_ascii_lowercase :: "char \<Rightarrow> bool" where
  "is_ascii_lowercase c \<longleftrightarrow> 97 \<le> (of_char c :: nat) \<and> (of_char c :: nat) \<le> 122"

definition is_ascii_uppercase :: "char \<Rightarrow> bool" where
  "is_ascii_uppercase c \<longleftrightarrow> 65 \<le> (of_char c :: nat) \<and> (of_char c :: nat) \<le> 90"

definition is_ascii_digit :: "char \<Rightarrow> bool" where
  "is_ascii_digit c \<longleftrightarrow> 48 \<le> (of_char c :: nat) \<and> (of_char c :: nat) \<le> 57"

definition is_ascii_alphanumeric :: "char \<Rightarrow> bool" where
  "is_ascii_alphanumeric c \<longleftrightarrow>
     is_ascii_lowercase c \<or> is_ascii_uppercase c \<or> is_ascii_digit c"

definition is_ascii_hexdigit :: "char \<Rightarrow> bool" where
  "is_ascii_hexdigit c \<longleftrightarrow> is_ascii_digit c
     \<or> (97 \<le> (of_char c :: nat) \<and> (of_char c :: nat) \<le> 102)
     \<or> (65 \<le> (of_char c :: nat) \<and> (of_char c :: nat) \<le> 70)"

lemmas ascii_defs = is_ascii_lowercase_def is_ascii_uppercase_def is_ascii_digit_def
  is_ascii_alphanumeric_def is_ascii_hexdigit_def

text \<open>The text after \<open>pre\<close>, as \<open>str::strip_prefix\<close>.\<close>

fun strip_prefix :: "string \<Rightarrow> string \<Rightarrow> string option" where
  "strip_prefix [] s = Some s"
| "strip_prefix (p # ps) [] = None"
| "strip_prefix (p # ps) (c # cs) = (if p = c then strip_prefix ps cs else None)"

lemma strip_prefix_Some [simp]: "strip_prefix p s = Some r \<longleftrightarrow> s = p @ r"
  by (induction p s rule: strip_prefix.induct) auto

lemma strip_prefix_append [simp]: "strip_prefix p (p @ r) = Some r"
  by simp


section \<open>Strings of Unicode scalar values\<close>

type_synonym uchar = nat
type_synonym ustr = "uchar list"

text \<open>\<open>char::len_utf8\<close>.\<close>

definition len_utf8 :: "uchar \<Rightarrow> nat" where
  "len_utf8 c = (if c < 128 then 1 else if c < 2048 then 2 else if c < 65536 then 3 else 4)"

text \<open>\<open>str::len\<close>: the length in bytes.\<close>

definition ulen :: "ustr \<Rightarrow> nat" where
  "ulen s = sum_list (map len_utf8 s)"

text \<open>An unsigned number in decimal, as \<open>Display\<close> prints it.\<close>

fun decimal :: "nat \<Rightarrow> string" where
  "decimal n = (if n < 10 then [char_of (48 + n)] else decimal (n div 10) @ [char_of (48 + n mod 10)])"

declare decimal.simps [simp del]

text \<open>An ASCII literal as scalar values.\<close>

definition asc :: "string \<Rightarrow> ustr" where
  "asc s = map of_char s"

definition is_ascii :: "string \<Rightarrow> bool" where
  "is_ascii s \<longleftrightarrow> list_all (\<lambda>c. (of_char c :: nat) < 128) s"

lemma ulen_simps [simp]:
  "ulen [] = 0" "ulen (c # s) = len_utf8 c + ulen s" "ulen (s @ t) = ulen s + ulen t"
  by (simp_all add: ulen_def)

lemma asc_simps [simp]:
  "asc [] = []" "asc (c # s) = of_char c # asc s" "asc (s @ t) = asc s @ asc t"
  "length (asc s) = length s"
  by (simp_all add: asc_def)

lemma is_ascii_simps [simp]:
  "is_ascii []" "is_ascii (c # s) \<longleftrightarrow> (of_char c :: nat) < 128 \<and> is_ascii s"
  "is_ascii (s @ t) \<longleftrightarrow> is_ascii s \<and> is_ascii t"
  by (simp_all add: is_ascii_def)

lemma ulen_asc: "is_ascii s \<Longrightarrow> ulen (asc s) = length s"
  by (induction s) (auto simp: len_utf8_def)

lemma length_le_ulen: "length s \<le> ulen s"
  by (induction s) (auto simp: len_utf8_def)


section \<open>Iterator methods\<close>

text \<open>\<open>Iterator::position\<close>: the index of the first element that satisfies the predicate.\<close>

fun position :: "('a \<Rightarrow> bool) \<Rightarrow> 'a list \<Rightarrow> nat option" where
  "position P [] = None"
| "position P (x # xs) = (if P x then Some 0 else map_option Suc (position P xs))"

lemma position_None [simp]: "position P xs = None \<longleftrightarrow> (\<forall>x \<in> set xs. \<not> P x)"
  by (induction xs) auto

lemma position_SomeD:
  "position P xs = Some i \<Longrightarrow> i < length xs \<and> P (xs ! i) \<and> (\<forall>j < i. \<not> P (xs ! j))"
proof (induction xs arbitrary: i)
  case (Cons x xs)
  show ?case
  proof (cases "P x")
    case False
    with Cons.prems obtain k where "position P xs = Some k" and "i = Suc k" by auto
    with Cons.IH [of k] False show ?thesis
      by (auto simp: less_Suc_eq_0_disj)
  qed (use Cons.prems in auto)
qed simp

lemma position_eq_nth:
  "distinct xs \<Longrightarrow> i < length xs \<Longrightarrow> position ((=) (xs ! i)) xs = Some i"
proof (induction xs arbitrary: i)
  case (Cons x xs)
  show ?case
    by (cases i) (use Cons in auto)
qed simp

lemma find_unique:
  assumes "x \<in> set xs" "P x" "\<And>y. y \<in> set xs \<Longrightarrow> P y \<Longrightarrow> y = x"
  shows "List.find P xs = Some x"
proof (cases "List.find P xs")
  case None
  with assms(1,2) show ?thesis by (simp add: find_None_iff)
next
  case (Some y)
  then have "y \<in> set xs \<and> P y" by (auto simp: find_Some_iff)
  with assms(3) Some show ?thesis by simp
qed

lemma find_SomeD: "List.find P xs = Some x \<Longrightarrow> x \<in> set xs \<and> P x"
  by (induction xs) (auto split: if_splits)

text \<open>Collecting an iterator of options: \<open>None\<close> as soon as one is missing.\<close>

fun collect_options :: "'a option list \<Rightarrow> 'a list option" where
  "collect_options [] = Some []"
| "collect_options (None # xs) = None"
| "collect_options (Some x # xs) = map_option ((#) x) (collect_options xs)"

lemma collect_options_Some:
  "collect_options xs = Some ys \<longleftrightarrow> xs = map Some ys"
  by (induction xs arbitrary: ys rule: collect_options.induct) auto


section \<open>Length-prefixed encodings\<close>

text \<open>\<open>n.to_be_bytes()\<close> of a \<open>u64\<close> (and of narrower integers with fewer bytes).\<close>

fun be_bytes :: "nat \<Rightarrow> nat \<Rightarrow> string" where
  "be_bytes 0 n = []"
| "be_bytes (Suc k) n = be_bytes k (n div 256) @ [char_of (n mod 256)]"

definition be64 :: "nat \<Rightarrow> string" where "be64 n = be_bytes 8 n"

lemma length_be_bytes [simp]: "length (be_bytes k n) = k"
  by (induction k arbitrary: n) auto

lemma length_be64 [simp]: "length (be64 n) = 8"
  by (simp add: be64_def)

lemma be_bytes_inj:
  "be_bytes k m = be_bytes k n \<Longrightarrow> m < 256 ^ k \<Longrightarrow> n < 256 ^ k \<Longrightarrow> m = n"
proof (induction k arbitrary: m n)
  case (Suc k)
  from Suc.prems(1) have hi: "be_bytes k (m div 256) = be_bytes k (n div 256)"
    and lo: "(char_of (m mod 256) :: char) = char_of (n mod 256)"
    by simp_all
  from lo have "of_char (char_of (m mod 256) :: char) = (of_char (char_of (n mod 256) :: char) :: nat)"
    by simp
  then have mods: "m mod 256 = n mod 256" by simp
  have "m div 256 < 256 ^ k" "n div 256 < 256 ^ k"
    using Suc.prems(2,3) by (simp_all add: less_mult_imp_div_less mult.commute)
  with hi have "m div 256 = n div 256" by (rule Suc.IH)
  with mods show ?case by (metis div_mult_mod_eq)
qed simp

lemma be64_inj: "be64 m = be64 n \<Longrightarrow> m \<le> U64_MAX \<Longrightarrow> n \<le> U64_MAX \<Longrightarrow> m = n"
  unfolding be64_def by (rule be_bytes_inj) (auto simp: U64_MAX_def)

text \<open>One part, prefixed with its length, as the hashing code feeds it to SHA-256.\<close>

definition lp :: "string \<Rightarrow> string" where
  "lp part = be64 (length part) @ part"

lemma lp_inj:
  assumes "lp a @ x = lp b @ y" "length a \<le> U64_MAX" "length b \<le> U64_MAX"
  shows "a = b \<and> x = y"
proof -
  from assms(1) have "be64 (length a) = be64 (length b)" and rest: "a @ x = b @ y"
    by (simp_all add: lp_def append_eq_append_conv)
  then have "length a = length b" using be64_inj assms(2,3) by blast
  with rest show ?thesis by (simp add: append_eq_append_conv)
qed

lemma concat_lp_inj:
  "concat (map lp xs) = concat (map lp ys) \<Longrightarrow>
   (\<forall>p \<in> set xs \<union> set ys. length p \<le> U64_MAX) \<Longrightarrow> xs = ys"
proof (induction xs arbitrary: ys)
  case Nil
  have "lp y \<noteq> []" for y using length_be64 [of "length y"] by (auto simp: lp_def simp del: length_be64)
  with Nil show ?case by (cases ys) auto
next
  case (Cons x xs)
  have "lp x \<noteq> []" using length_be64 [of "length x"] by (auto simp: lp_def simp del: length_be64)
  with Cons.prems(1) obtain y ys' where ys: "ys = y # ys'" by (cases ys) auto
  with Cons.prems have "lp x @ concat (map lp xs) = lp y @ concat (map lp ys')" by simp
  then have "x = y \<and> concat (map lp xs) = concat (map lp ys')"
    by (rule lp_inj) (use Cons.prems(2) ys in auto)
  with Cons ys show ?case by simp
qed

text \<open>
  The contract of a writer whose output shows where it ends: on the values it is meant for,
  what was written and what follows can both be read off. Such outputs can be written one
  after the other.
\<close>

locale self_delimiting =
  fixes put :: "'a \<Rightarrow> 'b list" and ok :: "'a \<Rightarrow> bool"
  assumes put_inj: "ok a \<Longrightarrow> ok b \<Longrightarrow> put a @ x = put b @ y \<Longrightarrow> a = b \<and> x = y"
begin

lemma concat_put_inj:
  "list_all ok as \<Longrightarrow> list_all ok bs \<Longrightarrow> length as = length bs \<Longrightarrow>
   concat (map put as) @ x = concat (map put bs) @ y \<Longrightarrow> as = bs \<and> x = y"
proof (induction "as" arbitrary: bs)
  case (Cons a "as")
  from Cons.prems(3) obtain b bs' where bs: "bs = b # bs'" by (cases bs) auto
  with Cons.prems have "a = b \<and> concat (map put as) @ x = concat (map put bs') @ y"
    by (intro put_inj) simp_all
  with Cons bs show ?case by simp
qed simp

end


text \<open>Two sets of hashed byte strings exhibit a collision of \<open>H\<close>.\<close>

definition collision :: "(string \<Rightarrow> string) \<Rightarrow> string set \<Rightarrow> string set \<Rightarrow> bool" where
  "collision H A B \<longleftrightarrow> (\<exists>a \<in> A. \<exists>b \<in> B. a \<noteq> b \<and> H a = H b)"


section \<open>Closed code tables\<close>

text \<open>
  The contract of a closed enumeration with a code string for each value, as many
  types of the program have: a list of all the values and a code that tells them
  apart. Reading a code back by searching the list then inverts the writing.
\<close>

locale code_table =
  fixes all :: "'a list" and code :: "'a \<Rightarrow> string"
  assumes all_complete: "x \<in> set all"
    and codes_distinct: "distinct (map code all)"
begin

lemma code_inj: "code x = code y \<longleftrightarrow> x = y"
  using codes_distinct all_complete by (metis distinct_map inj_onD)

lemma find_code: "find (\<lambda>x. code x = t) all = Some y \<longleftrightarrow> code y = t"
proof
  assume "find (\<lambda>x. code x = t) all = Some y"
  then show "code y = t" by (auto simp: find_Some_iff)
next
  assume t: "code y = t"
  then have "find (\<lambda>x. code x = t) all \<noteq> None"
    using all_complete by (auto simp: find_None_iff)
  then show "find (\<lambda>x. code x = t) all = Some y"
    using t code_inj by (auto simp: find_Some_iff)
qed

lemma find_code_None: "find (\<lambda>x. code x = t) all = None \<longleftrightarrow> t \<notin> range code"
  using all_complete by (auto simp: find_None_iff)

end

section \<open>Runs of a system\<close>

text \<open>What every step relation of the development promises: its steps keep an invariant, and from states with the
  invariant they go only along a reflexive and transitive relation. So does every run.\<close>

locale step_invariant =
  fixes step :: "'s \<Rightarrow> 's \<Rightarrow> bool" and ok :: "'s \<Rightarrow> bool" and rel :: "'s \<Rightarrow> 's \<Rightarrow> bool"
  assumes step_ok: "step s t \<Longrightarrow> ok s \<Longrightarrow> ok t"
    and step_rel: "step s t \<Longrightarrow> ok s \<Longrightarrow> rel s t"
    and rel_refl: "rel s s" and rel_trans: "rel s t \<Longrightarrow> rel t u \<Longrightarrow> rel s u"
begin

lemma run: "step\<^sup>*\<^sup>* s t \<Longrightarrow> ok s \<Longrightarrow> ok t \<and> rel s t"
  by (induction rule: rtranclp_induct) (use step_ok step_rel rel_refl rel_trans in blast)+

end

end
