(* ===== verification/Td_Decode.thy ===== *)
theory Td_Decode
  imports Td_Render "HOL-Library.Product_Lexorder"
begin

text \<open>
  The strict reader \<open>td-decode-v1\<close>, exact fixed-point numbers, the normalization
  \<open>td-normalize-v1\<close> (\<open>crates/nexus-typed-decision/src/decode.rs\<close>) and the
  readings \<open>td-read-v1\<close> (\<open>src/read.rs\<close>). The parser's state (the text and
  the offset into it) is the rest of the input; each parser function returns the rest it
  leaves. A reply is a byte string.
\<close>

section \<open>Data\<close>

definition MAX_REPLY_BYTES :: nat where "MAX_REPLY_BYTES = 8192"

datatype reply_error = TooLarge | Decode decode_code

datatype attempt = First | Second

primrec attempt_count :: "attempt \<Rightarrow> nat" where
  "attempt_count First = 1"
| "attempt_count Second = 2"

datatype top = TLabel string | Tie

primrec top_code :: "top \<Rightarrow> string" where
  "top_code (TLabel l) = l"
| "top_code Tie = ''tie''"

record distribution =
  entries :: "(string \<times> nat) list"
  d_renormalized :: bool

text \<open>\<open>iter().max().unwrap_or(0)\<close>.\<close>

definition max_ppm :: "distribution \<Rightarrow> nat" where
  "max_ppm d = fold max (map snd (entries d)) 0"

definition dist_top :: "distribution \<Rightarrow> top" where
  "dist_top d =
     (let m = max_ppm d in
      case filter (\<lambda>(_, p). p = m) (entries d) of
        [(label, _)] \<Rightarrow> TLabel label
      | _ \<Rightarrow> Tie)"

definition sum_from :: "distribution \<Rightarrow> nat \<Rightarrow> nat" where
  "sum_from d from = sum_list (map snd (drop from (entries d)))"

datatype answer = ANoul nat | AChoice distribution | AScore distribution

definition expected :: "answer \<Rightarrow> nat option" where
  "expected a =
     (case a of
        AScore d \<Rightarrow> Some (sum_list (map (\<lambda>(i, (_, p)). i * p) (zip [0..<length (entries d)] (entries d))))
      | _ \<Rightarrow> None)"

record decision =
  dn_set :: question_set
  dn_binding :: string
  dn_attempt :: attempt
  dn_renormalized :: bool
  dn_answers :: "(string \<times> answer) list"
  dn_readings :: "(string \<times> reading) list"


section \<open>Readings\<close>

primrec reading_code :: "reading \<Rightarrow> string" where
  "reading_code Yes = ''yes''"
| "reading_code No = ''no''"
| "reading_code Unsettled = ''unsettled''"
| "reading_code (Selected _) = ''selected''"

definition read_noul :: "read_policy \<Rightarrow> nat \<Rightarrow> reading" where
  "read_noul policy p =
     (if p > yes_above policy then Yes else if p < no_below policy then No else Unsettled)"

definition read_answer :: "question \<Rightarrow> answer \<Rightarrow> reading" where
  "read_answer q a =
     (let policy = q_read q in
      case (q_kind q, a) of
        (Noul _, ANoul p) \<Rightarrow> read_noul policy p
      | (Score _ at_least _, AScore d) \<Rightarrow> read_noul policy (sum_from d at_least)
      | (Choice _, AChoice d) \<Rightarrow>
          (case dist_top d of
             TLabel label \<Rightarrow> if max_ppm d > yes_above policy then Selected label else Unsettled
           | Tie \<Rightarrow> Unsettled)
      | _ \<Rightarrow> Unsettled)"

definition polarity_verdict :: "polarity \<Rightarrow> reading \<Rightarrow> option_disposition" where
  "polarity_verdict pol r =
     (case (pol, r) of (Risk, No) \<Rightarrow> OClear | (Positive, Yes) \<Rightarrow> OClear | _ \<Rightarrow> ORestrict)"

definition verdict :: "question \<Rightarrow> reading \<Rightarrow> option_disposition" where
  "verdict q r =
     (case q_kind q of
        Noul pol \<Rightarrow> polarity_verdict pol r
      | Score _ _ pol \<Rightarrow> polarity_verdict pol r
      | Choice options \<Rightarrow>
          (case r of
             Selected label \<Rightarrow>
               (case find (\<lambda>(opt, _). opt = label) options of
                  None \<Rightarrow> ORestrict
                | Some (_, disposition) \<Rightarrow> disposition)
           | _ \<Rightarrow> ORestrict))"


section \<open>The first pass: the parser\<close>

datatype node = NObject "(string \<times> node) list" | NStr string | NWord string | NArray

definition MAX_DEPTH :: nat where "MAX_DEPTH = 2"

definition is_word :: "char \<Rightarrow> bool" where
  "is_word c \<longleftrightarrow> is_ascii_alphanumeric c \<or> c = CHR ''+'' \<or> c = CHR ''-'' \<or> c = CHR ''.'' \<or> c = CHR ''_''"

definition is_ws :: "char \<Rightarrow> bool" where
  "is_ws c \<longleftrightarrow> c = CHR '' '' \<or> c = CHR 0x09 \<or> c = CHR 0x0A \<or> c = CHR 0x0D"

definition skip_ws :: "string \<Rightarrow> string" where
  "skip_ws inp = dropWhile is_ws inp"

definition QUOTE :: char where "QUOTE = CHR 0x22"
definition BSLASH :: char where "BSLASH = CHR 0x5C"

definition simple_escape :: "char \<Rightarrow> bool" where
  "simple_escape c \<longleftrightarrow> c \<in> set [QUOTE, BSLASH, CHR ''/'', CHR ''b'', CHR ''f'', CHR ''n'', CHR ''r'', CHR ''t'']"

text \<open>After the opening quote; \<open>raw\<close> is the slice read so far.\<close>

function string_lit :: "string \<Rightarrow> string \<Rightarrow> decode_code + (string \<times> string)" where
  "string_lit raw inp =
     (case inp of
        [] \<Rightarrow> Inl NotOneObject
      | c # cs \<Rightarrow>
        (if c = QUOTE then Inr (raw, cs)
         else if c = BSLASH then
           (case cs of
              [] \<Rightarrow> Inl NotOneObject
            | e # es \<Rightarrow>
              (if simple_escape e then string_lit (raw @ [c, e]) es
               else if e = CHR ''u'' \<and> length (take 4 es) = 4 \<and> list_all is_ascii_hexdigit (take 4 es)
               then string_lit (raw @ [c, e] @ take 4 es) (drop 4 es)
               else Inl NotOneObject))
         else if (of_char c :: nat) < 32 then Inl NotOneObject
         else string_lit (raw @ [c]) cs))"
  by pat_completeness auto
termination by (relation "measure (length \<circ> snd)") auto

declare string_lit.simps [simp del]

text \<open>After a member or element: \<open>,\<close> continues, \<open>stop\<close> closes.\<close>

definition close :: "char \<Rightarrow> string \<Rightarrow> decode_code + (bool \<times> string)" where
  "close stop inp =
     (case skip_ws inp of
        c # cs \<Rightarrow> (if c = CHR '','' then Inr (False, cs) else if c = stop then Inr (True, cs) else Inl NotOneObject)
      | [] \<Rightarrow> Inl NotOneObject)"

text \<open>
  \<open>object\<close> and \<open>array\<close> start after their opening character; their loops are
  \<open>object_loop\<close> and \<open>array_loop\<close>.
\<close>

function (domintros) parse_value :: "nat \<Rightarrow> string \<Rightarrow> decode_code + (node \<times> string)"
  and object_loop :: "nat \<Rightarrow> (string \<times> node) list \<Rightarrow> string \<Rightarrow> decode_code + ((string \<times> node) list \<times> string)"
  and array_loop :: "nat \<Rightarrow> string \<Rightarrow> decode_code + string"
  and object :: "nat \<Rightarrow> string \<Rightarrow> decode_code + ((string \<times> node) list \<times> string)"
  and array :: "nat \<Rightarrow> string \<Rightarrow> decode_code + string" where
  "parse_value depth inp =
     (case skip_ws inp of
        [] \<Rightarrow> Inl NotOneObject
      | c # cs \<Rightarrow>
        (if (c = CHR ''{'' \<or> c = CHR ''['') \<and> depth \<ge> MAX_DEPTH then Inl TooDeep
         else if c = CHR ''{'' then
           (case object (depth + 1) cs of Inl e \<Rightarrow> Inl e | Inr (ms, r) \<Rightarrow> Inr (NObject ms, r))
         else if c = CHR ''['' then
           (case array (depth + 1) cs of Inl e \<Rightarrow> Inl e | Inr r \<Rightarrow> Inr (NArray, r))
         else if c = QUOTE then
           (case string_lit [] cs of Inl e \<Rightarrow> Inl e | Inr (raw, r) \<Rightarrow> Inr (NStr raw, r))
         else if is_word c then Inr (NWord (takeWhile is_word (c # cs)), dropWhile is_word (c # cs))
         else Inl NotOneObject))"
| "object_loop depth ms inp =
     (case skip_ws inp of
        [] \<Rightarrow> Inl NotOneObject
      | q # cs \<Rightarrow>
        (if q \<noteq> QUOTE then Inl NotOneObject
         else case string_lit [] cs of
           Inl e \<Rightarrow> Inl e
         | Inr (key, r) \<Rightarrow>
           (if list_ex (\<lambda>(seen, _). seen = key) ms then Inl DuplicateKey
            else case skip_ws r of
              [] \<Rightarrow> Inl NotOneObject
            | c # r1 \<Rightarrow>
              (if c \<noteq> CHR '':'' then Inl NotOneObject
               else case parse_value depth r1 of
                 Inl e \<Rightarrow> Inl e
               | Inr (n, r2) \<Rightarrow>
                 (case close (CHR ''}'') r2 of
                    Inl e \<Rightarrow> Inl e
                  | Inr (True, r3) \<Rightarrow> Inr (ms @ [(key, n)], r3)
                  | Inr (False, r3) \<Rightarrow> object_loop depth (ms @ [(key, n)]) r3)))))"
| "array_loop depth inp =
     (case parse_value depth inp of
        Inl e \<Rightarrow> Inl e
      | Inr (_, r) \<Rightarrow>
        (case close (CHR '']'') r of
           Inl e \<Rightarrow> Inl e
         | Inr (True, r1) \<Rightarrow> Inr r1
         | Inr (False, r1) \<Rightarrow> array_loop depth r1))"
| "object depth inp =
     (case skip_ws inp of
        c # cs \<Rightarrow> (if c = CHR ''}'' then Inr ([], cs) else object_loop depth [] (skip_ws inp))
      | [] \<Rightarrow> object_loop depth [] (skip_ws inp))"
| "array depth inp =
     (case skip_ws inp of
        c # cs \<Rightarrow> (if c = CHR '']'' then Inr cs else array_loop depth (skip_ws inp))
      | [] \<Rightarrow> array_loop depth (skip_ws inp))"
  by pat_completeness auto

lemma skip_ws_length: "length (skip_ws inp) \<le> length inp"
  by (simp add: skip_ws_def length_dropWhile_le)

lemma skip_ws_Cons_length: "skip_ws inp = c # cs \<Longrightarrow> length cs < length inp"
  using skip_ws_length [of inp] by simp

lemma string_lit_length: "string_lit raw inp = Inr (key, r) \<Longrightarrow> length r < length inp"
proof (induction raw inp rule: string_lit.induct)
  case (1 raw inp)
  then show ?case
    by (subst (asm) (4) string_lit.simps) (fastforce split: list.splits if_splits)
qed

lemma close_length: "close stop inp = Inr (b, r) \<Longrightarrow> length r < length inp"
  by (auto simp: close_def dest: skip_ws_Cons_length split: list.splits if_splits)


text \<open>Every parser function that succeeds leaves a shorter rest; so the loops end.\<close>

lemma parse_shrinks_dom:
  "parse_value_object_loop_array_loop_object_array_dom (Inl (Inl (d0, i0))) \<Longrightarrow>
     \<forall>n r. parse_value d0 i0 = Inr (n, r) \<longrightarrow> length r < length i0"
  "parse_value_object_loop_array_loop_object_array_dom (Inl (Inr (d1, ms1, i1))) \<Longrightarrow>
     \<forall>ms' r. object_loop d1 ms1 i1 = Inr (ms', r) \<longrightarrow> length r < length i1"
  "parse_value_object_loop_array_loop_object_array_dom (Inr (Inl (d2, i2))) \<Longrightarrow>
     \<forall>r. array_loop d2 i2 = Inr r \<longrightarrow> length r < length i2"
  "parse_value_object_loop_array_loop_object_array_dom (Inr (Inr (Inl (d3, i3)))) \<Longrightarrow>
     \<forall>ms' r. object d3 i3 = Inr (ms', r) \<longrightarrow> length r < length i3"
  "parse_value_object_loop_array_loop_object_array_dom (Inr (Inr (Inr (d4, i4)))) \<Longrightarrow>
     \<forall>r. array d4 i4 = Inr r \<longrightarrow> length r < length i4"
proof (induction d0 i0 and d1 ms1 i1 and d2 i2 and d3 i3 and d4 i4
    rule: parse_value_object_loop_array_loop_object_array.pinduct)
  case (1 depth inp)
  have word: "is_word c \<Longrightarrow> skip_ws inp = c # cs \<Longrightarrow> length (dropWhile is_word cs) < length inp" for c cs
    using length_dropWhile_le [of is_word cs] skip_ws_Cons_length [of inp c cs] by linarith
  show ?case
    using 1(2,3) unfolding parse_value.psimps [OF 1(1)]
    by (fastforce dest: skip_ws_Cons_length string_lit_length word
        split: list.splits if_splits sum.splits prod.splits)
next
  case (2 depth ms inp)
  show ?case
  proof (intro allI impI)
    fix ms' r
    assume "object_loop depth ms inp = Inr (ms', r)"
    then obtain cs key r0 r1 n r2 b r3 where *: "skip_ws inp = QUOTE # cs" "string_lit [] cs = Inr (key, r0)"
      "\<not> list_ex (\<lambda>(seen, _). seen = key) ms" "skip_ws r0 = CHR '':'' # r1" "parse_value depth r1 = Inr (n, r2)"
      "close (CHR ''}'') r2 = Inr (b, r3)"
      and r: "b \<and> r = r3 \<or> \<not> b \<and> object_loop depth (ms @ [(key, n)]) r3 = Inr (ms', r)"
      unfolding object_loop.psimps [OF 2(1)]
      by (auto split: list.splits if_splits sum.splits prod.splits bool.splits)
    have "length r2 < length r1" using 2(2) * by blast
    moreover have "length r \<le> length r3"
      using r 2(3) [of QUOTE cs "(key, r0)" key r0 "CHR '':''" r1 "(n, r2)" n r2 "(b, r3)" b r3] * by auto
    ultimately show "length r < length inp"
      using string_lit_length [OF *(2)] close_length [OF *(6)]
        skip_ws_Cons_length [OF *(1)] skip_ws_Cons_length [OF *(4)] by linarith
  qed
next
  case (3 depth inp)
  show ?case
    using 3(2,3) unfolding array_loop.psimps [OF 3(1)]
    by (fastforce dest: close_length split: sum.splits prod.splits bool.splits)
next
  case (4 depth inp)
  show ?case
    using 4(2,3) unfolding object.psimps [OF 4(1)]
    by (fastforce dest: skip_ws_Cons_length split: list.splits if_splits)
next
  case (5 depth inp)
  show ?case
    using 5(2,3) unfolding array.psimps [OF 5(1)]
    by (fastforce dest: skip_ws_Cons_length split: list.splits if_splits)
qed

termination parse_value
proof (relation "measure (case_sum
    (case_sum (\<lambda>(_, i). 3 * length i) (\<lambda>(_, _, i). 3 * length i + 1))
    (case_sum (\<lambda>(_, i). 3 * length i + 1) (case_sum (\<lambda>(_, i). 3 * length i + 2) (\<lambda>(_, i). 3 * length i + 2))))",
    goal_cases)
  case (5 depth ms inp c cs b key r0 c' r1 b' n r2 b'' closed r3)
  then show ?case
    using parse_shrinks_dom(1) [of depth r1] by (auto dest!: skip_ws_Cons_length string_lit_length close_length)
next
  case (7 depth inp b n r b' closed r')
  then show ?case
    using parse_shrinks_dom(1) [of depth inp] by (auto dest!: close_length)
qed (auto dest!: skip_ws_Cons_length string_lit_length)

declare parse_value.simps [simp del] object_loop.simps [simp del] array_loop.simps [simp del]
  object.simps [simp del] array.simps [simp del]


definition parse :: "string \<Rightarrow> decode_code + (string \<times> node) list" where
  "parse inp =
     (case skip_ws inp of
        c # cs \<Rightarrow>
          (if c \<noteq> CHR ''{'' then Inl NotOneObject
           else case object 1 cs of
             Inl e \<Rightarrow> Inl e
           | Inr (ms, r) \<Rightarrow> (if skip_ws r \<noteq> [] then Inl NotOneObject else Inr ms))
      | [] \<Rightarrow> Inl NotOneObject)"


section \<open>Numbers\<close>

text \<open>\<open>str::split_once\<close>.\<close>

definition split_once :: "char \<Rightarrow> string \<Rightarrow> (string \<times> string) option" where
  "split_once c s = (if c \<in> set s then Some (takeWhile (\<lambda>x. x \<noteq> c) s, tl (dropWhile (\<lambda>x. x \<noteq> c) s)) else None)"

definition digits :: "string \<Rightarrow> bool" where
  "digits s \<longleftrightarrow> s \<noteq> [] \<and> list_all is_ascii_digit s"

definition digit_val :: "char \<Rightarrow> nat" where
  "digit_val c = of_char c - 48"

definition fixed_point :: "string \<Rightarrow> decode_code + nat" where
  "fixed_point word =
     (let (int, frac) = (case split_once (CHR ''.'') word of Some p \<Rightarrow> p | None \<Rightarrow> (word, ''0''));
          canonical = (int = ''0'' \<or> \<not> (int \<noteq> [] \<and> hd int = CHR ''0''))
      in
      if \<not> (digits int \<and> canonical \<and> digits frac \<and> length frac \<le> 6) then Inl BadNumber
      else if int = ''0'' then
        Inr (sum_list (map (\<lambda>(b, scale). digit_val b * scale) (zip frac [100000, 10000, 1000, 100, 10, 1])))
      else if int = ''1'' \<and> list_all (\<lambda>b. b = CHR ''0'') frac then Inr PPM_MAX
      else Inl OutOfRange)"

definition probability :: "node \<Rightarrow> decode_code + nat" where
  "probability n =
     (case n of
        NWord w \<Rightarrow> (if w = ''true'' \<or> w = ''false'' \<or> w = ''null'' then Inl WrongType else fixed_point w)
      | NObject _ \<Rightarrow> Inl WrongType
      | NArray \<Rightarrow> Inl WrongType
      | NStr _ \<Rightarrow> Inl BadNumber)"


section \<open>Normalization\<close>

definition ONE :: nat where "ONE = 1000000"

text \<open>\<open>for &i in order.take(short) { out[i] += 1 }\<close>.\<close>

definition bump :: "nat list \<Rightarrow> nat list \<Rightarrow> nat list" where
  "bump idxs out = fold (\<lambda>i o'. o'[i := o' ! i + 1]) idxs out"

definition renormalize :: "nat list \<Rightarrow> nat list" where
  "renormalize vals =
     (let sum = sum_list vals;
          scaled = map (\<lambda>p. p * ONE) vals;
          out = map (\<lambda>x. x div sum) scaled;
          short = ONE - sum_list out;
          order = sort_key (\<lambda>i. (- int (scaled ! i mod sum), i)) [0..<length out]
      in bump (take short order) out)"

definition normalize :: "string list \<Rightarrow> nat list \<Rightarrow> decode_code + distribution" where
  "normalize ls vals =
     (let sum = sum_list vals;
          renormalized = (sum \<noteq> ONE);
          abs_diff = (if sum < ONE then ONE - sum else sum - ONE)
      in
      if renormalized \<and> (sum = 0 \<or> abs_diff > 50000) then Inl BadSum
      else
        (let ppm = (if renormalized then renormalize vals else vals)
         in Inr \<lparr>entries = map (\<lambda>(l, p). (l, min p ONE)) (zip ls ppm), d_renormalized = renormalized\<rparr>))"


section \<open>The second pass: the members and the decision\<close>

fun members_loop :: "string list \<Rightarrow> (nat \<Rightarrow> node \<Rightarrow> decode_code + 'a) \<Rightarrow> 'a option list \<Rightarrow>
    (string \<times> node) list \<Rightarrow> decode_code + 'a option list" where
  "members_loop names v slots [] = Inr slots"
| "members_loop names v slots ((key, n) # ns) =
     (if BSLASH \<in> set key \<or> \<not> is_ident key then Inl UnknownKey
      else case position (\<lambda>x. x = key) names of
        None \<Rightarrow> Inl UnknownKey
      | Some i \<Rightarrow>
        (if \<not> Option.is_none (slots ! i) then Inl DuplicateKey
         else case v i n of
           Inl e \<Rightarrow> Inl e
         | Inr x \<Rightarrow> members_loop names v (slots[i := Some x]) ns))"

definition members :: "(string \<times> node) list \<Rightarrow> string list \<Rightarrow> (nat \<Rightarrow> node \<Rightarrow> decode_code + 'a) \<Rightarrow>
    decode_code + 'a list" where
  "members nodes names v =
     (case members_loop names v (map (\<lambda>_. None) names) nodes of
        Inl e \<Rightarrow> Inl e
      | Inr slots \<Rightarrow> (case collect_options slots of None \<Rightarrow> Inl MissingKey | Some xs \<Rightarrow> Inr xs))"

definition label_values :: "string list \<Rightarrow> answer_mode \<Rightarrow> node \<Rightarrow> decode_code + nat list" where
  "label_values names mode n =
     (case (mode, n) of
        (Probabilities, NObject nodes) \<Rightarrow> members nodes names (\<lambda>_ m. probability m)
      | (Discrete, NStr raw) \<Rightarrow>
          (case position (\<lambda>x. x = raw) names of
             None \<Rightarrow> Inl WrongType
           | Some chosen \<Rightarrow> Inr (map (\<lambda>i. if i = chosen then PPM_MAX else 0) [0..<length names]))
      | _ \<Rightarrow> Inl WrongType)"

definition answer_of :: "question \<Rightarrow> answer_mode \<Rightarrow> node \<Rightarrow> decode_code + answer" where
  "answer_of q mode n =
     (case q_kind q of
        Noul _ \<Rightarrow>
          (case mode of
             Probabilities \<Rightarrow> (case probability n of Inl e \<Rightarrow> Inl e | Inr p \<Rightarrow> Inr (ANoul p))
           | Discrete \<Rightarrow>
               (if n = NWord ''0'' then Inr (ANoul 0)
                else if n = NWord ''1'' then Inr (ANoul PPM_MAX)
                else Inl WrongType))
      | k \<Rightarrow>
          (case label_values (labels k) mode n of
             Inl e \<Rightarrow> Inl e
           | Inr vals \<Rightarrow>
             (case normalize (labels k) vals of
                Inl e \<Rightarrow> Inl e
              | Inr dist \<Rightarrow> Inr (if is_choice k then AChoice dist else AScore dist))))"

definition read_reply :: "question_set \<Rightarrow> string \<Rightarrow> decode_code + (string \<times> answer) list" where
  "read_reply s reply =
     (case parse reply of
        Inl e \<Rightarrow> Inl e
      | Inr nodes \<Rightarrow>
        (let questions = s_questions s; names = map q_id questions in
         case members nodes names (\<lambda>i n. answer_of (questions ! i) (s_mode s) n) of
           Inl e \<Rightarrow> Inl e
         | Inr answers \<Rightarrow> Inr (zip (map q_id questions) answers)))"

definition answer_renormalized :: "answer \<Rightarrow> bool" where
  "answer_renormalized a = (case a of AChoice d \<Rightarrow> d_renormalized d | AScore d \<Rightarrow> d_renormalized d | ANoul _ \<Rightarrow> False)"

definition decode :: "question_set \<Rightarrow> string \<Rightarrow> string \<Rightarrow> attempt \<Rightarrow> reply_error + decision" where
  "decode s reply binding att =
     (if length reply > MAX_REPLY_BYTES then Inl TooLarge
      else case read_reply s reply of
        Inl e \<Rightarrow> Inl (Decode e)
      | Inr answers \<Rightarrow>
        Inr \<lparr>dn_set = s, dn_binding = binding, dn_attempt = att,
             dn_renormalized = list_ex (\<lambda>(_, a). answer_renormalized a) answers,
             dn_answers = answers,
             dn_readings = map (\<lambda>(q, (i, a)). (i, read_answer q a)) (zip (s_questions s) answers)\<rparr>)"

end
