(* ===== verification/Td_Projection.thy ===== *)
theory Td_Projection
  imports Td_Registry
begin

text \<open>
  The projections, the character profile \<open>td-chars-v1\<close>, the inventory
  matcher, the encoding \<open>td-escape-v1\<close> and the frame \<open>td-frame-v1\<close>
  (\<open>crates/nexus-typed-decision/src/projection.rs\<close>). Texts are lists of
  Unicode scalar values, since the code walks them with \<open>chars()\<close>.
\<close>

section \<open>Projections\<close>

record facts =
  f_name :: ustr
  f_hours :: "ustr list"
  f_phone :: ustr

datatype element = EH1 | EH2 | EH3 | EP | ELi | EAddress

primrec element_code :: "element \<Rightarrow> string" where
  "element_code EH1 = ''h1''"
| "element_code EH2 = ''h2''"
| "element_code EH3 = ''h3''"
| "element_code EP = ''p''"
| "element_code ELi = ''li''"
| "element_code EAddress = ''address''"

datatype note_source = OwnerNote

primrec note_source_code :: "note_source \<Rightarrow> string" where
  "note_source_code OwnerNote = ''owner_note''"

datatype projection =
    PageText facts ustr "(element \<times> ustr) list"
  | UntrustedText note_source ustr

primrec projection_id_of :: "projection \<Rightarrow> projection_id" where
  "projection_id_of (PageText _ _ _) = PageTextV1"
| "projection_id_of (UntrustedText _ _) = UntrustedTextV1"

primrec projection_strings :: "projection \<Rightarrow> ustr list" where
  "projection_strings (PageText f title text) =
     [f_name f, f_phone f, title] @ f_hours f @ map snd text"
| "projection_strings (UntrustedText _ text) = [text]"

primrec allows_line_breaks :: "projection \<Rightarrow> bool" where
  "allows_line_breaks (PageText _ _ _) = False"
| "allows_line_breaks (UntrustedText _ _) = True"

primrec source_text_bytes :: "projection \<Rightarrow> nat" where
  "source_text_bytes (PageText f title text) = ulen title + sum_list (map (\<lambda>(_, t). ulen t) text)"
| "source_text_bytes (UntrustedText _ text) = ulen text"


section \<open>Encoding and frame\<close>

definition hex_digit :: "nat \<Rightarrow> uchar" where
  "hex_digit n = (if n < 10 then 48 + n else 87 + n)"

text \<open>\<open>format!("{n:04x}")\<close>.\<close>

definition hex4 :: "nat \<Rightarrow> ustr" where
  "hex4 n = [hex_digit (n div 4096 mod 16), hex_digit (n div 256 mod 16),
             hex_digit (n div 16 mod 16), hex_digit (n mod 16)]"

definition BACKSLASH :: uchar where "BACKSLASH = 92"

definition escape_char :: "uchar \<Rightarrow> ustr" where
  "escape_char c =
     (if c = 34 \<or> c = 92 then [BACKSLASH, c]
      else if c = 60 then BACKSLASH # asc ''u003c''
      else if c = 62 then BACKSLASH # asc ''u003e''
      else if c < 32 then BACKSLASH #
        (if c = 8 then asc ''b'' else if c = 9 then asc ''t'' else if c = 10 then asc ''n''
         else if c = 12 then asc ''f'' else if c = 13 then asc ''r''
         else asc ''u'' @ hex4 c)
      else [c])"

definition put_str :: "ustr \<Rightarrow> ustr" where
  "put_str s = [34] @ concat (map escape_char s) @ [34]"

text \<open>The comma-separated elements of one array.\<close>

fun put_list :: "ustr list \<Rightarrow> ustr" where
  "put_list [] = []"
| "put_list [x] = x"
| "put_list (x # y # ys) = x @ [44] @ put_list (y # ys)"

definition put_block :: "element \<times> ustr \<Rightarrow> ustr" where
  "put_block b = [91] @ put_str (asc (element_code (fst b))) @ [44] @ put_str (snd b) @ [93]"

definition projection_encode :: "projection \<Rightarrow> ustr" where
  \<open>projection_encode p =
     asc ''{"projection":'' @ put_str (asc (projection_id_id (projection_id_of p))) @
     (case p of
        PageText f title text \<Rightarrow>
          asc '',"complete":true,"facts":{"name":'' @ put_str (f_name f)
          @ asc '',"hours":['' @ put_list (map put_str (f_hours f))
          @ asc ''],"phone":'' @ put_str (f_phone f)
          @ asc ''},"title":'' @ put_str title
          @ asc '',"text":['' @ put_list (map put_block text) @ asc '']}''
      | UntrustedText source text \<Rightarrow>
          asc '',"source":'' @ put_str (asc (note_source_code source))
          @ asc '',"complete":true,"text":'' @ put_str text @ [125])\<close>

definition in_profile :: "uchar \<Rightarrow> bool \<Rightarrow> bool" where
  "in_profile c line_breaks \<longleftrightarrow>
     (32 \<le> c \<and> c \<le> 126) \<or> (161 \<le> c \<and> c \<le> 172) \<or> (174 \<le> c \<and> c \<le> 255)
     \<or> (256 \<le> c \<and> c \<le> 383) \<or> (8210 \<le> c \<and> c \<le> 8212) \<or> (8216 \<le> c \<and> c \<le> 8223)
     \<or> c = 8226 \<or> c = 8230 \<or> c = 8364 \<or> c = 8482
     \<or> (line_breaks \<and> (c = 10 \<or> c = 9))"

definition frame :: "ustr \<Rightarrow> ustr" where
  "frame encoded = asc ''<document>'' @ [10] @ encoded @ [10] @ asc ''</document>''"

type_synonym inventory = "ustr list"

text \<open>The assertions of \<open>Inventory::new\<close>.\<close>

definition inventory_ok :: "inventory \<Rightarrow> bool" where
  "inventory_ok spellings \<longleftrightarrow> spellings \<noteq> [] \<and> list_all (\<lambda>s. s \<noteq> []) spellings"

definition occurs_in :: "inventory \<Rightarrow> ustr \<Rightarrow> bool" where
  "occurs_in spellings text = list_ex (\<lambda>spelling. sublist spelling text) spellings"


section \<open>A reader for the encoding\<close>

text \<open>
  The reference reader of a JSON string literal: what a JSON parser makes of the
  text between the quotes. It is the specification the encoder is checked against.
\<close>

definition unhex :: "uchar \<Rightarrow> nat" where
  "unhex c = (if c < 58 then c - 48 else c - 87)"

fun unescape :: "ustr \<Rightarrow> (ustr \<times> ustr) option" where
  "unescape [] = None"
| "unescape (c # cs) =
     (if c = 34 then Some ([], cs)
      else if c = 92 then
        (case cs of
           [] \<Rightarrow> None
         | e # es \<Rightarrow>
           (if e = 117 then
              (case es of
                 h1 # h2 # h3 # h4 # rest \<Rightarrow>
                   map_option (apfst ((#) (unhex h1 * 4096 + unhex h2 * 256 + unhex h3 * 16 + unhex h4)))
                     (unescape rest)
               | _ \<Rightarrow> None)
            else map_option (apfst ((#) (if e = 98 then 8 else if e = 116 then 9 else if e = 110 then 10
                   else if e = 102 then 12 else if e = 114 then 13 else e))) (unescape es)))
      else map_option (apfst ((#) c)) (unescape cs))"

declare unescape.simps(2) [simp del]

definition read_str :: "ustr \<Rightarrow> (ustr \<times> ustr) option" where
  "read_str t = (case t of c # cs \<Rightarrow> (if c = 34 then unescape cs else None) | [] \<Rightarrow> None)"

lemma unhex_hex_digit: "n < 16 \<Longrightarrow> unhex (hex_digit n) = n"
  by (simp add: unhex_def hex_digit_def)

lemma unescape_hex4:
  "unescape (92 # 117 # hex4 c @ rest) = map_option (apfst ((#) c)) (unescape rest)" if "c < 32"
proof -
  from that have "c div 4096 = 0" "c div 256 = 0" "c div 16 < 16" by simp_all
  then have "hex4 c = [hex_digit 0, hex_digit 0, hex_digit (c div 16), hex_digit (c mod 16)]"
    by (simp only: hex4_def mod_less)
  with \<open>c div 16 < 16\<close> show ?thesis
    by (simp add: unescape.simps(2) unhex_hex_digit)
qed

lemma unescape_escape_char:
  "unescape (escape_char c @ rest) = map_option (apfst ((#) c)) (unescape rest)"
proof -
  consider (q) "c = 34 \<or> c = 92" | (lt) "c = 60" | (gt) "c = 62"
    | (named) "c \<in> {8, 9, 10, 12, 13}"
    | (hex) "c < 32" "c \<notin> {8, 9, 10, 12, 13}"
    | (other) "32 \<le> c" "c \<notin> {34, 60, 62, 92}"
    by fastforce
  then show ?thesis
  proof cases
    case hex
    then have "escape_char c @ rest = 92 # 117 # hex4 c @ rest"
      by (auto simp: escape_char_def BACKSLASH_def)
    with hex(1) show ?thesis by (simp add: unescape_hex4)
  qed (auto simp: escape_char_def BACKSLASH_def unescape.simps(2) unhex_def)
qed

lemma unescape_put: "unescape (concat (map escape_char s) @ 34 # rest) = Some (s, rest)"
  by (induction s) (simp_all add: unescape.simps(2) unescape_escape_char)

lemma read_put_str: "read_str (put_str s @ rest) = Some (s, rest)"
  by (simp add: read_str_def put_str_def unescape_put)

lemma put_str_inj: "put_str s @ x = put_str t @ y \<longleftrightarrow> s = t \<and> x = y"
  by (metis Pair_inject option.inject read_put_str)

lemma put_str_inj0: "put_str s = put_str t \<longleftrightarrow> s = t"
  using put_str_inj [of s "[]" t "[]"] by simp

lemma put_str_Cons: "put_str s @ x = 34 # concat (map escape_char s) @ 34 # x"
  by (simp add: put_str_def)


section \<open>Lists of self-delimiting items\<close>

text \<open>
  The contract between the array writer and the writers of its items: an item
  ends where its own text says (whatever follows), and no item starts with the
  closing bracket. Under it a written array determines its items.
\<close>

locale item_writer = self_delimiting put "\<lambda>_. True" for put :: "'a \<Rightarrow> ustr" +
  assumes put_open: "\<exists>c cs. put a = c # cs \<and> c \<noteq> 93"
begin

lemma put_not_close: "put a @ x \<noteq> 93 # y"
  using put_open [of a] by auto

lemma put_list_Cons:
  "put_list (put a # map put as) @ 93 # x =
   put a @ (case as of [] \<Rightarrow> 93 # x | b # bs \<Rightarrow> 44 # put_list (put b # map put bs) @ 93 # x)"
  by (cases "as") simp_all

lemma put_list_inj:
  "put_list (map put as) @ 93 # x = put_list (map put bs) @ 93 # y \<Longrightarrow> as = bs \<and> x = y"
proof (induction "as" arbitrary: bs)
  case Nil
  then show ?case
    by (cases bs) (auto simp: put_list_Cons put_not_close [symmetric] simp del: put_list.simps(2,3))
next
  case (Cons a "as")
  show ?case
  proof (cases bs)
    case Nil
    with Cons.prems show ?thesis
      by (auto simp: put_list_Cons put_not_close simp del: put_list.simps(2,3))
  next
    case (Cons b bs')
    let ?tail = "\<lambda>as x. case as of [] \<Rightarrow> 93 # x | b # bs \<Rightarrow> 44 # put_list (put b # map put bs) @ 93 # x"
    from Cons.prems have "a = b \<and> ?tail as x = ?tail bs' y"
      by (intro put_inj) (simp_all add: Cons put_list_Cons del: put_list.simps)
    moreover from this have "as = bs' \<and> x = y"
      using Cons.IH [of bs'] by (cases "as"; cases bs') (auto simp del: put_list.simps(2,3))
    ultimately show ?thesis by (simp add: Cons)
  qed
qed

lemma put_list_inj0: "put_list (map put as) = put_list (map put bs) \<Longrightarrow> as = bs"
  using put_list_inj [of "as" "[]" bs "[]"] by simp

end

interpretation str_items: item_writer put_str
proof
  show "put_str a @ x = put_str b @ y \<Longrightarrow> a = b \<and> x = y" for a b x y
    by (simp add: put_str_inj)
  show "\<exists>c cs. put_str a = c # cs \<and> c \<noteq> 93" for a
    by (simp add: put_str_def)
qed

lemma element_code_inj: "element_code a = element_code b \<longleftrightarrow> a = b"
  by (cases a; cases b) simp_all

lemma asc_inj: "asc s = asc t \<longleftrightarrow> s = t"
  by (simp add: asc_def inj_map_eq_map inj_def)

interpretation block_items: item_writer put_block
proof
  show "put_block a @ x = put_block b @ y \<Longrightarrow> a = b \<and> x = y" for a b x y
    by (cases a; cases b) (simp add: put_block_def put_str_inj asc_inj element_code_inj)
  show "\<exists>c cs. put_block a = c # cs \<and> c \<noteq> 93" for a
    by (simp add: put_block_def)
qed

lemma note_source_code_inj: "note_source_code s = note_source_code t \<longleftrightarrow> s = t"
  by (cases s; cases t) simp

lemma projection_encode_inj: "projection_encode p = projection_encode q \<longleftrightarrow> p = q"
proof
  assume eq: "projection_encode p = projection_encode q"
  show "p = q"
  proof (cases p; cases q)
    fix f title bs f' title' bs'
    assume p: "p = PageText f title bs" and q: "q = PageText f' title' bs'"
    from eq have "f_name f = f_name f' \<and> f_hours f = f_hours f' \<and> f_phone f = f_phone f'
        \<and> title = title' \<and> bs = bs'"
      by (auto simp: p q projection_encode_def asc_def put_str_inj
            dest!: str_items.put_list_inj block_items.put_list_inj0)
    then show ?thesis by (simp add: p q)
  qed (use eq in \<open>simp_all add: projection_encode_def put_str_inj put_str_inj0 asc_inj
        note_source_code_inj\<close>)
qed simp


section \<open>No delimiter survives the encoding\<close>

definition no_angle :: "ustr \<Rightarrow> bool" where
  "no_angle t \<longleftrightarrow> list_all (\<lambda>c. c \<noteq> 60 \<and> c \<noteq> 62) t"

lemma no_angle_simps [simp]:
  "no_angle []"
  "no_angle (c # t) \<longleftrightarrow> c \<noteq> 60 \<and> c \<noteq> 62 \<and> no_angle t"
  "no_angle (s @ t) \<longleftrightarrow> no_angle s \<and> no_angle t"
  by (simp_all add: no_angle_def)

lemma hex4_no_angle: "no_angle (hex4 n)"
  by (simp add: hex4_def hex_digit_def)

lemma put_str_no_angle: "no_angle (put_str s)"
proof -
  have "no_angle (escape_char c)" for c
    by (simp add: escape_char_def BACKSLASH_def asc_def hex4_no_angle)
  then have "no_angle (concat (map escape_char s))" by (induction s) simp_all
  then show ?thesis by (simp add: put_str_def)
qed

lemma put_list_no_angle: "list_all no_angle xs \<Longrightarrow> no_angle (put_list xs)"
  by (induction xs rule: put_list.induct) simp_all

lemma projection_encode_no_angle: "no_angle (projection_encode p)"
proof -
  have strs: "no_angle (put_list (map put_str xs))" for xs
    by (rule put_list_no_angle) (simp add: list_all_iff put_str_no_angle)
  have blocks: "no_angle (put_list (map put_block bs))" for bs
    by (rule put_list_no_angle) (simp add: list_all_iff put_block_def put_str_no_angle)
  show ?thesis
    by (cases p) (simp_all add: projection_encode_def asc_def put_str_no_angle strs blocks)
qed

lemma no_angle_set: "no_angle t \<longleftrightarrow> 60 \<notin> set t \<and> 62 \<notin> set t"
  by (auto simp: no_angle_def list_all_iff)

text \<open>The closing tag occurs once in a frame, at the very end; the opening tag once, at the start.\<close>

lemma frame_close_unique:
  assumes "no_angle e" "frame e = x @ asc ''</document>'' @ y"
  shows "y = []"
proof (cases x)
  case Nil
  with assms(2) show ?thesis by (simp add: frame_def asc_def)
next
  case (Cons c x')
  let ?P = "asc ''document>'' @ 10 # e @ [10]"
  let ?R = "asc ''/document>''"
  from assms(2) Cons have "?P @ 60 # ?R = x' @ 60 # ?R @ y"
    by (simp add: frame_def asc_def)
  moreover from assms(1) have "60 \<notin> set ?P" "60 \<notin> set ?R"
    by (simp_all add: no_angle_set asc_def)
  ultimately have "?R = ?R @ y"
    using append_Cons_eq_iff [of 60 ?P ?R x' "?R @ y"] by blast
  then show ?thesis by simp
qed

lemma frame_open_unique:
  assumes "no_angle e" "frame e = x @ asc ''<document>'' @ y"
  shows "x = []"
proof (rule ccontr)
  assume "x \<noteq> []"
  then obtain c x' where x: "x = c # x'" by (cases x) auto
  let ?P = "asc ''document>'' @ 10 # e @ [10]"
  let ?R = "asc ''/document>''"
  from assms(2) x have "?P @ 60 # ?R = x' @ 60 # asc ''document>'' @ y"
    by (simp add: frame_def asc_def)
  moreover from assms(1) have "60 \<notin> set ?P" "60 \<notin> set ?R"
    by (simp_all add: no_angle_set asc_def)
  ultimately have "?R = asc ''document>'' @ y"
    using append_Cons_eq_iff [of 60 ?P ?R x' "asc ''document>'' @ y"] by blast
  then show False by (simp add: asc_def)
qed

lemma frame_inj: "frame a = frame b \<longleftrightarrow> a = b"
  by (simp add: frame_def)


section \<open>Properties\<close>

text \<open>The encoding is unambiguous. A JSON reader gets back every string the encoder wrote,
  whatever follows it, and two framed user messages are equal only for equal projections.\<close>

lemma encoding_unambiguous:
  "read_str (put_str s @ rest) = Some (s, rest)
   \<and> (frame (projection_encode p) = frame (projection_encode q) \<longleftrightarrow> p = q)"
  by (simp add: read_put_str frame_inj projection_encode_inj)

text \<open>C19: no admitted text can forge the frame. Whatever the strings of the projection are, the
  closing tag occurs in the user message once, at its end, and the opening tag once, at its start.\<close>

theorem frame_unforgeable:
  "{x. \<exists>y. frame (projection_encode p) = x @ asc ''</document>'' @ y}
     = {asc ''<document>'' @ [10] @ projection_encode p @ [10]}
   \<and> {y. \<exists>x. frame (projection_encode p) = x @ asc ''<document>'' @ y}
     = {[10] @ projection_encode p @ [10] @ asc ''</document>''}"
proof -
  note clean = projection_encode_no_angle [of p]
  have "x = asc ''<document>'' @ [10] @ projection_encode p @ [10]"
    if "frame (projection_encode p) = x @ asc ''</document>'' @ y" for x y
    using frame_close_unique [OF clean that] that by (simp add: frame_def)
  moreover have "y = [10] @ projection_encode p @ [10] @ asc ''</document>''"
    if "frame (projection_encode p) = x @ asc ''<document>'' @ y" for x y
    using frame_open_unique [OF clean that] that by (simp add: frame_def)
  moreover have "frame (projection_encode p)
      = (asc ''<document>'' @ [10] @ projection_encode p @ [10]) @ asc ''</document>'' @ []"
    "frame (projection_encode p)
      = [] @ asc ''<document>'' @ [10] @ projection_encode p @ [10] @ asc ''</document>''"
    by (simp_all add: frame_def)
  ultimately show ?thesis by blast
qed

end
