(* ===== verification/Td_Budget.thy ===== *)
theory Td_Budget
  imports Td_Render Td_Projection
begin

text \<open>
  Preflight and the exact byte budget
  (\<open>crates/nexus-typed-decision/src/budget.rs\<close>): a request is either refused
  with a typed code before anything is built, or it is complete and both attempts
  fit the bound. System texts are ASCII byte strings; \<open>asc\<close> reads them as
  scalar values for the inventory matcher.
\<close>

section \<open>Preflight\<close>

definition MAX_CONTENT_BYTES :: nat where "MAX_CONTENT_BYTES = 3936"

record coverage =
  source_bytes :: nat
  sent_bytes :: nat
  omitted_bytes :: nat
  user_bytes :: nat
  needed_bytes :: nat
  complete :: bool

record prepared =
  p_set :: question_set
  p_system :: string
  p_user :: ustr
  p_schema :: string
  p_coverage :: coverage

definition attempt2 :: "string \<Rightarrow> decode_code \<Rightarrow> string" where
  "attempt2 system code = system @ nl @ nl @ correction_sentence code"

definition correction_system :: "prepared \<Rightarrow> decode_code \<Rightarrow> string" where
  "correction_system p code = attempt2 (p_system p) code"

definition attempt1_bytes :: "prepared \<Rightarrow> nat" where
  "attempt1_bytes p = length (p_system p) + ulen (p_user p)"

definition attempt2_max_bytes :: "prepared \<Rightarrow> nat" where
  "attempt2_max_bytes p = needed_bytes (p_coverage p)"

datatype refusal =
    ProjectionMismatch
  | Unrenderable
  | CharNotAllowed
  | UnsafeDelimiter
  | CoverageInsufficient coverage "(string \<times> reading) list"
  | RequestTooLarge

primrec refusal_code :: "refusal \<Rightarrow> string" where
  "refusal_code ProjectionMismatch = ''projection_mismatch''"
| "refusal_code Unrenderable = ''unrenderable''"
| "refusal_code CharNotAllowed = ''char_not_allowed''"
| "refusal_code UnsafeDelimiter = ''unsafe_delimiter''"
| "refusal_code (CoverageInsufficient _ _) = ''coverage_insufficient''"
| "refusal_code RequestTooLarge = ''request_too_large''"

definition refusal_outcome :: "refusal \<Rightarrow> string" where
  "refusal_outcome r = ''refused:'' @ refusal_code r"

text \<open>\<open>iter().max().unwrap_or(usize::MAX)\<close>.\<close>

definition longest_of :: "nat list \<Rightarrow> nat" where
  "longest_of ns = (case ns of [] \<Rightarrow> U64_MAX | n # ms \<Rightarrow> fold max ms n)"

definition prepare :: "question_set \<Rightarrow> projection \<Rightarrow> inventory \<Rightarrow> refusal + prepared" where
  "prepare s p spl =
     (if s_projection s \<noteq> projection_id_of p then Inl ProjectionMismatch
      else case render_system s of
        Inl _ \<Rightarrow> Inl Unrenderable
      | Inr system \<Rightarrow>
        (let corrections = map (attempt2 system) DECODE_CODE_ALL;
             strings = projection_strings p;
             line_breaks = allows_line_breaks p
         in
         if \<not> list_all (list_all (\<lambda>c. in_profile c line_breaks)) strings then Inl CharNotAllowed
         else if list_ex (occurs_in spl) strings then Inl UnsafeDelimiter
         else
         (let user = frame (projection_encode p) in
          if occurs_in spl user \<or> occurs_in spl (asc system)
             \<or> list_ex (\<lambda>c. occurs_in spl (asc c)) corrections then Inl UnsafeDelimiter
          else
          (let longest = longest_of (map length corrections);
               source = source_text_bytes p;
               needed = sat_add_u64 longest (ulen user)
           in
           if needed > MAX_CONTENT_BYTES then
             Inl (CoverageInsufficient
               \<lparr>source_bytes = source, sent_bytes = 0, omitted_bytes = source,
                user_bytes = ulen user, needed_bytes = needed, complete = False\<rparr>
               (map (\<lambda>id. (id, Unsettled)) (keys s)))
           else if \<not> (length system + ulen user \<le> MAX_CONTENT_BYTES)
             \<or> \<not> list_all (\<lambda>c. length c + ulen user \<le> MAX_CONTENT_BYTES) corrections then
             Inl RequestTooLarge
           else Inr \<lparr>p_set = s, p_system = system, p_user = user, p_schema = render_schema s,
             p_coverage = \<lparr>source_bytes = source, sent_bytes = source, omitted_bytes = 0,
                user_bytes = ulen user, needed_bytes = needed, complete = True\<rparr>\<rparr>))))"


section \<open>What preflight promises\<close>

lemma fold_max_ge: "(n :: nat) \<le> fold max ms n" "m \<in> set ms \<Longrightarrow> m \<le> fold max ms n"
proof (induction ms arbitrary: n)
  case (Cons k ms)
  { case 1 show ?case using Cons(1) [of "max k n"] by simp }
  { case 2 then show ?case using Cons(1,2) [of "max k n"] by auto }
qed simp_all

lemma longest_of_ge: "n \<in> set ns \<Longrightarrow> n \<le> longest_of ns"
  by (cases ns) (auto simp: longest_of_def fold_max_ge)

lemma fold_max_mem: "fold max ms (n :: nat) \<in> insert n (set ms)"
  by (induction ms arbitrary: n) (auto simp: max_def split: if_splits)

lemma longest_of_mem: "ns \<noteq> [] \<Longrightarrow> longest_of ns \<in> set ns"
  using fold_max_mem by (cases ns) (auto simp: longest_of_def)

lemma decode_code_all: "c \<in> set DECODE_CODE_ALL"
  by (cases c) (simp_all add: DECODE_CODE_ALL_def)

lemma attempt2_longer: "length system \<le> length (attempt2 system c)"
  by (simp add: attempt2_def)

lemma sat_add_le: "sat_add_u64 a b \<le> m \<Longrightarrow> m < U64_MAX \<Longrightarrow> a + b \<le> m"
  by (simp add: sat_add_u64_def min_def split: if_splits)

lemma budget_covers:
  assumes "sat_add_u64 (longest_of (map length (map (attempt2 system) DECODE_CODE_ALL))) u \<le> MAX_CONTENT_BYTES"
  shows "length (attempt2 system c) + u \<le> MAX_CONTENT_BYTES" "length system + u \<le> MAX_CONTENT_BYTES"
proof -
  let ?ns = "map length (map (attempt2 system) DECODE_CODE_ALL)"
  have "length (attempt2 system d) \<le> longest_of ?ns" for d
    using decode_code_all [of d] by (intro longest_of_ge) auto
  moreover have "longest_of ?ns + u \<le> MAX_CONTENT_BYTES"
    using assms by (rule sat_add_le) (simp add: MAX_CONTENT_BYTES_def U64_MAX_def)
  ultimately show "length (attempt2 system c) + u \<le> MAX_CONTENT_BYTES" for c
    by (meson add_le_mono1 order_trans)
  from this [of c] attempt2_longer [of system c] show "length system + u \<le> MAX_CONTENT_BYTES" by linarith
qed

text \<open>The second guard of the bound is unreachable.\<close>

lemma prepare_never_too_large: "prepare s p spl \<noteq> Inl RequestTooLarge"
proof -
  have "list_all (\<lambda>c. length c + u \<le> MAX_CONTENT_BYTES) (map (attempt2 system) DECODE_CODE_ALL)
     \<and> length system + u \<le> MAX_CONTENT_BYTES"
    if "\<not> sat_add_u64 (longest_of (map length (map (attempt2 system) DECODE_CODE_ALL))) u > MAX_CONTENT_BYTES"
    for system u
    using budget_covers [of system u] that by (simp add: list_all_iff not_less)
  then show ?thesis
    by (simp add: prepare_def Let_def split: sum.splits del: map_map)
qed

lemma prepare_Inr:
  assumes "prepare s p spl = Inr r"
  shows "s_projection s = projection_id_of p"
    and "render_system s = Inr (p_system r)"
    and "p_set r = s" and "p_user r = frame (projection_encode p)"
    and "p_schema r = render_schema s"
    and "list_all (list_all (\<lambda>c. in_profile c (allows_line_breaks p))) (projection_strings p)"
    and "\<not> list_ex (occurs_in spl) (projection_strings p)"
    and "\<not> occurs_in spl (p_user r)" and "\<not> occurs_in spl (asc (p_system r))"
    and "\<not> occurs_in spl (asc (correction_system r c))"
    and "needed_bytes (p_coverage r) =
      sat_add_u64 (longest_of (map length (map (attempt2 (p_system r)) DECODE_CODE_ALL))) (ulen (p_user r))"
    and "needed_bytes (p_coverage r) \<le> MAX_CONTENT_BYTES"
    and "complete (p_coverage r)" "omitted_bytes (p_coverage r) = 0"
    and "sent_bytes (p_coverage r) = source_text_bytes p"
  using assms decode_code_all [of c]
  by (auto simp: prepare_def Let_def correction_system_def list_ex_iff not_less simp del: map_map
      split: sum.splits if_splits)


lemma of_char_angle: "of_char c = (60 :: nat) \<longleftrightarrow> c = CHR ''<''" "of_char c = (62 :: nat) \<longleftrightarrow> c = CHR ''>''"
  using of_char_eq_iff [where ?'a = nat, of c "CHR ''<''"] of_char_eq_iff [where ?'a = nat, of c "CHR ''>''"]
  by simp_all

lemma plain_not_angle: "list_all plain_ascii t \<Longrightarrow> no_angle (asc t)"
  by (induction t) (auto simp: asc_def plain_ascii_def of_char_angle)

lemma occurs_in_no_angle:
  "no_angle t \<Longrightarrow> (\<forall>sp \<in> set spl. \<not> no_angle sp) \<Longrightarrow> \<not> occurs_in spl t"
  by (auto simp: occurs_in_def list_ex_iff no_angle_set dest!: set_mono_sublist)

lemma phrase_length: "length (phrase c) \<le> 60"
  by (cases c) (simp_all add: phrase_def TEXTS_V1_def)

lemma correction_length: "length (attempt2 system c) \<le> length system + 200"
proof -
  have "length (correction_prefix TEXTS_V1) + length (correction_suffix TEXTS_V1) \<le> 138"
    by (simp add: TEXTS_V1_def)
  with phrase_length [of c] show ?thesis
    by (simp add: attempt2_def correction_sentence_def nl_def)
qed

lemma longest_correction: "longest_of (map length (map (attempt2 system) DECODE_CODE_ALL)) \<le> length system + 200"
proof -
  let ?ns = "map length (map (attempt2 system) DECODE_CODE_ALL)"
  have "longest_of ?ns \<in> set ?ns"
    by (rule longest_of_mem) (simp add: DECODE_CODE_ALL_def)
  then show ?thesis using correction_length by auto
qed

text \<open>
  Preflight accepts what it should: a well-formed set, a projection inside the profile, an
  inventory of spellings that each hold an angle bracket, and room for the longest correction.
\<close>

lemma prepare_ok:
  assumes "set_wf s" "render_system s = Inr system" "s_projection s = projection_id_of p"
    and "list_all (list_all (\<lambda>c. in_profile c (allows_line_breaks p))) (projection_strings p)"
    and "\<forall>sp \<in> set spl. \<not> no_angle sp"
    and "\<not> list_ex (occurs_in spl) (projection_strings p)"
    and "\<not> occurs_in spl (frame (projection_encode p))"
    and "length system + 200 + ulen (frame (projection_encode p)) \<le> MAX_CONTENT_BYTES"
  shows "\<exists>r. prepare s p spl = Inr r"
proof -
  let ?u = "ulen (frame (projection_encode p))"
  let ?needed = "sat_add_u64 (longest_of (map length (map (attempt2 system) DECODE_CODE_ALL))) ?u"
  have "list_all plain_ascii system" using assms(1,2) by (rule render_system_plain)
  moreover from this have "list_all plain_ascii (attempt2 system c)" for c
    by (simp add: attempt2_def correction_sentence_plain literals_plain)
  ultimately have "\<not> occurs_in spl (asc system)" "\<not> occurs_in spl (asc (attempt2 system c))" for c
    using assms(5) by (simp_all add: occurs_in_no_angle plain_not_angle)
  moreover have "?needed \<le> MAX_CONTENT_BYTES"
    using longest_correction [of system] assms(8) by (simp add: sat_add_u64_def)
  ultimately show ?thesis
    using assms budget_covers [of system ?u]
    by (simp add: prepare_def Let_def list_ex_iff list_all_iff del: map_map)
qed


text \<open>A concrete accepted request: the injection screen over a two-letter note.\<close>

lemma prepare_INJ_1_hi: "\<exists>r. prepare INJ_1 (UntrustedText OwnerNote (asc ''hi'')) [asc ''<|''] = Inr r"
proof -
  let ?p = "UntrustedText OwnerNote (asc ''hi'')"
  have "\<exists>t. render_system INJ_1 = Inr t \<and> length t \<le> 3000"
    by (simp add: render_system_def render_system_with_def render_shape_def INJ_1_def INJ_1_QUESTIONS_def
        noul_def question_line_def TEXTS_V1_def nl_def shape_value_def quote_def)
  then obtain system where sys: "render_system INJ_1 = Inr system" "length system \<le> 3000"
    by blast
  show "\<exists>r. prepare INJ_1 ?p [asc ''<|''] = Inr r"
    using INJ_1_wf sys(1)
  proof (rule prepare_ok)
    have "ulen (frame (projection_encode ?p)) \<le> 700"
      by (simp add: frame_def projection_encode_def put_str_def escape_char_def asc_def ulen_def len_utf8_def)
    with sys(2) show "length system + 200 + ulen (frame (projection_encode ?p)) \<le> MAX_CONTENT_BYTES"
      by (simp add: MAX_CONTENT_BYTES_def)
  qed (simp_all add: INJ_1_def in_profile_def asc_def occurs_in_def frame_def projection_encode_def
        put_str_def escape_char_def sublist_Cons_right)
qed


section \<open>Properties\<close>

text \<open>C18: preflight is complete and within the bound. When it accepts, the user message
  is the frame of the whole projection (nothing is cut), attempt 1 fits 3,936 bytes, every
  attempt 2 fits the largest figure it reports and that figure fits the bound, every admitted
  character is in the profile, and no sensitive spelling occurs in any text sent.\<close>

theorem prepare_accepts:
  assumes "prepare s p spl = Inr r"
  shows "p_user r = frame (projection_encode p) \<and> render_system s = Inr (p_system r)
    \<and> complete (p_coverage r) \<and> sent_bytes (p_coverage r) = source_text_bytes p
    \<and> omitted_bytes (p_coverage r) = 0
    \<and> attempt1_bytes r \<le> MAX_CONTENT_BYTES
    \<and> (\<forall>c. length (correction_system r c) + ulen (p_user r) \<le> attempt2_max_bytes r)
    \<and> attempt2_max_bytes r \<le> MAX_CONTENT_BYTES
    \<and> (\<forall>t \<in> set (projection_strings p). \<forall>c \<in> set t. in_profile c (allows_line_breaks p))
    \<and> \<not> list_ex (occurs_in spl) (projection_strings p)
    \<and> \<not> occurs_in spl (p_user r) \<and> \<not> occurs_in spl (asc (p_system r))
    \<and> (\<forall>c. \<not> occurs_in spl (asc (correction_system r c)))"
proof -
  note facts = prepare_Inr [OF assms]
  let ?ns = "map length (map (attempt2 (p_system r)) DECODE_CODE_ALL)"
  have "longest_of ?ns + ulen (p_user r) \<le> MAX_CONTENT_BYTES"
    using facts(11,12) by (intro sat_add_le) (simp_all add: MAX_CONTENT_BYTES_def U64_MAX_def)
  then have needed: "needed_bytes (p_coverage r) = longest_of ?ns + ulen (p_user r)"
    using facts(11) by (simp add: sat_add_u64_def MAX_CONTENT_BYTES_def U64_MAX_def)
  have "length (correction_system r c) \<le> longest_of ?ns" for c
    using decode_code_all [of c] by (intro longest_of_ge) (auto simp: correction_system_def)
  with needed have "\<forall>c. length (correction_system r c) + ulen (p_user r) \<le> attempt2_max_bytes r"
    by (simp add: attempt2_max_bytes_def)
  moreover have "attempt1_bytes r \<le> MAX_CONTENT_BYTES"
    using budget_covers(2) facts(11,12) by (simp add: attempt1_bytes_def)
  ultimately show ?thesis
    using facts by (auto simp: attempt2_max_bytes_def list_all_iff)
qed

theorem prepare_accepts_witness:
  "\<exists>r. prepare INJ_1 (UntrustedText OwnerNote (asc ''hi'')) [asc ''<|''] = Inr r
     \<and> attempt2_max_bytes r \<le> MAX_CONTENT_BYTES"
  using prepare_INJ_1_hi prepare_accepts by blast

text \<open>The corrected request is the rendered one. The attempt-2 text that preflight
  budgeted is the text the renderer gives for that failure code, and neither system text of a
  well-formed set holds an angle bracket, so the frame's tags occur in the user message only.\<close>

lemma correction_texts_agree:
  assumes "set_wf s" "prepare s p spl = Inr r"
  shows "render_correction_system s c = Inr (correction_system r c)
    \<and> no_angle (asc (p_system r)) \<and> no_angle (asc (correction_system r c))"
proof -
  have sys: "render_system s = Inr (p_system r)" using assms(2) by (rule prepare_Inr)
  then have "list_all plain_ascii (p_system r)" using assms(1) by (simp add: render_system_plain)
  moreover from this have "list_all plain_ascii (correction_system r c)"
    by (simp add: correction_system_def attempt2_def correction_sentence_plain literals_plain)
  ultimately show ?thesis
    using sys by (simp add: plain_not_angle render_correction_system_def correction_system_def attempt2_def)
qed

lemma correction_texts_agree_sample:
  "\<exists>r. prepare INJ_1 (UntrustedText OwnerNote (asc ''hi'')) [asc ''<|''] = Inr r
     \<and> render_correction_system INJ_1 BadSum = Inr (correction_system r BadSum)
     \<and> no_angle (asc (correction_system r BadSum))"
  using prepare_INJ_1_hi correction_texts_agree [OF INJ_1_wf] by blast

text \<open>Every outcome of preflight is justified. Each refusal names a defect the request
  really has; the refusal about size reports figures over the bound, sends no byte and reads every
  question of the set as Unsettled, in registry order; the second size guard never fires; and an
  accepted request is the complete projection.\<close>

lemma prepare_outcomes:
  "case prepare s p spl of
     Inl ProjectionMismatch \<Rightarrow> s_projection s \<noteq> projection_id_of p
   | Inl Unrenderable \<Rightarrow> render_system s = Inl NoRegisteredText
   | Inl CharNotAllowed \<Rightarrow>
       list_ex (list_ex (\<lambda>c. \<not> in_profile c (allows_line_breaks p))) (projection_strings p)
   | Inl UnsafeDelimiter \<Rightarrow>
       list_ex (occurs_in spl) (projection_strings p) \<or> occurs_in spl (frame (projection_encode p))
       \<or> (\<exists>system. render_system s = Inr system \<and> (occurs_in spl (asc system)
            \<or> (\<exists>c. occurs_in spl (asc (attempt2 system c)))))
   | Inl (CoverageInsufficient cov rs) \<Rightarrow>
       rs = map (\<lambda>q. (q_id q, Unsettled)) (s_questions s) \<and> \<not> complete cov
       \<and> sent_bytes cov = 0 \<and> omitted_bytes cov = source_text_bytes p
       \<and> user_bytes cov = ulen (frame (projection_encode p)) \<and> MAX_CONTENT_BYTES < needed_bytes cov
   | Inl RequestTooLarge \<Rightarrow> False
   | Inr r \<Rightarrow> p_set r = s \<and> p_user r = frame (projection_encode p) \<and> p_schema r = render_schema s
       \<and> complete (p_coverage r)"
proof (cases "prepare s p spl")
  case (Inr r)
  with prepare_Inr [OF Inr] show ?thesis by simp
next
  case (Inl e)
  have "x = Inl NoRegisteredText" if "\<nexists>t. x = Inr t" for x :: "render_error + string"
    using that by (metis (full_types) render_error.exhaust sum.exhaust_sel)
  moreover have "e \<noteq> RequestTooLarge" using Inl prepare_never_too_large by metis
  ultimately show ?thesis
    by (subst Inl, insert Inl, cases e)
      (auto simp: prepare_def Let_def keys_def list_ex_iff list_all_iff split: sum.splits if_splits)
qed

end
