(* ===== verification/Td_Decode_Props.thy ===== *)
theory Td_Decode_Props
  imports Td_Decode Td_Budget
begin

text \<open>
  What the strict reader and the normalization guarantee: exact numbers, vectors that sum to
  one million by the largest-remainder rule, exactly the registered keys, and the round trip
  of a canonical reply.
\<close>

section \<open>Normalization\<close>

lemma bump_Cons: "bump (i # idxs) out = bump idxs (out[i := out ! i + 1])"
  by (simp add: bump_def)

lemma bump_length [simp]: "length (bump idxs out) = length out"
  by (induction idxs arbitrary: out) (simp_all add: bump_def)

lemma bump_nth:
  "distinct idxs \<Longrightarrow> i < length out \<Longrightarrow> bump idxs out ! i = out ! i + (if i \<in> set idxs then 1 else 0)"
proof (induction idxs arbitrary: out)
  case Nil then show ?case by (simp add: bump_def)
next
  case (Cons j idxs)
  then show ?case by (cases "i = j") (auto simp: bump_Cons)
qed

lemma sum_list_update_Suc: "i < length xs \<Longrightarrow> sum_list (xs[i := Suc (xs ! i)]) = Suc (sum_list xs)"
  by (induction xs arbitrary: i) (auto split: nat.splits)

lemma bump_sum:
  "set idxs \<subseteq> {..<length out} \<Longrightarrow> sum_list (bump idxs out) = sum_list out + length idxs"
proof (induction idxs arbitrary: out)
  case Nil then show ?case by (simp add: bump_def)
next
  case (Cons j idxs)
  then show ?case by (simp add: bump_Cons sum_list_update_Suc)
qed

lemma div_mod_sum: "sum_list xs = S * sum_list (map (\<lambda>x. x div S) xs) + sum_list (map (\<lambda>x. x mod S) xs)"
  for S :: nat
  by (induction xs) (simp_all add: algebra_simps)

lemma sum_list_less: "xs \<noteq> [] \<Longrightarrow> (\<forall>x \<in> set xs. x < S) \<Longrightarrow> sum_list xs < length xs * S" for S :: nat
proof (induction xs)
  case (Cons x xs)
  then show ?case by (cases xs) auto
qed simp

lemma insort_key_agree: "(\<forall>y \<in> set (x # ys). f y = g y) \<Longrightarrow> insort_key f x ys = insort_key g x ys"
  by (induction ys) auto

lemma sort_key_agree: "(\<forall>x \<in> set xs. f x = g x) \<Longrightarrow> sort_key f xs = sort_key g xs"
proof (induction xs)
  case (Cons x xs)
  then show ?case using insort_key_agree [of x "sort_key g xs" f g] by simp
qed simp

text \<open>The shares of the largest-remainder rule, as the code computes them.\<close>

definition short_of :: "nat list \<Rightarrow> nat" where
  "short_of vals = ONE - sum_list (map (\<lambda>p. p * ONE div sum_list vals) vals)"

definition order_of :: "nat list \<Rightarrow> nat list" where
  "order_of vals =
     sort_key (\<lambda>i. (- int (vals ! i * ONE mod sum_list vals), i)) [0..<length vals]"

lemma renormalize_eq:
  "renormalize vals =
   bump (take (short_of vals) (order_of vals)) (map (\<lambda>p. p * ONE div sum_list vals) vals)"
proof -
  have "sort_key (\<lambda>i. (- int (map (\<lambda>p. p * ONE) vals ! i mod S), i)) [0..<length vals]
      = sort_key (\<lambda>i. (- int (vals ! i * ONE mod S), i)) [0..<length vals]" for S
    by (rule sort_key_agree) auto
  then show ?thesis
    by (simp add: renormalize_def Let_def short_of_def order_of_def comp_def)
qed

lemma shares_exact:
  assumes "0 < sum_list vals"
  shows "sum_list (map (\<lambda>p. p * ONE div sum_list vals) vals) + short_of vals = ONE"
    and "short_of vals < length vals"
proof -
  let ?S = "sum_list vals" and ?xs = "map (\<lambda>p. p * ONE) vals"
  let ?out = "map (\<lambda>x. x div ?S) ?xs" and ?rem = "map (\<lambda>x. x mod ?S) ?xs"
  have total: "?S * ONE = ?S * sum_list ?out + sum_list ?rem"
    using div_mod_sum [of ?xs ?S] sum_list_mult_const [of "\<lambda>x. x" ONE vals] by simp
  then have "?S * sum_list ?out \<le> ?S * ONE" by linarith
  with assms have le: "sum_list ?out \<le> ONE" by simp
  have short: "short_of vals = ONE - sum_list ?out" by (simp add: short_of_def comp_def)
  with le show "sum_list (map (\<lambda>p. p * ONE div ?S) vals) + short_of vals = ONE"
    by (simp add: comp_def)
  from assms have "?rem \<noteq> []" by (cases vals) auto
  then have "sum_list ?rem < length ?rem * ?S"
    by (rule sum_list_less) (use assms in auto)
  moreover have "sum_list ?rem = ?S * short_of vals"
    using total le short by (simp add: diff_mult_distrib2)
  ultimately show "short_of vals < length vals"
    by (simp add: mult.commute)
qed

lemma order_of_perm: "distinct (order_of vals)" "set (order_of vals) = {..<length vals}"
  "length (order_of vals) = length vals"
  by (auto simp: order_of_def)

lemma renormalize_sum:
  assumes "0 < sum_list vals"
  shows "sum_list (renormalize vals) = ONE"
proof -
  have "set (take (short_of vals) (order_of vals)) \<subseteq> {..<length vals}"
    using order_of_perm(2) by (metis set_take_subset)
  then show ?thesis
    using shares_exact [OF assms] order_of_perm(3) [of vals]
    by (simp add: renormalize_eq bump_sum)
qed

lemma renormalize_length [simp]: "length (renormalize vals) = length vals"
  by (simp add: renormalize_eq)

lemma order_of_remainders:
  assumes "i \<in> set (take k (order_of vals))" "j < length vals" "j \<notin> set (take k (order_of vals))"
  shows "vals ! j * ONE mod sum_list vals \<le> vals ! i * ONE mod sum_list vals"
proof -
  let ?f = "\<lambda>i. (- int (vals ! i * ONE mod sum_list vals), i)"
  let ?o = "order_of vals"
  have "sorted (map ?f ?o)" by (simp add: order_of_def)
  then have "sorted (map ?f (take k ?o) @ map ?f (drop k ?o))"
    by (metis append_take_drop_id map_append)
  moreover have "j \<in> set (drop k ?o)"
    using assms(2,3) order_of_perm(2) [of vals]
    by (metis Un_iff append_take_drop_id lessThan_iff set_append)
  ultimately have "?f i \<le> ?f j" using assms(1) by (auto simp: sorted_append)
  then show ?thesis by (auto simp: less_eq_prod_def)
qed

lemma renormalize_nth:
  assumes "i < length vals"
  shows "renormalize vals ! i = vals ! i * ONE div sum_list vals
      + (if i \<in> set (take (short_of vals) (order_of vals)) then 1 else 0)"
  using assms order_of_perm(1) [of vals] by (simp add: renormalize_eq bump_nth distinct_take)


section \<open>Fixed-point numbers\<close>

text \<open>The decimal value of a digit string, and the two parts of a number as the code splits it.\<close>

definition digits_val :: "string \<Rightarrow> nat" where
  "digits_val ds = foldl (\<lambda>a d. 10 * a + digit_val d) 0 ds"

definition number_parts :: "string \<Rightarrow> string \<times> string" where
  "number_parts w = (case split_once (CHR ''.'') w of Some p \<Rightarrow> p | None \<Rightarrow> (w, ''0''))"

definition plain_decimal :: "string \<Rightarrow> bool" where
  "plain_decimal w \<longleftrightarrow> (case number_parts w of (i, f) \<Rightarrow>
     digits i \<and> (i = ''0'' \<or> hd i \<noteq> CHR ''0'') \<and> digits f \<and> length f \<le> 6)"

lemma digits_foldl: "foldl (\<lambda>a d. 10 * a + digit_val d) n ds = n * 10 ^ length ds + digits_val ds"
proof (induction ds arbitrary: n)
  case (Cons d ds)
  show ?case
    using Cons [of "10 * n + digit_val d"] Cons [of "digit_val d"]
    by (simp add: digits_val_def algebra_simps)
qed (simp add: digits_val_def)

lemma digits_val_append: "digits_val (xs @ ys) = digits_val xs * 10 ^ length ys + digits_val ys"
proof -
  have "digits_val (xs @ ys) = foldl (\<lambda>a d. 10 * a + digit_val d) (digits_val xs) ys"
    by (simp add: digits_val_def)
  then show ?thesis by (simp only: digits_foldl)
qed

lemma digits_val_Cons: "digits_val (d # ds) = digit_val d * 10 ^ length ds + digits_val ds"
  using digits_val_append [of "[d]" ds] by (simp add: digits_val_def)

lemma digits_val_Nil [simp]: "digits_val [] = 0"
  by (simp add: digits_val_def)

lemma digit_val_less: "is_ascii_digit c \<Longrightarrow> digit_val c < 10"
  unfolding is_ascii_digit_def digit_val_def by linarith

lemma digit_val_zero: "is_ascii_digit c \<Longrightarrow> digit_val c = 0 \<longleftrightarrow> c = CHR ''0''"
  using of_char_eq_iff [where ?'a = nat, of c "CHR ''0''"] by (auto simp: is_ascii_digit_def digit_val_def)

lemma digit_val_one: "is_ascii_digit c \<Longrightarrow> digit_val c = 1 \<longleftrightarrow> c = CHR ''1''"
  using of_char_eq_iff [where ?'a = nat, of c "CHR ''1''"] by (auto simp: is_ascii_digit_def digit_val_def)

lemma digits_val_less: "list_all is_ascii_digit ds \<Longrightarrow> digits_val ds < 10 ^ length ds"
proof (induction ds)
  case (Cons d ds)
  then have "digits_val ds < 10 ^ length ds" "digit_val d \<le> 9"
    using digit_val_less [of d] by simp_all
  moreover from this(2) have "digit_val d * 10 ^ length ds \<le> 9 * 10 ^ length ds" by simp
  ultimately have "digit_val d * 10 ^ length ds + digits_val ds < 10 * 10 ^ length ds" by linarith
  then show ?case by (simp add: digits_val_Cons)
qed simp

lemma digits_val_zero: "list_all is_ascii_digit ds \<Longrightarrow> digits_val ds = 0 \<longleftrightarrow> list_all (\<lambda>c. c = CHR ''0'') ds"
  by (induction ds) (auto simp: digits_val_Cons digit_val_zero)

lemma scaled_digits:
  "length f \<le> 6 \<Longrightarrow>
   sum_list (map (\<lambda>(b, scale). digit_val b * scale) (zip f [100000, 10000, 1000, 100, 10, 1]))
     * 10 ^ length f = digits_val f * ONE"
proof -
  assume "length f \<le> 6"
  then consider "f = []" | a where "f = [a]" | a b where "f = [a, b]" | a b c where "f = [a, b, c]"
    | a b c d where "f = [a, b, c, d]" | a b c d e where "f = [a, b, c, d, e]"
    | a b c d e g where "f = [a, b, c, d, e, g]"
    by (auto simp: le_Suc_eq numeral_eq_Suc length_Suc_conv)
  then show ?thesis
    by cases (simp_all add: digits_val_Cons ONE_def algebra_simps)
qed

lemma integer_part_two:
  assumes "digits i" "i = ''0'' \<or> hd i \<noteq> CHR ''0''" "i \<noteq> ''0''" "i \<noteq> ''1''"
  shows "2 \<le> digits_val i"
proof -
  from assms(1) obtain c cs where i: "i = c # cs" and c: "is_ascii_digit c"
    by (cases i) (auto simp: digits_def)
  from assms i c have "1 \<le> digit_val c" using digit_val_zero [of c] by (cases "digit_val c") auto
  show ?thesis
  proof (cases cs)
    case Nil
    with assms(4) i c have "digit_val c \<noteq> 1" using digit_val_one [of c] by blast
    with \<open>1 \<le> digit_val c\<close> Nil i show ?thesis by (simp add: digits_val_Cons)
  next
    case (Cons d ds)
    have "(1 :: nat) * 10 \<le> digit_val c * 10 ^ length cs"
      using \<open>1 \<le> digit_val c\<close> Cons by (intro mult_le_mono) simp_all
    then show ?thesis by (simp add: i digits_val_Cons)
  qed
qed


lemma fixed_point_exact:
  "case fixed_point w of
     Inr p \<Rightarrow> plain_decimal w \<and> p \<le> ONE \<and>
       (case number_parts w of (i, f) \<Rightarrow> p * 10 ^ length f = digits_val (i @ f) * ONE)
   | Inl e \<Rightarrow> (if plain_decimal w
       then e = OutOfRange \<and> (case number_parts w of (i, f) \<Rightarrow> 10 ^ length f < digits_val (i @ f))
       else e = BadNumber)"
proof -
  obtain i f where parts: "number_parts w = (i, f)" by fastforce
  show ?thesis
  proof (cases "plain_decimal w")
    case False
    with parts have "fixed_point w = Inl BadNumber"
      by (auto simp: fixed_point_def number_parts_def plain_decimal_def digits_def)
    with False show ?thesis by simp
  next
    case True
    with parts have d: "digits i" "i = ''0'' \<or> hd i \<noteq> CHR ''0''" "digits f" "length f \<le> 6"
      by (simp_all add: plain_decimal_def)
    let ?p = "sum_list (map (\<lambda>(b, scale). digit_val b * scale) (zip f [100000, 10000, 1000, 100, 10, 1]))"
    have fp: "fixed_point w = (if i = ''0'' then Inr ?p
        else if i = ''1'' \<and> list_all (\<lambda>b. b = CHR ''0'') f then Inr PPM_MAX else Inl OutOfRange)"
      using d parts by (auto simp: fixed_point_def number_parts_def Let_def)
    have fl: "digits_val f < 10 ^ length f" and fz: "digits_val f = 0 \<longleftrightarrow> list_all (\<lambda>b. b = CHR ''0'') f"
      using d(3) by (simp_all add: digits_def digits_val_less digits_val_zero)
    have zero: "digits_val ''0'' = 0" and one: "digits_val ''1'' = 1"
      by (simp_all add: digits_val_def digit_val_def)
    consider (z) "i = ''0''" | (o) "i = ''1''" | (big) "i \<noteq> ''0''" "i \<noteq> ''1''" by blast
    then show ?thesis
    proof cases
      case z
      have ex: "?p * 10 ^ length f = digits_val f * ONE" using d(4) by (rule scaled_digits)
      also have "\<dots> \<le> 10 ^ length f * ONE" using fl by simp
      finally have "?p \<le> ONE" by (simp add: mult.commute)
      with ex z True parts fp zero show ?thesis by (simp add: digits_val_append)
    next
      case o
      with fp parts True one fz show ?thesis
        by (cases "digits_val f") (auto simp: digits_val_append PPM_MAX_def ONE_def)
    next
      case big
      then have "2 * 10 ^ length f \<le> digits_val i * 10 ^ length f"
        using integer_part_two [OF d(1,2)] by simp
      moreover have "(0 :: nat) < 10 ^ length f" by simp
      ultimately have "10 ^ length f < digits_val i * 10 ^ length f + digits_val f" by linarith
      with big fp parts True show ?thesis by (simp add: digits_val_append)
    qed
  qed
qed

text \<open>A printer for the numbers the prompt asks for.\<close>

definition digit_char :: "nat \<Rightarrow> char" where
  "digit_char n = char_of (48 + n)"

definition ppm_text :: "nat \<Rightarrow> string" where
  "ppm_text p = (if p = ONE then ''1''
     else ''0.'' @ map digit_char [p div 100000 mod 10, p div 10000 mod 10, p div 1000 mod 10,
            p div 100 mod 10, p div 10 mod 10, p mod 10])"

lemma digit_char_digit: "n < 10 \<Longrightarrow> is_ascii_digit (digit_char n)" "n < 10 \<Longrightarrow> digit_val (digit_char n) = n"
  by (simp_all add: digit_char_def is_ascii_digit_def digit_val_def)

lemma div_tens: "(p :: nat) div 10 div 10 = p div 100" "p div 100 div 10 = p div 1000"
  "p div 1000 div 10 = p div 10000" "p div 10000 div 10 = p div 100000" "p div 100000 div 10 = p div 1000000"
  by (simp_all only: div_mult2_eq [symmetric]) simp_all

lemma six_digits:
  assumes "p < 1000000"
  shows "p div 100000 mod 10 * 100000 + (p div 10000 mod 10 * 10000 + (p div 1000 mod 10 * 1000
      + (p div 100 mod 10 * 100 + (p div 10 mod 10 * 10 + p mod 10)))) = (p :: nat)"
proof -
  have z: "p div 1000000 = 0" using assms by simp
  have step: "n mod 10 + 10 * (n div 10) = n" for n :: nat
    by simp
  show ?thesis
    using step [of p] step [of "p div 10"] step [of "p div 100"] step [of "p div 1000"]
      step [of "p div 10000"] step [of "p div 100000"]
    unfolding div_tens z by linarith
qed

lemma fixed_point_print: "p \<le> ONE \<Longrightarrow> fixed_point (ppm_text p) = Inr p"
proof (cases "p = ONE")
  case True
  then show ?thesis
    by (simp add: ppm_text_def fixed_point_def split_once_def digits_def is_ascii_digit_def PPM_MAX_def ONE_def)
next
  case False
  assume "p \<le> ONE"
  with False have p: "p < 1000000" by (simp add: ONE_def)
  let ?ds = "map digit_char [p div 100000 mod 10, p div 10000 mod 10, p div 1000 mod 10,
            p div 100 mod 10, p div 10 mod 10, p mod 10]"
  have "split_once (CHR ''.'') (''0.'' @ ?ds) = Some (''0'', ?ds)"
    by (simp add: split_once_def)
  moreover have "digits ?ds" by (simp add: digits_def digit_char_digit)
  moreover have "digits ''0''" by (simp add: digits_def is_ascii_digit_def)
  moreover have "p div 100000 mod 10 * 100000 + (p div 10000 mod 10 * 10000 + (p div 1000 mod 10 * 1000
      + (p div 100 mod 10 * 100 + (p div 10 mod 10 * 10 + p mod 10)))) = p"
    using p by (rule six_digits)
  ultimately show ?thesis
    using False by (simp add: ppm_text_def fixed_point_def digit_char_digit)
qed


section \<open>The parser accepts what a canonical printer writes\<close>

definition clean :: "string \<Rightarrow> bool" where
  "clean s \<longleftrightarrow> list_all (\<lambda>c. c \<noteq> QUOTE \<and> c \<noteq> BSLASH \<and> 32 \<le> (of_char c :: nat)) s"

fun print_node :: "node \<Rightarrow> string" where
  "print_node (NObject ms) = ''{'' @ join '','' (map (\<lambda>(k, n). quote k @ '':'' @ print_node n) ms) @ ''}''"
| "print_node (NStr s) = quote s"
| "print_node (NWord w) = w"
| "print_node NArray = ''[]''"

fun node_ok :: "nat \<Rightarrow> node \<Rightarrow> bool" where
  "node_ok d (NObject ms) \<longleftrightarrow> d < MAX_DEPTH \<and> distinct (map fst ms)
     \<and> (\<forall>(k, n) \<in> set ms. clean k \<and> node_ok (d + 1) n)"
| "node_ok d (NStr s) \<longleftrightarrow> clean s"
| "node_ok d (NWord w) \<longleftrightarrow> w \<noteq> [] \<and> list_all is_word w"
| "node_ok d NArray \<longleftrightarrow> d < MAX_DEPTH"

lemma skip_ws_stop: "\<not> is_ws c \<Longrightarrow> skip_ws (c # cs) = c # cs"
  by (simp add: skip_ws_def)

lemma not_ws [simp]: "\<not> is_ws QUOTE" "\<not> is_ws (CHR '','')" "\<not> is_ws (CHR ''}'')" "\<not> is_ws (CHR ''{'')"
  "\<not> is_ws (CHR ''['')" "\<not> is_ws (CHR '']'')" "\<not> is_ws (CHR '':'')"
  by (simp_all add: is_ws_def QUOTE_def)

lemma is_word_marks: "is_word c \<Longrightarrow> \<not> is_ws c \<and> c \<noteq> QUOTE \<and> c \<noteq> CHR ''{'' \<and> c \<noteq> CHR ''[''"
  by (auto simp: is_word_def is_ws_def QUOTE_def ascii_defs)

lemma string_lit_clean: "clean s \<Longrightarrow> string_lit raw (s @ QUOTE # rest) = Inr (raw @ s, rest)"
proof (induction s arbitrary: raw)
  case Nil
  show ?case by (simp add: string_lit.simps)
next
  case (Cons c s)
  then show ?case by (subst string_lit.simps) (simp add: clean_def)
qed

lemma quote_eq: "quote k @ r = QUOTE # k @ QUOTE # r"
  by (simp add: quote_def QUOTE_def)

text \<open>One object's members, given that its values are read back.\<close>

lemma object_loop_print:
  assumes "ms \<noteq> []" "distinct (map fst (acc @ ms))"
    and "\<And>k n c r. (k, n) \<in> set ms \<Longrightarrow> \<not> is_word c \<Longrightarrow>
           clean k \<and> parse_value d (pn n @ c # r) = Inr (n, c # r)"
  shows "object_loop d acc (join '','' (map (\<lambda>(k, n). quote k @ '':'' @ pn n) ms) @ CHR ''}'' # rest)
     = Inr (acc @ ms, rest)"
  using assms
proof (induction ms arbitrary: acc)
  case (Cons m ms)
  obtain k n where m: "m = (k, n)" by fastforce
  have marks: "\<not> is_word (CHR '','')" "\<not> is_word (CHR ''}'')"
    by (simp_all add: is_word_def ascii_defs)
  have read: "clean k" "\<not> is_word c \<Longrightarrow> parse_value d (pn n @ c # r) = Inr (n, c # r)" for c r
    using Cons.prems(3) [of k n] marks by (auto simp: m)
  have fresh: "\<not> list_ex (\<lambda>(seen, _). seen = k) acc"
    using Cons.prems(2) by (force simp: m list_ex_iff)
  have step: "object_loop d acc (quote k @ '':'' @ pn n @ c # r) =
      (case close (CHR ''}'') (c # r) of Inl e \<Rightarrow> Inl e | Inr (True, r3) \<Rightarrow> Inr (acc @ [(k, n)], r3)
         | Inr (False, r3) \<Rightarrow> object_loop d (acc @ [(k, n)]) r3)" if "\<not> is_word c" for c r
    using that read fresh
    by (subst object_loop.simps) (simp add: quote_eq skip_ws_stop string_lit_clean)
  show ?case
  proof (cases ms)
    case Nil
    then show ?thesis
      using step [of "CHR ''}''" rest] marks by (simp add: m close_def skip_ws_stop)
  next
    case (Cons m' ms')
    have "object_loop d (acc @ [(k, n)]) (join '','' (map (\<lambda>(k, n). quote k @ '':'' @ pn n) ms) @ CHR ''}'' # rest)
        = Inr ((acc @ [(k, n)]) @ ms, rest)"
      using Cons.prems m Cons by (intro Cons.IH) auto
    then show ?thesis
      using step [of "CHR '',''"] marks Cons by (simp add: m close_def skip_ws_stop)
  qed
qed simp

lemma object_print:
  assumes "distinct (map fst ms)"
    and "\<And>k n c r. (k, n) \<in> set ms \<Longrightarrow> \<not> is_word c \<Longrightarrow>
           clean k \<and> parse_value d (pn n @ c # r) = Inr (n, c # r)"
  shows "object d (join '','' (map (\<lambda>(k, n). quote k @ '':'' @ pn n) ms) @ CHR ''}'' # rest) = Inr (ms, rest)"
proof (cases ms)
  case Nil
  then show ?thesis by (simp add: object.simps skip_ws_stop)
next
  case (Cons m ms')
  let ?t = "join '','' (map (\<lambda>(k, n). quote k @ '':'' @ pn n) ms) @ CHR ''}'' # rest"
  obtain t where t: "?t = QUOTE # t"
    by (cases m; cases ms') (simp_all add: Cons quote_def QUOTE_def)
  have "object_loop d [] ?t = Inr ([] @ ms, rest)"
    using assms Cons by (intro object_loop_print) auto
  then show ?thesis unfolding t
    by (simp add: object.simps skip_ws_stop) (simp add: QUOTE_def)
qed

lemma parse_value_print:
  "node_ok d n \<Longrightarrow> \<not> is_word c \<Longrightarrow> parse_value d (print_node n @ c # r) = Inr (n, c # r)"
proof (induction n arbitrary: d c r rule: print_node.induct)
  case (1 ms)
  have "object (d + 1) (join '','' (map (\<lambda>(k, n). quote k @ '':'' @ print_node n) ms) @ CHR ''}'' # c # r)
      = Inr (ms, c # r)"
    using 1 by (intro object_print) fastforce+
  then show ?case
    using 1(2) by (subst parse_value.simps) (simp add: skip_ws_stop)
next
  case (2 s)
  then show ?case
    by (subst parse_value.simps) (simp add: quote_eq skip_ws_stop string_lit_clean, simp add: QUOTE_def)
next
  case (3 w)
  then obtain x xs where w: "w = x # xs" "is_word x" "list_all is_word xs" by (cases w) auto
  then have "takeWhile is_word (w @ c # r) = w" "dropWhile is_word (w @ c # r) = c # r"
    using 3(2) by (simp_all add: list_all_iff takeWhile_append dropWhile_append)
  with w is_word_marks [of x] show ?case
    by (subst parse_value.simps) (simp add: skip_ws_stop)
next
  case 4
  then show ?case
    by (subst parse_value.simps) (simp add: skip_ws_stop array.simps)
qed

lemma parse_print:
  assumes "node_ok 0 (NObject ms)"
  shows "parse (print_node (NObject ms)) = Inr ms"
proof -
  have "object 1 (join '','' (map (\<lambda>(k, n). quote k @ '':'' @ print_node n) ms) @ CHR ''}'' # []) = Inr (ms, [])"
    using assms by (intro object_print) (auto intro: parse_value_print)
  then show ?thesis by (simp add: parse_def skip_ws_stop) (simp add: skip_ws_def)
qed


section \<open>What the parser accepts\<close>

text \<open>Nesting within the bound and, in every object, no key twice.\<close>

fun shape_ok :: "nat \<Rightarrow> node \<Rightarrow> bool" where
  "shape_ok d (NObject ms) \<longleftrightarrow> d < MAX_DEPTH \<and> distinct (map fst ms) \<and> (\<forall>(k, n) \<in> set ms. shape_ok (d + 1) n)"
| "shape_ok d (NWord w) \<longleftrightarrow> w \<noteq> [] \<and> list_all is_word w"
| "shape_ok d (NStr s) \<longleftrightarrow> True"
| "shape_ok d NArray \<longleftrightarrow> d < MAX_DEPTH"

definition members_ok :: "nat \<Rightarrow> (string \<times> node) list \<Rightarrow> bool" where
  "members_ok d ms \<longleftrightarrow> distinct (map fst ms) \<and> (\<forall>(k, n) \<in> set ms. shape_ok d n)"

lemma object_loop_Inr:
  assumes "object_loop d ms i = Inr (ms', r)"
  obtains cs key r0 r1 n r2 b r3 where "skip_ws i = QUOTE # cs" "string_lit [] cs = Inr (key, r0)"
    "\<not> list_ex (\<lambda>(seen, _). seen = key) ms" "skip_ws r0 = CHR '':'' # r1" "parse_value d r1 = Inr (n, r2)"
    "close (CHR ''}'') r2 = Inr (b, r3)"
    "b \<and> ms' = ms @ [(key, n)] \<and> r = r3 \<or> \<not> b \<and> object_loop d (ms @ [(key, n)]) r3 = Inr (ms', r)"
  using assms
  by (subst (asm) object_loop.simps) (auto split: list.splits if_splits sum.splits prod.splits bool.splits)

lemma parse_sound:
  "\<forall>n r. parse_value d0 i0 = Inr (n, r) \<longrightarrow> shape_ok d0 n"
  "\<forall>ms' r. members_ok d1 ms1 \<longrightarrow> object_loop d1 ms1 i1 = Inr (ms', r) \<longrightarrow> members_ok d1 ms'"
  "\<forall>r. array_loop d2 i2 = Inr r \<longrightarrow> True"
  "\<forall>ms' r. object d3 i3 = Inr (ms', r) \<longrightarrow> members_ok d3 ms'"
  "\<forall>r. array d4 i4 = Inr r \<longrightarrow> True"
proof (induction d0 i0 and d1 ms1 i1 and d2 i2 and d3 i3 and d4 i4
    rule: parse_value_object_loop_array_loop_object_array.induct)
  case (1 depth inp)
  have "shape_ok depth (NWord (takeWhile is_word (c # cs)))" if "is_word c" for c cs
    using that by (auto simp: list_all_iff dest: set_takeWhileD)
  then show ?case
    using 1 by (subst parse_value.simps)
      (auto simp: members_ok_def not_le split: list.splits if_splits sum.splits)
next
  case (2 depth ms inp)
  show ?case
  proof (intro allI impI)
    fix ms' r
    assume ok: "members_ok depth ms" and "object_loop depth ms inp = Inr (ms', r)"
    from this(2) obtain cs key r0 r1 n r2 b r3 where *: "skip_ws inp = QUOTE # cs" "string_lit [] cs = Inr (key, r0)"
      "\<not> list_ex (\<lambda>(seen, _). seen = key) ms" "skip_ws r0 = CHR '':'' # r1" "parse_value depth r1 = Inr (n, r2)"
      "close (CHR ''}'') r2 = Inr (b, r3)"
      and r: "b \<and> ms' = ms @ [(key, n)] \<and> r = r3 \<or> \<not> b \<and> object_loop depth (ms @ [(key, n)]) r3 = Inr (ms', r)"
      by (rule object_loop_Inr)
    have "shape_ok depth n" using 2(1) * by blast
    with ok *(3) have ok': "members_ok depth (ms @ [(key, n)])"
      by (auto simp: members_ok_def list_ex_iff)
    show "members_ok depth ms'"
      using r ok' 2(2) [of QUOTE cs "(key, r0)" key r0 "CHR '':''" r1 "(n, r2)" n r2 "(b, r3)" b r3] * by auto
  qed
next
  case (4 depth inp)
  then show ?case
    by (subst object.simps) (auto simp: members_ok_def split: list.splits if_splits)
qed simp_all

lemma parse_members_ok: "parse inp = Inr ms \<Longrightarrow> members_ok 1 ms"
  using parse_sound(4) [of 1] by (fastforce simp: parse_def split: list.splits if_splits sum.splits)


section \<open>Members\<close>

lemma is_ident_no_bslash: "is_ident k \<Longrightarrow> BSLASH \<notin> set k"
proof
  assume "is_ident k" "BSLASH \<in> set k"
  then obtain c cs where "k = c # cs" "is_ascii_lowercase c" "list_all ident_rest cs"
    by (cases k) (auto simp: is_ident_Cons)
  with \<open>BSLASH \<in> set k\<close> show False
    by (auto simp: list_all_iff BSLASH_def ident_rest_def ascii_defs)
qed

lemma position_key: "position (\<lambda>x. x = k) names = Some i \<Longrightarrow> i < length names \<and> names ! i = k"
  using position_SomeD by fastforce

lemma position_key_distinct:
  assumes "distinct names" "i < length names"
  shows "position (\<lambda>x. x = names ! i) names = Some i"
proof -
  have "(\<lambda>x. x = names ! i) = (=) (names ! i)" by auto
  then show ?thesis using assms by (simp only: position_eq_nth)
qed

text \<open>One turn of the loop, when it goes on.\<close>

lemma members_loop_Cons_Inr:
  assumes "members_loop names v slots ((key, n) # ns) = Inr slots'"
  obtains i x where "position (\<lambda>x. x = key) names = Some i" "i < length names" "names ! i = key"
    "slots ! i = None" "v i n = Inr x" "members_loop names v (slots[i := Some x]) ns = Inr slots'"
  using assms
  by (auto simp: Option.is_none_def split: if_splits option.splits sum.splits dest: position_key)

lemma members_loop_fills:
  assumes "members_loop names v slots nodes = Inr slots'" "length slots = length names" "distinct names"
  shows "length slots' = length names \<and> fst ` set nodes \<subseteq> set names \<and> distinct (map fst nodes)
    \<and> (\<forall>i < length names. (names ! i \<notin> fst ` set nodes \<and> slots' ! i = slots ! i)
         \<or> (slots ! i = None \<and> (\<exists>n x. (names ! i, n) \<in> set nodes \<and> v i n = Inr x \<and> slots' ! i = Some x)))"
  using assms
proof (induction nodes arbitrary: slots)
  case (Cons node nodes)
  obtain key n where node: "node = (key, n)" by fastforce
  from Cons.prems(1) [unfolded node] obtain i x where i: "i < length names" "names ! i = key"
    and none: "slots ! i = None" and v: "v i n = Inr x"
    and rest: "members_loop names v (slots[i := Some x]) nodes = Inr slots'"
    by (rule members_loop_Cons_Inr)
  note IH = Cons.IH [OF rest]
  have len: "length (slots[i := Some x]) = length names" using Cons.prems(2) by simp
  have IH': "length slots' = length names" "fst ` set nodes \<subseteq> set names" "distinct (map fst nodes)"
    "\<And>j. j < length names \<Longrightarrow> (names ! j \<notin> fst ` set nodes \<and> slots' ! j = slots[i := Some x] ! j)
       \<or> (slots[i := Some x] ! j = None \<and> (\<exists>n x. (names ! j, n) \<in> set nodes \<and> v j n = Inr x \<and> slots' ! j = Some x))"
    using IH len Cons.prems(3) by auto
  have at_i: "names ! i \<notin> fst ` set nodes \<and> slots' ! i = Some x"
    using IH'(4) [of i] i(1) Cons.prems(2) by auto
  have other: "(names ! j \<notin> fst ` set (node # nodes) \<and> slots' ! j = slots ! j)
      \<or> (slots ! j = None \<and> (\<exists>n x. (names ! j, n) \<in> set (node # nodes) \<and> v j n = Inr x \<and> slots' ! j = Some x))"
    if "j < length names" for j
  proof (cases "j = i")
    case True
    with at_i none v i node show ?thesis by auto
  next
    case False
    with that i Cons.prems(3) have "names ! j \<noteq> key" by (metis nth_eq_iff_index_eq)
    with IH'(4) [OF that] False node show ?thesis by auto
  qed
  from at_i i node IH' other show ?case by auto
qed simp

lemma members_Inr:
  assumes "members nodes names v = Inr xs" "distinct names"
  shows "length xs = length names" "set (map fst nodes) = set names" "distinct (map fst nodes)"
    and "\<And>i. i < length names \<Longrightarrow> \<exists>n. (names ! i, n) \<in> set nodes \<and> v i n = Inr (xs ! i)"
proof -
  from assms(1) have loop: "members_loop names v (map (\<lambda>_. None) names) nodes = Inr (map Some xs)"
    by (auto simp: members_def collect_options_Some split: sum.splits option.splits)
  note facts = members_loop_fills [OF loop _ assms(2), simplified]
  from facts show len: "length xs = length names" and "distinct (map fst nodes)" by simp_all
  show each: "\<exists>n. (names ! i, n) \<in> set nodes \<and> v i n = Inr (xs ! i)" if "i < length names" for i
    using facts that len by fastforce
  then have "set names \<subseteq> set (map fst nodes)"
    by (force simp: in_set_conv_nth [of _ names])
  with facts show "set (map fst nodes) = set names" by auto
qed

lemma members_loop_run:
  assumes "distinct names" "distinct (map fst nodes)" "fst ` set nodes \<subseteq> set names"
    and "\<forall>k \<in> set names. is_ident k" "length slots = length names"
    and "\<And>i n. i < length names \<Longrightarrow> (names ! i, n) \<in> set nodes \<Longrightarrow> v i n = Inr (g i) \<and> slots ! i = None"
  shows "members_loop names v slots nodes =
    Inr (map (\<lambda>i. if names ! i \<in> fst ` set nodes then Some (g i) else slots ! i) [0..<length names])"
  using assms(2,3,5,6)
proof (induction nodes arbitrary: slots)
  case Nil
  then show ?case by (auto intro: nth_equalityI)
next
  case (Cons node nodes)
  obtain key n where node: "node = (key, n)" by fastforce
  with Cons.prems(2) obtain i where i: "i < length names" "names ! i = key"
    by (auto simp: in_set_conv_nth)
  have here: "v i n = Inr (g i)" "slots ! i = None"
    using Cons.prems(4) [OF i(1), of n] i(2) node by auto
  have key: "is_ident key" "BSLASH \<notin> set key"
    using assms(4) i by (auto simp: is_ident_no_bslash)
  have pos: "position (\<lambda>x. x = key) names = Some i"
    using position_key_distinct [OF assms(1) i(1)] i(2) by simp
  have "members_loop names v (slots[i := Some (g i)]) nodes =
      Inr (map (\<lambda>j. if names ! j \<in> fst ` set nodes then Some (g j) else slots[i := Some (g i)] ! j) [0..<length names])"
  proof (rule Cons.IH)
    show "v j m = Inr (g j) \<and> slots[i := Some (g i)] ! j = None"
      if "j < length names" "(names ! j, m) \<in> set nodes" for j m
      using Cons.prems(1) Cons.prems(4) [OF that(1), of m] that i node
      by (cases "j = i") (force)+
  qed (use Cons.prems in auto)
  also have "map (\<lambda>j. if names ! j \<in> fst ` set nodes then Some (g j) else slots[i := Some (g i)] ! j) [0..<length names]
    = map (\<lambda>j. if names ! j \<in> fst ` set (node # nodes) then Some (g j) else slots ! j) [0..<length names]"
    using i node Cons.prems(3) assms(1) by (auto simp: nth_list_update nth_eq_iff_index_eq)
  finally show ?case
    using here key pos by (simp add: node)
qed

lemma members_run:
  assumes "distinct names" "distinct (map fst nodes)" "fst ` set nodes = set names"
    and "\<forall>k \<in> set names. is_ident k"
    and "\<And>i n. i < length names \<Longrightarrow> (names ! i, n) \<in> set nodes \<Longrightarrow> v i n = Inr (g i)"
  shows "members nodes names v = Inr (map g [0..<length names])"
proof -
  have "members_loop names v (map (\<lambda>_. None) names) nodes =
      Inr (map (\<lambda>i. if names ! i \<in> fst ` set nodes then Some (g i) else map (\<lambda>_. None) names ! i) [0..<length names])"
    using assms by (intro members_loop_run) auto
  also have "\<dots> = Inr (map Some (map g [0..<length names]))"
    using assms(3) by simp
  finally show ?thesis
    by (simp add: members_def collect_options_Some del: map_map split: option.split)
qed


section \<open>Answers\<close>

definition dist_ok :: "string list \<Rightarrow> distribution \<Rightarrow> bool" where
  "dist_ok ls d \<longleftrightarrow> map fst (entries d) = ls \<and> sum_list (map snd (entries d)) = ONE"

definition answer_fits :: "question \<Rightarrow> answer \<Rightarrow> bool" where
  "answer_fits q a =
     (case (q_kind q, a) of
        (Noul _, ANoul p) \<Rightarrow> p \<le> ONE
      | (Choice os, AChoice d) \<Rightarrow> dist_ok (map fst os) d
      | (Score ls _ _, AScore d) \<Rightarrow> dist_ok ls d
      | _ \<Rightarrow> False)"

lemma capped_shares:
  assumes "sum_list ps = ONE" "length ls = length ps"
  shows "map (\<lambda>(l, p). (l, min p ONE)) (zip ls ps) = zip ls ps"
proof -
  have "p \<le> ONE" if "(l, p) \<in> set (zip ls ps)" for l p
    using that assms(1) member_le_sum_list [of p ps] by (auto dest: set_zip_rightD)
  then show ?thesis by (auto intro!: map_idI simp: min_def)
qed

lemma normalize_Inr:
  assumes "normalize ls vals = Inr d" "length ls = length vals"
  shows "0 < sum_list vals" "d_renormalized d \<longleftrightarrow> sum_list vals \<noteq> ONE"
    and "entries d = zip ls (if sum_list vals = ONE then vals else renormalize vals)"
    and "dist_ok ls d"
proof -
  let ?ps = "if sum_list vals = ONE then vals else renormalize vals"
  from assms(1) show pos: "0 < sum_list vals" and "d_renormalized d \<longleftrightarrow> sum_list vals \<noteq> ONE"
    by (auto simp: normalize_def Let_def ONE_def split: if_splits)
  have "entries d = map (\<lambda>(l, p). (l, min p ONE)) (zip ls ?ps)"
    using assms(1) by (auto simp: normalize_def Let_def split: if_splits)
  moreover have "sum_list ?ps = ONE" "length ls = length ?ps"
    using pos assms(2) by (simp_all add: renormalize_sum)
  ultimately show "entries d = zip ls ?ps" and "dist_ok ls d"
    using capped_shares [of ?ps ls] by (simp_all add: dist_ok_def)
qed

lemma probability_bound: "probability n = Inr p \<Longrightarrow> p \<le> ONE"
  using fixed_point_exact by (auto simp: probability_def split: node.splits if_splits)
    (metis (no_types, lifting) old.sum.simps(6))

lemma label_values_length:
  assumes "label_values ls m n = Inr vals" "distinct ls"
  shows "length vals = length ls"
  using assms members_Inr(1)
  by (auto simp: label_values_def split: node.splits answer_mode.splits option.splits)

lemma answer_fits_answer:
  assumes "question_wf q" "answer_of q m n = Inr a"
  shows "answer_fits q a"
proof (cases "q_kind q")
  case (Noul pol)
  with assms(2) show ?thesis
    by (auto simp: answer_of_def answer_fits_def PPM_MAX_def ONE_def dest: probability_bound [unfolded ONE_def]
        split: answer_mode.splits sum.splits if_splits)
next
  case (Choice os)
  from assms(1) Choice have "distinct (map fst os)" by (simp add: question_wf_def)
  with assms(2) Choice show ?thesis
    by (auto simp: answer_of_def answer_fits_def is_choice_def split: sum.splits
        dest!: label_values_length normalize_Inr(4))
next
  case (Score ls k pol)
  from assms(1) Score have "distinct ls" by (simp add: question_wf_def)
  with assms(2) Score show ?thesis
    by (auto simp: answer_of_def answer_fits_def is_choice_def split: sum.splits
        dest!: label_values_length normalize_Inr(4))
qed


lemma read_reply_Inr:
  assumes "set_wf s" "read_reply s reply = Inr as"
  obtains ms where "parse reply = Inr ms" "distinct (map fst ms)" "set (map fst ms) = set (keys s)"
    "map fst as = keys s" "length as = length (s_questions s)"
    "\<And>i. i < length (s_questions s) \<Longrightarrow> answer_fits (s_questions s ! i) (snd (as ! i))"
proof -
  let ?qs = "s_questions s"
  let ?v = "\<lambda>i n. answer_of (?qs ! i) (s_mode s) n"
  from assms(2) obtain ms xs where ms: "parse reply = Inr ms"
    and xs: "members ms (map q_id ?qs) ?v = Inr xs" and "as": "as = zip (map q_id ?qs) xs"
    by (auto simp: read_reply_def Let_def split: sum.splits)
  have dist: "distinct (map q_id ?qs)" using assms(1) by (simp add: set_wf_def keys_def)
  note m = members_Inr [OF xs dist]
  have "answer_fits (?qs ! i) (snd (as ! i))" if "i < length ?qs" for i
  proof -
    have "question_wf (?qs ! i)" using assms(1) that by (simp add: set_wf_def)
    moreover obtain n where "?v i n = Inr (xs ! i)" using m(4) [of i] \<open>i < length ?qs\<close> by auto
    ultimately show ?thesis using that m(1) by (simp add: "as" answer_fits_answer)
  qed
  then show thesis
    using that ms m(1-3) by (simp add: "as" keys_def)
qed

lemma ppm_text_word: "p \<le> ONE \<Longrightarrow> ppm_text p \<noteq> [] \<and> list_all is_word (ppm_text p)"
proof -
  have "is_word (digit_char n)" if "n < 10" for n
    using digit_char_digit(1) [OF that] by (simp add: is_word_def is_ascii_alphanumeric_def)
  then show ?thesis by (simp add: ppm_text_def) (simp add: is_word_def ascii_defs)
qed

lemma ppm_text_not_keyword: "ppm_text p \<notin> {''true'', ''false'', ''null''}"
  by (simp add: ppm_text_def)

lemma is_ident_rest: "is_ident k \<Longrightarrow> list_all ident_rest k"
  by (cases k) (auto simp: is_ident_Cons ident_rest_def)

lemma ident_rest_clean: "ident_rest c \<Longrightarrow> c \<noteq> QUOTE \<and> c \<noteq> BSLASH \<and> 32 \<le> (of_char c :: nat)"
  by (auto simp: ident_rest_def ascii_defs QUOTE_def BSLASH_def)

lemma is_ident_clean: "is_ident k \<Longrightarrow> clean k"
  unfolding clean_def by (rule list.pred_mono_strong [OF is_ident_rest]) (auto dest: ident_rest_clean)

text \<open>A canonical reply: one probability for each key, in any order.\<close>

definition noul_reply :: "string list \<Rightarrow> (string \<Rightarrow> nat) \<Rightarrow> string" where
  "noul_reply ks f = print_node (NObject (map (\<lambda>k. (k, NWord (ppm_text (f k)))) ks))"

lemma read_noul_reply:
  assumes "set_wf s" "s_mode s = Probabilities" "list_all (\<lambda>q. \<exists>pol. q_kind q = Noul pol) (s_questions s)"
    and "distinct ks" "set ks = set (keys s)" "\<And>k. k \<in> set ks \<Longrightarrow> f k \<le> ONE"
  shows "read_reply s (noul_reply ks f) = Inr (map (\<lambda>q. (q_id q, ANoul (f (q_id q)))) (s_questions s))"
proof -
  let ?qs = "s_questions s" and ?ms = "map (\<lambda>k. (k, NWord (ppm_text (f k)))) ks"
  have idents: "is_ident k" if "k \<in> set ks" for k
    using that assms(1,5) by (auto simp: set_wf_def keys_def question_wf_def)
  have "node_ok 0 (NObject ?ms)"
    using assms(4,6) idents by (auto simp: comp_def MAX_DEPTH_def ppm_text_word is_ident_clean)
  then have parsed: "parse (noul_reply ks f) = Inr ?ms" by (simp only: noul_reply_def parse_print)
  have "members ?ms (map q_id ?qs) (\<lambda>i n. answer_of (?qs ! i) (s_mode s) n)
      = Inr (map (\<lambda>i. ANoul (f (q_id (?qs ! i)))) [0..<length (map q_id ?qs)])"
  proof (rule members_run)
    show "answer_of (?qs ! i) (s_mode s) n = Inr (ANoul (f (q_id (?qs ! i))))"
      if lt: "i < length (map q_id ?qs)" and mem: "(map q_id ?qs ! i, n) \<in> set ?ms" for i n
    proof -
      from lt mem have n: "n = NWord (ppm_text (f (q_id (?qs ! i))))" "q_id (?qs ! i) \<in> set ks" by auto
      moreover obtain pol where "q_kind (?qs ! i) = Noul pol"
        using assms(3) lt by (auto simp: list_all_length)
      ultimately show ?thesis
        using assms(2,6) ppm_text_not_keyword [of "f (q_id (?qs ! i))"]
        by (simp add: answer_of_def probability_def fixed_point_print)
    qed
  next
    have mk: "map fst ?ms = ks" by (simp add: comp_def)
    show "distinct (map fst ?ms)" unfolding mk by (rule assms)
    show "fst ` set ?ms = set (map q_id ?qs)"
      using assms(5) unfolding keys_def by (simp only: set_map [symmetric] mk)
    show "distinct (map q_id ?qs)" using assms(1) by (simp add: set_wf_def keys_def)
    show "\<forall>k \<in> set (map q_id ?qs). is_ident k"
      using assms(5) idents unfolding keys_def by blast
  qed
  also have "map (\<lambda>i. ANoul (f (q_id (?qs ! i)))) [0..<length (map q_id ?qs)] = map (\<lambda>q. ANoul (f (q_id q))) ?qs"
    by (rule nth_equalityI) simp_all
  finally show ?thesis
    by (simp add: read_reply_def parsed Let_def zip_map_map zip_same_conv_map)
qed


text \<open>Everything a decoded reply guarantees.\<close>

lemma decode_facts:
  assumes "set_wf s" "decode s reply b att = Inr d"
  shows "length reply \<le> MAX_REPLY_BYTES \<and> dn_set d = s \<and> dn_binding d = b \<and> dn_attempt d = att
    \<and> (\<exists>ms. parse reply = Inr ms \<and> distinct (map fst ms) \<and> set (map fst ms) = set (keys s))
    \<and> map fst (dn_answers d) = keys s \<and> map fst (dn_readings d) = keys s
    \<and> (\<forall>i < length (s_questions s).
          answer_fits (s_questions s ! i) (snd (dn_answers d ! i))
          \<and> snd (dn_readings d ! i) = read_answer (s_questions s ! i) (snd (dn_answers d ! i)))"
proof -
  from assms(2) obtain as' where as': "read_reply s reply = Inr as'" and len: "length reply \<le> MAX_REPLY_BYTES"
    and d: "dn_set d = s" "dn_binding d = b" "dn_attempt d = att" "dn_answers d = as'"
      "dn_readings d = map (\<lambda>(q, (i, a)). (i, read_answer q a)) (zip (s_questions s) as')"
    by (auto simp: decode_def split: if_splits sum.splits)
  obtain ms where ms: "parse reply = Inr ms" "distinct (map fst ms)" "set (map fst ms) = set (keys s)"
    "map fst as' = keys s" "length as' = length (s_questions s)"
    "\<And>i. i < length (s_questions s) \<Longrightarrow> answer_fits (s_questions s ! i) (snd (as' ! i))"
    using assms(1) as' by (rule read_reply_Inr) blast
  have "map fst (dn_readings d) = map fst as'"
    using ms(5) unfolding d by (auto simp: list_eq_iff_nth_eq split: prod.split)
  moreover have "snd (dn_readings d ! i) = read_answer (s_questions s ! i) (snd (as' ! i))"
    if "i < length (s_questions s)" for i
    using that ms(5) unfolding d by (simp split: prod.split)
  ultimately show ?thesis
    using ms len d by auto
qed

lemma decode_noul:
  assumes "set_wf s" "list_all (\<lambda>q. \<exists>pol. q_kind q = Noul pol) (s_questions s)" "decode s reply b att = Inr d"
  obtains ps where "length ps = length (s_questions s)" "\<forall>p \<in> set ps. p \<le> ONE"
    "dn_answers d = zip (keys s) (map ANoul ps)"
    "dn_readings d = zip (keys s) (map2 (\<lambda>q p. read_noul (q_read q) p) (s_questions s) ps)"
proof -
  let ?qs = "s_questions s"
  note facts = decode_facts [OF assms(1,3)]
  let ?ps = "map (\<lambda>(_, a). case a of ANoul p \<Rightarrow> p | _ \<Rightarrow> 0) (dn_answers d)"
  have keys: "map fst (dn_answers d) = keys s" "map fst (dn_readings d) = keys s" using facts by simp_all
  then have len: "length (dn_answers d) = length ?qs" "length (dn_readings d) = length ?qs"
    by (metis keys_def length_map)+
  have each: "\<exists>p. snd (dn_answers d ! i) = ANoul p \<and> p \<le> ONE \<and> snd (dn_readings d ! i) = read_noul (q_read (?qs ! i)) p"
    if lt: "i < length ?qs" for i
  proof -
    obtain pol where "q_kind (?qs ! i) = Noul pol" using assms(2) lt by (auto simp: list_all_length)
    moreover have "answer_fits (?qs ! i) (snd (dn_answers d ! i))"
      "snd (dn_readings d ! i) = read_answer (?qs ! i) (snd (dn_answers d ! i))"
      using facts lt by simp_all
    ultimately show ?thesis
      by (cases "snd (dn_answers d ! i)") (simp_all add: answer_fits_def read_answer_def Let_def)
  qed
  have fsts: "fst (dn_answers d ! i) = keys s ! i" "fst (dn_readings d ! i) = keys s ! i" if "i < length ?qs" for i
    using that keys len by (metis nth_map)+
  have len': "length ?ps = length ?qs" "length (keys s) = length ?qs" using len by (simp_all add: keys_def)
  show thesis
  proof (rule that [of ?ps])
    show "dn_answers d = zip (keys s) (map ANoul ?ps)"
    proof (rule nth_equalityI)
      fix i assume "i < length (dn_answers d)"
      with len each [of i] fsts [of i] len' show "dn_answers d ! i = zip (keys s) (map ANoul ?ps) ! i"
        by (auto simp: prod_eq_iff split: prod.splits)
    qed (use len len' in simp)
    show "dn_readings d = zip (keys s) (map2 (\<lambda>q p. read_noul (q_read q) p) ?qs ?ps)"
    proof (rule nth_equalityI)
      fix i assume "i < length (dn_readings d)"
      with len each [of i] fsts [of i] len'
      show "dn_readings d ! i = zip (keys s) (map2 (\<lambda>q p. read_noul (q_read q) p) ?qs ?ps) ! i"
        by (auto simp: prod_eq_iff split: prod.splits)
    qed (use len len' in simp)
    show "\<forall>p \<in> set ?ps. p \<le> ONE"
      using each len by (fastforce simp: in_set_conv_nth split: prod.splits)
  qed (use len' in simp)
qed


section \<open>Properties\<close>

text \<open>C17: normalization is exact. An accepted vector has exactly the registered labels in
  registry order and sums to exactly one million; an exact sum is kept as it is; otherwise each
  share is its exact quota rounded down or up, and no value was rounded up while one with a larger
  remainder was not (the largest-remainder rule).\<close>

theorem normalize_exact:
  assumes "normalize ls vals = Inr d" "length ls = length vals"
  shows "map fst (entries d) = ls \<and> sum_list (map snd (entries d)) = ONE
    \<and> (sum_list vals = ONE \<longrightarrow> map snd (entries d) = vals)
    \<and> (\<forall>i < length vals. vals ! i * ONE < snd (entries d ! i) * sum_list vals + sum_list vals
          \<and> snd (entries d ! i) * sum_list vals \<le> vals ! i * ONE + sum_list vals)
    \<and> (\<forall>i < length vals. \<forall>j < length vals.
          vals ! i * ONE < snd (entries d ! i) * sum_list vals \<longrightarrow>
          snd (entries d ! j) * sum_list vals \<le> vals ! j * ONE \<longrightarrow>
          vals ! j * ONE mod sum_list vals \<le> vals ! i * ONE mod sum_list vals)"
proof -
  let ?S = "sum_list vals"
  note n = normalize_Inr [OF assms]
  have share: "snd (entries d ! i) = vals ! i * ONE div ?S
      + (if ?S \<noteq> ONE \<and> i \<in> set (take (short_of vals) (order_of vals)) then 1 else 0)"
    if "i < length vals" for i
    using that n(3) assms(2) by (simp add: renormalize_nth ONE_def)
  have up: "vals ! i * ONE < vals ! i * ONE div ?S * ?S + ?S" and down: "vals ! i * ONE div ?S * ?S \<le> vals ! i * ONE" for i
    using n(1) dividend_less_div_times [of ?S "vals ! i * ONE"] by simp_all
  have bounds: "vals ! i * ONE < snd (entries d ! i) * ?S + ?S \<and> snd (entries d ! i) * ?S \<le> vals ! i * ONE + ?S"
    if "i < length vals" for i
    unfolding share [OF that] add_mult_distrib using up [of i] by (simp add: trans_le_add1 split: if_split)
  have lr: "vals ! j * ONE mod ?S \<le> vals ! i * ONE mod ?S"
    if "i < length vals" "j < length vals" "vals ! i * ONE < snd (entries d ! i) * ?S"
      "snd (entries d ! j) * ?S \<le> vals ! j * ONE" for i j
  proof -
    have "i \<in> set (take (short_of vals) (order_of vals)) \<and> ?S \<noteq> ONE"
    proof (rule ccontr)
      assume "\<not> ?thesis"
      then have "snd (entries d ! i) = vals ! i * ONE div ?S" using share [OF that(1)] by auto
      with that(3) down [of i] show False by (metis leD)
    qed
    then have "i \<in> set (take (short_of vals) (order_of vals))" "?S \<noteq> ONE" by simp_all
    moreover have "j \<notin> set (take (short_of vals) (order_of vals))"
    proof
      assume "j \<in> set (take (short_of vals) (order_of vals))"
      then have "snd (entries d ! j) * ?S = vals ! j * ONE div ?S * ?S + ?S"
        using share [OF that(2)] \<open>?S \<noteq> ONE\<close> by (simp add: add_mult_distrib)
      with that(4) up [of j] show False by linarith
    qed
    ultimately show ?thesis using order_of_remainders that(2) by blast
  qed
  show ?thesis
    using n(3,4) assms(2) bounds lr by (simp add: dist_ok_def)
qed

theorem normalize_exact_witness:
  "normalize [''a'', ''b'', ''c''] [333333, 333333, 333333] =
     Inr \<lparr>entries = [(''a'', 333334), (''b'', 333333), (''c'', 333333)], d_renormalized = True\<rparr>
   \<and> sum_list (map snd [(''a'', 333334), (''b'', 333333), (''c'', 333333 :: nat)]) = ONE"
proof -
  have eq: "normalize [''a'', ''b'', ''c''] [333333, 333333, 333333] =
     Inr \<lparr>entries = [(''a'', 333334), (''b'', 333333), (''c'', 333333)], d_renormalized = True\<rparr>"
    by (simp add: normalize_def renormalize_def bump_def ONE_def Let_def)
  show ?thesis using eq normalize_exact [OF eq] by simp
qed

text \<open>Numbers are read exactly. A word is accepted only if it is a plain decimal with at
  most six fraction digits and a value of at most one, and the parts per million are its exact
  value; a plain decimal above one is out of range, and every other word is no number. Every
  value can be written: a printed value is read back.\<close>

lemma fixed_point_spec:
  "(case fixed_point w of
     Inr p \<Rightarrow> plain_decimal w \<and> p \<le> ONE \<and>
       (case number_parts w of (i, f) \<Rightarrow> p * 10 ^ length f = digits_val (i @ f) * ONE)
   | Inl e \<Rightarrow> (if plain_decimal w
       then e = OutOfRange \<and> (case number_parts w of (i, f) \<Rightarrow> 10 ^ length f < digits_val (i @ f))
       else e = BadNumber))
   \<and> fixed_point (ppm_text (min p ONE)) = Inr (min p ONE)"
  by (simp only: fixed_point_exact fixed_point_print min.cobounded2 simp_thms)

text \<open>C6: a decoded reply answers exactly the registered questions. It was one object of at
  most 8,192 bytes whose keys are the registered keys, each once; the answers and the readings are
  in registry order, every answer has its question's kind, every vector is a distribution over the
  registered labels, and every reading comes from the exact answer.\<close>

theorem decode_strict:
  assumes "set_wf s" "decode s reply b att = Inr d"
  shows "length reply \<le> MAX_REPLY_BYTES \<and> dn_set d = s \<and> dn_binding d = b \<and> dn_attempt d = att
    \<and> (\<exists>ms. parse reply = Inr ms \<and> distinct (map fst ms) \<and> set (map fst ms) = set (keys s))
    \<and> map fst (dn_answers d) = keys s \<and> map fst (dn_readings d) = keys s
    \<and> (\<forall>i < length (s_questions s).
          answer_fits (s_questions s ! i) (snd (dn_answers d ! i))
          \<and> snd (dn_readings d ! i) = read_answer (s_questions s ! i) (snd (dn_answers d ! i)))"
  using assms by (rule decode_facts)

lemma decode_INJ_1:
  "\<exists>d. decode INJ_1 (noul_reply [''instructs_ai''] (\<lambda>_. 250000)) ''b'' First = Inr d"
proof -
  have "read_reply INJ_1 (noul_reply [''instructs_ai''] (\<lambda>_. 250000))
      = Inr (map (\<lambda>q. (q_id q, ANoul 250000)) (s_questions INJ_1))"
    by (rule read_noul_reply [OF INJ_1_wf])
      (simp_all add: INJ_1_def INJ_1_QUESTIONS_def noul_def keys_def ONE_def)
  moreover have "length (noul_reply [''instructs_ai''] (\<lambda>_. 250000)) \<le> MAX_REPLY_BYTES"
    by (simp add: noul_reply_def quote_def ppm_text_def MAX_REPLY_BYTES_def)
  ultimately show ?thesis by (simp add: decode_def)
qed

theorem decode_strict_witness:
  "\<exists>d. decode INJ_1 (noul_reply [''instructs_ai''] (\<lambda>_. 250000)) ''b'' First = Inr d
     \<and> map fst (dn_answers d) = [''instructs_ai''] \<and> map fst (dn_readings d) = [''instructs_ai'']"
proof -
  have "keys INJ_1 = [''instructs_ai'']" by (simp add: keys_def INJ_1_def INJ_1_QUESTIONS_def noul_def)
  then show ?thesis using decode_INJ_1 decode_strict [OF INJ_1_wf] by metis
qed

text \<open>C16: the reader accepts every well-formed reply. For a set of yes/no questions, a reply
  that gives each key one printed probability, in any order, is decoded to exactly those
  probabilities, in registry order.\<close>

theorem decode_roundtrip:
  assumes "set_wf s" "s_mode s = Probabilities" "list_all (\<lambda>q. \<exists>pol. q_kind q = Noul pol) (s_questions s)"
    and "distinct ks" "set ks = set (keys s)" "\<And>k. k \<in> set ks \<Longrightarrow> f k \<le> ONE"
    and "length (noul_reply ks f) \<le> MAX_REPLY_BYTES"
  shows "\<exists>d. decode s (noul_reply ks f) b att = Inr d
    \<and> dn_answers d = map (\<lambda>q. (q_id q, ANoul (f (q_id q)))) (s_questions s)
    \<and> dn_readings d = map (\<lambda>q. (q_id q, read_noul (q_read q) (f (q_id q)))) (s_questions s)"
proof -
  have "read_answer q (ANoul p) = read_noul (q_read q) p" if "q \<in> set (s_questions s)" for q p
    using that assms(3) by (auto simp: list_all_iff read_answer_def Let_def)
  then have "map (\<lambda>(q, (i, a)). (i, read_answer q a))
      (zip (s_questions s) (map (\<lambda>q. (q_id q, ANoul (f (q_id q)))) (s_questions s)))
    = map (\<lambda>q. (q_id q, read_noul (q_read q) (f (q_id q)))) (s_questions s)"
    by (simp add: list_eq_iff_nth_eq)
  moreover have "read_reply s (noul_reply ks f) = Inr (map (\<lambda>q. (q_id q, ANoul (f (q_id q)))) (s_questions s))"
    using assms(1-6) by (rule read_noul_reply)
  ultimately show ?thesis
    using assms(7) by (simp add: decode_def)
qed

theorem decode_roundtrip_witness:
  "\<exists>d. decode INJ_1 (noul_reply [''instructs_ai''] (\<lambda>_. 250000)) ''b'' First = Inr d
     \<and> dn_readings d = [(''instructs_ai'', No)]"
proof -
  have len: "length (noul_reply [''instructs_ai''] (\<lambda>_. 250000)) \<le> MAX_REPLY_BYTES"
    by (simp add: noul_reply_def quote_def ppm_text_def MAX_REPLY_BYTES_def)
  have "\<exists>d. decode INJ_1 (noul_reply [''instructs_ai''] (\<lambda>_. 250000)) ''b'' First = Inr d
    \<and> dn_answers d = map (\<lambda>q. (q_id q, ANoul 250000)) (s_questions INJ_1)
    \<and> dn_readings d = map (\<lambda>q. (q_id q, read_noul (q_read q) 250000)) (s_questions INJ_1)"
    using INJ_1_wf len
    by (intro decode_roundtrip) (simp_all add: INJ_1_def INJ_1_QUESTIONS_def noul_def keys_def ONE_def)
  then show ?thesis
    by (auto simp: INJ_1_def INJ_1_QUESTIONS_def noul_def V1_READ_def read_noul_def)
qed


lemma max_ppm_ge: "(l, p) \<in> set (entries d) \<Longrightarrow> p \<le> max_ppm d"
  unfolding max_ppm_def by (rule fold_max_ge) force

lemma dist_top_label:
  assumes "dist_top d = TLabel l"
  shows "(l, max_ppm d) \<in> set (entries d)" "\<And>l' p. (l', p) \<in> set (entries d) \<Longrightarrow> p = max_ppm d \<Longrightarrow> l' = l"
proof -
  from assms obtain p where f: "filter (\<lambda>(_, p). p = max_ppm d) (entries d) = [(l, p)]"
    by (auto simp: dist_top_def Let_def split: list.splits prod.splits)
  then have "set (filter (\<lambda>(_, p). p = max_ppm d) (entries d)) = {(l, p)}" by simp
  then have mem: "(l', p') \<in> set (entries d) \<and> p' = max_ppm d \<longleftrightarrow> l' = l \<and> p' = p" for l' p'
    by (auto simp: set_eq_iff)
  from mem show "(l, max_ppm d) \<in> set (entries d)" by metis
  from mem show "\<And>l' p. (l', p) \<in> set (entries d) \<Longrightarrow> p = max_ppm d \<Longrightarrow> l' = l" by metis
qed

text \<open>A verdict clears only on a settled answer. A yes/no question or a score clears only
  when its probability is strictly beyond the threshold on the side its polarity calls good; a
  choice clears only when the option registered as clear is the unique maximum, strictly above a
  threshold of at least one half. Equality with a threshold never clears.\<close>

lemma verdict_clear:
  assumes "question_wf q" "verdict q (read_answer q a) = OClear"
  shows "case (q_kind q, a) of
      (Noul pol, ANoul p) \<Rightarrow>
        (case pol of Risk \<Rightarrow> p < no_below (q_read q) | Positive \<Rightarrow> yes_above (q_read q) < p)
    | (Score ls n pol, AScore d) \<Rightarrow>
        (case pol of Risk \<Rightarrow> sum_from d n < no_below (q_read q) | Positive \<Rightarrow> yes_above (q_read q) < sum_from d n)
    | (Choice os, AChoice d) \<Rightarrow>
        \<exists>l p. (l, OClear) \<in> set os \<and> (l, p) \<in> set (entries d) \<and> yes_above (q_read q) < p
          \<and> CHOICE_MIN_YES_ABOVE < p \<and> (\<forall>(l', p') \<in> set (entries d). l' \<noteq> l \<longrightarrow> p' < p)
    | _ \<Rightarrow> False"
proof (cases "q_kind q")
  case (Noul pol)
  with assms(2) show ?thesis
    by (cases a; cases pol) (auto simp: verdict_def read_answer_def polarity_verdict_def read_noul_def
        Let_def split: if_splits)
next
  case (Score ls n pol)
  with assms(2) show ?thesis
    by (cases a; cases pol) (auto simp: verdict_def read_answer_def polarity_verdict_def read_noul_def
        Let_def split: if_splits)
next
  case (Choice os)
  with assms(2) obtain d l where a: "a = AChoice d" and top: "dist_top d = TLabel l"
    and max: "yes_above (q_read q) < max_ppm d"
    and opt: "case find (\<lambda>(opt, _). opt = l) os of None \<Rightarrow> False | Some (_, x) \<Rightarrow> x = OClear"
    by (cases a) (auto simp: verdict_def read_answer_def Let_def split: top.splits if_splits option.splits)
  from opt have "(l, OClear) \<in> set os"
    by (auto split: option.splits dest!: find_SomeD)
  moreover have "CHOICE_MIN_YES_ABOVE \<le> yes_above (q_read q)"
    using assms(1) Choice by (simp add: question_wf_def)
  moreover have "\<forall>(l', p') \<in> set (entries d). l' \<noteq> l \<longrightarrow> p' < max_ppm d"
    using dist_top_label(2) [OF top] max_ppm_ge [of _ _ d] by (fastforce simp: le_less)
  ultimately show ?thesis
    using Choice a max dist_top_label(1) [OF top] by fastforce
qed

lemma verdict_clear_sample:
  "verdict (hd INJ_1_QUESTIONS) (read_answer (hd INJ_1_QUESTIONS) (ANoul 299999)) = OClear
   \<and> (299999 :: nat) < no_below (q_read (hd INJ_1_QUESTIONS))"
proof -
  have q: "q_kind (hd INJ_1_QUESTIONS) = Noul Risk" "q_read (hd INJ_1_QUESTIONS) = V1_READ"
    by (simp_all add: INJ_1_QUESTIONS_def noul_def)
  have "question_wf (hd INJ_1_QUESTIONS)"
    using INJ_1_wf by (auto simp: set_wf_def INJ_1_def INJ_1_QUESTIONS_def)
  moreover have v: "verdict (hd INJ_1_QUESTIONS) (read_answer (hd INJ_1_QUESTIONS) (ANoul 299999)) = OClear"
    by (simp add: verdict_def read_answer_def Let_def q polarity_verdict_def read_noul_def V1_READ_def)
  ultimately show ?thesis
    using verdict_clear [of "hd INJ_1_QUESTIONS" "ANoul 299999"] by (simp add: q)
qed

end
