(* ===== verification/Td_Lane.thy ===== *)
theory Td_Lane
  imports Td_Decode_Props
begin

text \<open>
  The lane composition tables (\<open>crates/nexus-typed-decision/src/lane.rs\<close>): what the
  Sentinel, the Verifier and the notes screen make of an assessment. The deterministic checks
  come first; advice can only restrict. A decision's set is compared by address in the code; the
  registered sets are distinct statics, so the model compares their values.
\<close>

section \<open>Codes\<close>

datatype transport_code =
    TNotLocal | TInvalidAddress | TInvalidModelName | TCloudName | TCloudEnabled
  | TNotInstalled | TDigestMismatch | TRuntimeMismatch | TRemote | TConfigMismatch
  | TUnavailable | TTimeout | TRequestTooLarge | TResponseTooLarge | TMalformed
  | TTruncated | TToolCalls | TThinkingLeaked | TEmptyContent | TOverBudget
  | TStopped | TCancelled | TLate

definition TRANSPORT_CODE_ALL :: "transport_code list" where
  "TRANSPORT_CODE_ALL =
     [TNotLocal, TInvalidAddress, TInvalidModelName, TCloudName, TCloudEnabled,
      TNotInstalled, TDigestMismatch, TRuntimeMismatch, TRemote, TConfigMismatch,
      TUnavailable, TTimeout, TRequestTooLarge, TResponseTooLarge, TMalformed,
      TTruncated, TToolCalls, TThinkingLeaked, TEmptyContent, TOverBudget,
      TStopped, TCancelled, TLate]"

primrec transport_code_code :: "transport_code \<Rightarrow> string" where
  "transport_code_code TNotLocal = ''not_local''"
| "transport_code_code TInvalidAddress = ''invalid_address''"
| "transport_code_code TInvalidModelName = ''invalid_model_name''"
| "transport_code_code TCloudName = ''cloud_name''"
| "transport_code_code TCloudEnabled = ''cloud_enabled''"
| "transport_code_code TNotInstalled = ''not_installed''"
| "transport_code_code TDigestMismatch = ''digest_mismatch''"
| "transport_code_code TRuntimeMismatch = ''runtime_mismatch''"
| "transport_code_code TRemote = ''remote''"
| "transport_code_code TConfigMismatch = ''config_mismatch''"
| "transport_code_code TUnavailable = ''unavailable''"
| "transport_code_code TTimeout = ''timeout''"
| "transport_code_code TRequestTooLarge = ''request_too_large''"
| "transport_code_code TResponseTooLarge = ''response_too_large''"
| "transport_code_code TMalformed = ''malformed''"
| "transport_code_code TTruncated = ''truncated''"
| "transport_code_code TToolCalls = ''tool_calls''"
| "transport_code_code TThinkingLeaked = ''thinking_leaked''"
| "transport_code_code TEmptyContent = ''empty_content''"
| "transport_code_code TOverBudget = ''over_budget''"
| "transport_code_code TStopped = ''stopped''"
| "transport_code_code TCancelled = ''cancelled''"
| "transport_code_code TLate = ''late''"

datatype preflight_code =
    PfProjectionMismatch | PfUnrenderable | PfCharNotAllowed | PfUnsafeDelimiter | PfRequestTooLarge

definition PREFLIGHT_CODE_ALL :: "preflight_code list" where
  "PREFLIGHT_CODE_ALL =
     [PfProjectionMismatch, PfUnrenderable, PfCharNotAllowed, PfUnsafeDelimiter, PfRequestTooLarge]"

primrec preflight_code_code :: "preflight_code \<Rightarrow> string" where
  "preflight_code_code PfProjectionMismatch = ''projection_mismatch''"
| "preflight_code_code PfUnrenderable = ''unrenderable''"
| "preflight_code_code PfCharNotAllowed = ''char_not_allowed''"
| "preflight_code_code PfUnsafeDelimiter = ''unsafe_delimiter''"
| "preflight_code_code PfRequestTooLarge = ''request_too_large''"

datatype failure =
    FRefused preflight_code
  | FCoverageInsufficient
  | FTransport transport_code
  | FReplyTooLarge | FMalformed | FStopped | FCancelled | FTimeout | FLate
  | FStale | FUnrecorded | FMissing

primrec failure_code :: "failure \<Rightarrow> string" where
  "failure_code (FRefused code) = ''refused:'' @ preflight_code_code code"
| "failure_code FCoverageInsufficient = ''coverage_insufficient''"
| "failure_code (FTransport code) = ''transport:'' @ transport_code_code code"
| "failure_code FReplyTooLarge = ''reply_too_large''"
| "failure_code FMalformed = ''malformed''"
| "failure_code FStopped = ''stopped''"
| "failure_code FCancelled = ''cancelled''"
| "failure_code FTimeout = ''timeout''"
| "failure_code FLate = ''late''"
| "failure_code FStale = ''stale''"
| "failure_code FUnrecorded = ''unrecorded''"
| "failure_code FMissing = ''missing''"

primrec from_refusal :: "refusal \<Rightarrow> failure" where
  "from_refusal ProjectionMismatch = FRefused PfProjectionMismatch"
| "from_refusal Unrenderable = FRefused PfUnrenderable"
| "from_refusal CharNotAllowed = FRefused PfCharNotAllowed"
| "from_refusal UnsafeDelimiter = FRefused PfUnsafeDelimiter"
| "from_refusal (CoverageInsufficient _ _) = FCoverageInsufficient"
| "from_refusal RequestTooLarge = FRefused PfRequestTooLarge"

datatype reason =
    RQuestion string
  | RTd failure
  | RAdviceDisagrees | RAdviceUnsettled
  | RAdviceUnavailable failure
  | RFormatVariant | RDeterministic | RCheckError | RNotesInstructsAi | RNotesUnsettled
  | RNotesUnavailable failure

primrec reason_code :: "reason \<Rightarrow> string" where
  "reason_code (RQuestion i) = i"
| "reason_code (RTd f) = ''td_'' @ failure_code f"
| "reason_code RAdviceDisagrees = ''advice_disagrees''"
| "reason_code RAdviceUnsettled = ''advice_unsettled''"
| "reason_code (RAdviceUnavailable f) = ''advice_unavailable:'' @ failure_code f"
| "reason_code RFormatVariant = ''format_variant''"
| "reason_code RDeterministic = ''deterministic''"
| "reason_code RCheckError = ''check_error''"
| "reason_code RNotesInstructsAi = ''notes_screen:instructs_ai''"
| "reason_code RNotesUnsettled = ''notes_screen:unsettled''"
| "reason_code (RNotesUnavailable f) = ''notes_screen:unavailable:'' @ failure_code f"


section \<open>Dispositions and their composition\<close>

datatype disposition = DClear | DNeedsOwner reason | DRestrict reason

primrec disposition_eligible :: "disposition \<Rightarrow> bool" where
  "disposition_eligible DClear = True"
| "disposition_eligible (DNeedsOwner _) = False"
| "disposition_eligible (DRestrict _) = False"

primrec rank :: "disposition \<Rightarrow> nat" where
  "rank DClear = 0"
| "rank (DNeedsOwner _) = 1"
| "rank (DRestrict _) = 2"

primrec disposition_reason :: "disposition \<Rightarrow> reason option" where
  "disposition_reason DClear = None"
| "disposition_reason (DNeedsOwner r) = Some r"
| "disposition_reason (DRestrict r) = Some r"

datatype check = CPass | CFail | CError

datatype advice = Decided decision | Failed failure

definition verdicts :: "decision \<Rightarrow> option_disposition list" where
  "verdicts d = map (\<lambda>(q, (_, r)). verdict q r) (zip (s_questions (dn_set d)) (dn_readings d))"

definition compose :: "decision \<Rightarrow> disposition" where
  "compose d =
     (case position (\<lambda>v. v \<noteq> OClear) (verdicts d) of
        None \<Rightarrow> DClear
      | Some first \<Rightarrow>
          (let reason = RQuestion (q_id (s_questions (dn_set d) ! first)) in
           if ORestrict \<in> set (verdicts d) then DRestrict reason else DNeedsOwner reason))"

definition required :: "advice option \<Rightarrow> question_set \<Rightarrow> failure + decision" where
  "required advice s =
     (case advice of
        Some (Decided d) \<Rightarrow> (if dn_set d = s then Inr d else Inl FMissing)
      | None \<Rightarrow> Inl FMissing
      | Some (Failed f) \<Rightarrow> Inl f)"

datatype sentinel_result = S1aRefusal check | SClear | SHalt reason

definition sentinel_eligible :: "sentinel_result \<Rightarrow> bool" where
  "sentinel_eligible r \<longleftrightarrow> r = SClear"

definition sentinel :: "check \<Rightarrow> advice option \<Rightarrow> sentinel_result" where
  "sentinel s1a advice =
     (if s1a \<noteq> CPass then S1aRefusal s1a
      else case required advice SEN_1 of
        Inr d \<Rightarrow>
          (case compose d of
             DClear \<Rightarrow> SClear
           | DNeedsOwner reason \<Rightarrow> SHalt reason
           | DRestrict reason \<Rightarrow> SHalt reason)
      | Inl f \<Rightarrow> SHalt (RTd f))"

text \<open>One fact: the deterministic check first.\<close>

definition fact :: "check \<Rightarrow> failure + reading \<Rightarrow> disposition" where
  "fact d a =
     (case (d, a) of
        (CError, _) \<Rightarrow> DRestrict RCheckError
      | (CFail, Inr Yes) \<Rightarrow> DNeedsOwner RFormatVariant
      | (CFail, _) \<Rightarrow> DRestrict RDeterministic
      | (CPass, Inr Yes) \<Rightarrow> DClear
      | (CPass, Inr No) \<Rightarrow> DRestrict RAdviceDisagrees
      | (CPass, Inr _) \<Rightarrow> DRestrict RAdviceUnsettled
      | (CPass, Inl f) \<Rightarrow> DRestrict (RAdviceUnavailable f))"

record verifier_result =
  v_facts :: "disposition list"
  v_overall :: disposition

definition verifier_eligible :: "verifier_result \<Rightarrow> bool" where
  "verifier_eligible r = disposition_eligible (v_overall r)"

text \<open>\<open>d\<close> holds the three checks: name, hours and phone.\<close>

definition verifier :: "check list \<Rightarrow> advice option \<Rightarrow> verifier_result" where
  "verifier d advice =
     (let a = (case required advice VER_1 of
                 Inr dec \<Rightarrow> map (\<lambda>i. Inr (snd (dn_readings dec ! i))) [0, 1, 2]
               | Inl FCoverageInsufficient \<Rightarrow> [Inr Unsettled, Inr Unsettled, Inr Unsettled]
               | Inl f \<Rightarrow> [Inl f, Inl f, Inl f]);
          facts = map (\<lambda>i. fact (d ! i) (a ! i)) [0, 1, 2];
          worst = (case map rank facts of [] \<Rightarrow> 2 | r # rs \<Rightarrow> fold max rs r);
          overall = (case find (\<lambda>f. rank f = worst) facts of Some f \<Rightarrow> f | None \<Rightarrow> DRestrict RCheckError)
      in \<lparr>v_facts = facts, v_overall = overall\<rparr>)"

definition notes_screen :: "advice option \<Rightarrow> disposition" where
  "notes_screen advice =
     (case required advice INJ_1 of
        Inr d \<Rightarrow>
          (let reading = snd (dn_readings d ! 0) in
           if verdict (s_questions INJ_1 ! 0) reading = OClear then DClear
           else if reading = Yes then DNeedsOwner RNotesInstructsAi
           else DNeedsOwner RNotesUnsettled)
      | Inl FCoverageInsufficient \<Rightarrow> DNeedsOwner RNotesUnsettled
      | Inl f \<Rightarrow> DNeedsOwner (RNotesUnavailable f))"


section \<open>The code tables\<close>

interpretation decode_codes: code_table DECODE_CODE_ALL decode_code_code
proof
  show "x \<in> set DECODE_CODE_ALL" for x by (rule decode_code_all)
  show "distinct (map decode_code_code DECODE_CODE_ALL)" by (simp add: DECODE_CODE_ALL_def)
qed

interpretation transport_codes: code_table TRANSPORT_CODE_ALL transport_code_code
proof
  show "x \<in> set TRANSPORT_CODE_ALL" for x by (cases x) (simp_all add: TRANSPORT_CODE_ALL_def)
  show "distinct (map transport_code_code TRANSPORT_CODE_ALL)" by (simp add: TRANSPORT_CODE_ALL_def)
qed

interpretation preflight_codes: code_table PREFLIGHT_CODE_ALL preflight_code_code
proof
  show "x \<in> set PREFLIGHT_CODE_ALL" for x by (cases x) (simp_all add: PREFLIGHT_CODE_ALL_def)
  show "distinct (map preflight_code_code PREFLIGHT_CODE_ALL)" by (simp add: PREFLIGHT_CODE_ALL_def)
qed

lemma failure_code_inj: "failure_code f = failure_code g \<longleftrightarrow> f = g"
proof
  assume "failure_code f = failure_code g"
  then show "f = g"
    by (cases f; cases g) (simp_all add: preflight_codes.code_inj transport_codes.code_inj)
qed simp


section \<open>Only clear advice is eligible\<close>

lemma compose_DClear: "compose d = DClear \<longleftrightarrow> list_all (\<lambda>v. v = OClear) (verdicts d)"
  using position_None [of "\<lambda>v. v \<noteq> OClear" "verdicts d"]
  by (cases "position (\<lambda>v. v \<noteq> OClear) (verdicts d)")
     (simp_all add: compose_def Let_def list_all_iff del: position_None)

lemma required_Inr: "required advice s = Inr d \<longleftrightarrow> advice = Some (Decided d) \<and> dn_set d = s"
  by (auto simp: required_def split: option.splits advice.splits)

lemma sentinel_SClear:
  "sentinel s1a advice = SClear \<longleftrightarrow>
   s1a = CPass \<and> (\<exists>d. advice = Some (Decided d) \<and> dn_set d = SEN_1 \<and> list_all (\<lambda>v. v = OClear) (verdicts d))"
  by (auto simp: sentinel_def required_def compose_DClear [symmetric]
      split: option.splits advice.splits disposition.splits)

lemma rank_zero: "rank x = 0 \<longleftrightarrow> x = DClear"
  by (cases x) simp_all

lemma fact_clear: "fact c a = DClear \<longleftrightarrow> c = CPass \<and> a = Inr Yes"
  by (auto simp: fact_def split: check.splits sum.splits reading.splits)

text \<open>The overall result is the first of the worst facts.\<close>

lemma worst_overall:
  fixes fs :: "disposition list"
  assumes "fs \<noteq> []"
  shows "\<exists>f. find (\<lambda>f. rank f = fold max (tl (map rank fs)) (hd (map rank fs))) fs = Some f
     \<and> f \<in> set fs \<and> (\<forall>g \<in> set fs. rank g \<le> rank f)"
proof -
  let ?m = "fold max (tl (map rank fs)) (hd (map rank fs))"
  obtain r rs where mr: "map rank fs = r # rs" using assms by (cases fs) auto
  have "?m \<in> set (map rank fs)" using fold_max_mem [of rs r] by (simp add: mr)
  then obtain f where f: "find (\<lambda>f. rank f = ?m) fs = Some f"
    by (cases "find (\<lambda>f. rank f = ?m) fs") (auto simp: find_None_iff)
  moreover from this have "f \<in> set fs" "rank f = ?m" by (auto simp: find_Some_iff)
  moreover have "rank g \<le> ?m" if "g \<in> set fs" for g
  proof -
    from that have "rank g \<in> set (r # rs)" by (metis image_eqI list.set_map mr)
    then show ?thesis using fold_max_ge [of r rs] fold_max_ge(2) [of "rank g" rs r] by (auto simp: mr)
  qed
  ultimately show ?thesis by auto
qed

lemma verifier_overall:
  "v_overall (verifier ds advice) \<in> set (v_facts (verifier ds advice))
   \<and> (\<forall>g \<in> set (v_facts (verifier ds advice)). rank g \<le> rank (v_overall (verifier ds advice)))"
proof -
  let ?fs = "v_facts (verifier ds advice)"
  have "?fs \<noteq> []" by (simp add: verifier_def Let_def)
  from worst_overall [OF this] obtain f where
    f: "find (\<lambda>f. rank f = fold max (tl (map rank ?fs)) (hd (map rank ?fs))) ?fs = Some f"
       "f \<in> set ?fs" "\<forall>g \<in> set ?fs. rank g \<le> rank f" by blast
  have "v_overall (verifier ds advice) = f"
    using f(1) by (simp add: verifier_def Let_def)
  with f show ?thesis by simp
qed

lemma verifier_eligible_iff:
  "verifier_eligible (verifier ds advice) \<longleftrightarrow> list_all (\<lambda>f. f = DClear) (v_facts (verifier ds advice))"
proof -
  let ?o = "v_overall (verifier ds advice)" and ?fs = "v_facts (verifier ds advice)"
  have "disposition_eligible ?o \<longleftrightarrow> rank ?o = 0" by (cases ?o) simp_all
  also have "\<dots> \<longleftrightarrow> (\<forall>g \<in> set ?fs. rank g = 0)"
    using verifier_overall [of ds advice] by (metis le_zero_eq)
  finally show ?thesis by (simp add: verifier_eligible_def list_all_iff rank_zero)
qed

lemma verifier_facts:
  "required advice VER_1 = Inr d \<Longrightarrow> v_facts (verifier [c0, c1, c2] advice) =
     [fact c0 (Inr (snd (dn_readings d ! 0))), fact c1 (Inr (snd (dn_readings d ! 1))), fact c2 (Inr (snd (dn_readings d ! 2)))]"
  "required advice VER_1 = Inl f \<Longrightarrow> v_facts (verifier [c0, c1, c2] advice) =
     (let a = (if f = FCoverageInsufficient then Inr Unsettled else Inl f) in [fact c0 a, fact c1 a, fact c2 a])"
  by (simp_all add: verifier_def Let_def eval_nat_numeral split: failure.split)

lemma verifier_eligible_yes:
  "verifier_eligible (verifier [c0, c1, c2] advice) \<longleftrightarrow>
   c0 = CPass \<and> c1 = CPass \<and> c2 = CPass \<and>
   (\<exists>d. advice = Some (Decided d) \<and> dn_set d = VER_1
      \<and> snd (dn_readings d ! 0) = Yes \<and> snd (dn_readings d ! 1) = Yes \<and> snd (dn_readings d ! 2) = Yes)"
proof (cases "\<exists>d. advice = Some (Decided d) \<and> dn_set d = VER_1")
  case True
  then obtain d where d: "advice = Some (Decided d)" "dn_set d = VER_1" by blast
  then have "required advice VER_1 = Inr d" by (simp add: required_def)
  with d show ?thesis
    by (simp add: verifier_eligible_iff verifier_facts fact_clear) auto
next
  case False
  then obtain f where "required advice VER_1 = Inl f"
    using required_Inr [of advice VER_1] by (cases "required advice VER_1") auto
  with False show ?thesis
    by (auto simp: verifier_eligible_iff verifier_facts fact_clear Let_def)
qed


section \<open>Properties\<close>

lemma SEN_1_noul: "list_all (\<lambda>q. \<exists>pol. q_kind q = Noul pol) (s_questions SEN_1)"
  by (simp add: SEN_1_def SEN_1_QUESTIONS_def noul_def)

lemma VER_1_noul: "list_all (\<lambda>q. \<exists>pol. q_kind q = Noul pol) (s_questions VER_1)"
  by (simp add: VER_1_def VER_1_QUESTIONS_def noul_def)

text \<open>C1: the Sentinel clears only on a passing deterministic check and four settled answers.
  For a reply decoded against the Sentinel's set, the result is Clear exactly when the
  deterministic check passed, the three risks were each given less than 0.3 and the consistency of
  the facts more than 0.7.\<close>

theorem sentinel_clear_iff:
  assumes "decode SEN_1 reply b att = Inr d"
  shows "sentinel s1a (Some (Decided d)) = SClear \<longleftrightarrow> s1a = CPass \<and>
    (\<exists>p0 p1 p2 p3. dn_answers d = [(''hours_conflict'', ANoul p0), (''other_contact'', ANoul p1),
         (''addressed_to_ai'', ANoul p2), (''facts_consistent'', ANoul p3)]
       \<and> p0 < 300000 \<and> p1 < 300000 \<and> p2 < 300000 \<and> 700000 < p3)"
proof -
  obtain ps where ps: "length ps = length (s_questions SEN_1)" "dn_answers d = zip (keys SEN_1) (map ANoul ps)"
    "dn_readings d = zip (keys SEN_1) (map2 (\<lambda>q p. read_noul (q_read q) p) (s_questions SEN_1) ps)"
    using SEN_1_wf SEN_1_noul assms by (rule decode_noul) blast
  from ps(1) obtain p0 p1 p2 p3 where four: "ps = [p0, p1, p2, p3]"
    by (auto simp: SEN_1_def SEN_1_QUESTIONS_def length_Suc_conv)
  have set: "dn_set d = SEN_1" using decode_facts [OF SEN_1_wf assms] by simp
  have "list_all (\<lambda>v. v = OClear) (verdicts d) \<longleftrightarrow> p0 < 300000 \<and> p1 < 300000 \<and> p2 < 300000 \<and> 700000 < p3"
    unfolding verdicts_def set ps(3) four keys_def
    by (simp add: SEN_1_def SEN_1_QUESTIONS_def noul_def verdict_def polarity_verdict_def read_noul_def V1_READ_def)
  then show ?thesis
    unfolding sentinel_SClear ps(2) four keys_def using set
    by (simp add: SEN_1_def SEN_1_QUESTIONS_def noul_def)
qed

lemma decode_reply_exists:
  assumes "set_wf s" "s_mode s = Probabilities" "list_all (\<lambda>q. \<exists>pol. q_kind q = Noul pol) (s_questions s)"
    and "\<And>k. k \<in> set (keys s) \<Longrightarrow> f k \<le> ONE" "length (noul_reply (keys s) f) \<le> MAX_REPLY_BYTES"
  shows "\<exists>d. decode s (noul_reply (keys s) f) b att = Inr d
    \<and> dn_answers d = map (\<lambda>q. (q_id q, ANoul (f (q_id q)))) (s_questions s)"
  using read_noul_reply [OF assms(1-3), of "keys s" f] assms by (simp add: decode_def set_wf_def)

theorem sentinel_clear_iff_witness:
  "\<exists>d. decode SEN_1 (noul_reply (keys SEN_1) (\<lambda>k. if k = ''facts_consistent'' then 900000 else 100000)) ''b'' First = Inr d
     \<and> sentinel CPass (Some (Decided d)) = SClear \<and> sentinel CFail (Some (Decided d)) \<noteq> SClear"
proof -
  let ?f = "\<lambda>k. if k = ''facts_consistent'' then 900000 else 100000"
  have "\<exists>d. decode SEN_1 (noul_reply (keys SEN_1) ?f) ''b'' First = Inr d
      \<and> dn_answers d = map (\<lambda>q. (q_id q, ANoul (?f (q_id q)))) (s_questions SEN_1)"
    using SEN_1_wf SEN_1_noul
    by (intro decode_reply_exists)
      (simp_all add: SEN_1_def SEN_1_QUESTIONS_def noul_def keys_def ONE_def noul_reply_def quote_def
        ppm_text_def MAX_REPLY_BYTES_def)
  then obtain d where d: "decode SEN_1 (noul_reply (keys SEN_1) ?f) ''b'' First = Inr d"
      "dn_answers d = map (\<lambda>q. (q_id q, ANoul (?f (q_id q)))) (s_questions SEN_1)" by blast
  then have "sentinel CPass (Some (Decided d)) = SClear" "sentinel CFail (Some (Decided d)) \<noteq> SClear"
    using sentinel_clear_iff [OF d(1)] by (simp_all add: SEN_1_def SEN_1_QUESTIONS_def noul_def)
  with d(1) show ?thesis by blast
qed

text \<open>C5: the Verifier's advice never lifts a failed check. For a reply decoded against the
  Verifier's set, the result is eligible exactly when every deterministic check of the three facts
  passed and each fact was found on the page with a probability above 0.7; the overall result is
  always the most restrictive of the three.\<close>

theorem verifier_eligible_probabilities:
  assumes "decode VER_1 reply b att = Inr d"
  shows "verifier_eligible (verifier [c0, c1, c2] (Some (Decided d))) \<longleftrightarrow>
     c0 = CPass \<and> c1 = CPass \<and> c2 = CPass \<and>
     (\<exists>p0 p1 p2. dn_answers d = [(''name_shown'', ANoul p0), (''hours_shown'', ANoul p1), (''phone_shown'', ANoul p2)]
        \<and> 700000 < p0 \<and> 700000 < p1 \<and> 700000 < p2)"
proof -
  obtain ps where ps: "length ps = length (s_questions VER_1)" "dn_answers d = zip (keys VER_1) (map ANoul ps)"
    "dn_readings d = zip (keys VER_1) (map2 (\<lambda>q p. read_noul (q_read q) p) (s_questions VER_1) ps)"
    using VER_1_wf VER_1_noul assms by (rule decode_noul) blast
  from ps(1) obtain p0 p1 p2 where three: "ps = [p0, p1, p2]"
    by (auto simp: VER_1_def VER_1_QUESTIONS_def length_Suc_conv)
  have set: "dn_set d = VER_1" using decode_facts [OF VER_1_wf assms] by simp
  have "snd (dn_readings d ! 0) = Yes \<longleftrightarrow> 700000 < p0" "snd (dn_readings d ! 1) = Yes \<longleftrightarrow> 700000 < p1"
    "snd (dn_readings d ! 2) = Yes \<longleftrightarrow> 700000 < p2"
    unfolding ps(3) three keys_def
    by (simp_all add: VER_1_def VER_1_QUESTIONS_def noul_def read_noul_def V1_READ_def)
  then show ?thesis
    unfolding verifier_eligible_yes ps(2) three keys_def using set
    by (simp add: VER_1_def VER_1_QUESTIONS_def noul_def)
qed

theorem verifier_eligible_probabilities_witness:
  "\<exists>d. decode VER_1 (noul_reply (keys VER_1) (\<lambda>_. 800000)) ''b'' First = Inr d
     \<and> verifier_eligible (verifier [CPass, CPass, CPass] (Some (Decided d)))
     \<and> \<not> verifier_eligible (verifier [CPass, CFail, CPass] (Some (Decided d)))"
proof -
  have "\<exists>d. decode VER_1 (noul_reply (keys VER_1) (\<lambda>_. 800000)) ''b'' First = Inr d
      \<and> dn_answers d = map (\<lambda>q. (q_id q, ANoul 800000)) (s_questions VER_1)"
    using VER_1_wf VER_1_noul
    by (intro decode_reply_exists)
      (simp_all add: VER_1_def VER_1_QUESTIONS_def noul_def keys_def ONE_def noul_reply_def quote_def
        ppm_text_def MAX_REPLY_BYTES_def)
  then obtain d where d: "decode VER_1 (noul_reply (keys VER_1) (\<lambda>_. 800000)) ''b'' First = Inr d"
      "dn_answers d = map (\<lambda>q. (q_id q, ANoul 800000)) (s_questions VER_1)" by blast
  then have "verifier_eligible (verifier [CPass, CPass, CPass] (Some (Decided d)))"
    "\<not> verifier_eligible (verifier [CPass, CFail, CPass] (Some (Decided d)))"
    using verifier_eligible_probabilities [OF d(1)] by (simp_all add: VER_1_def VER_1_QUESTIONS_def noul_def)
  with d(1) show ?thesis by blast
qed

text \<open>Every lane fails closed. With no advice, a failed assessment, or a decision of
  another set, no lane is eligible: the Sentinel halts, the Verifier restricts every fact, and the
  notes screen asks the Owner; the notes screen never refuses silently, and its failures keep
  their code apart.\<close>

lemma lanes_fail_closed:
  "\<not> sentinel_eligible (sentinel s1a None) \<and> \<not> sentinel_eligible (sentinel s1a (Some (Failed f)))
   \<and> \<not> sentinel_eligible (sentinel s1a (Some (Decided (d\<lparr>dn_set := VER_1\<rparr>))))
   \<and> \<not> verifier_eligible (verifier [c0, c1, c2] None)
   \<and> \<not> verifier_eligible (verifier [c0, c1, c2] (Some (Failed f)))
   \<and> \<not> verifier_eligible (verifier [c0, c1, c2] (Some (Decided (d\<lparr>dn_set := SEN_1\<rparr>))))
   \<and> rank (notes_screen None) = 1 \<and> rank (notes_screen (Some (Failed f))) = 1
   \<and> rank (notes_screen (Some (Decided (d\<lparr>dn_set := SEN_1\<rparr>)))) = 1
   \<and> rank (notes_screen advice) \<le> 1
   \<and> (reason_code (RNotesUnavailable f) = reason_code (RNotesUnavailable g) \<longleftrightarrow> f = g)"
proof -
  have sets: "SEN_1 \<noteq> VER_1" "SEN_1 \<noteq> INJ_1"
    by (simp_all add: SEN_1_def VER_1_def INJ_1_def)
  have screen: "rank (case x of FCoverageInsufficient \<Rightarrow> DNeedsOwner RNotesUnsettled | f \<Rightarrow> DNeedsOwner (RNotesUnavailable f)) = 1" for x
    by (cases x) simp_all
  have "rank (notes_screen advice) \<le> 1"
    using screen by (auto simp: notes_screen_def Let_def split: sum.splits failure.splits)
  moreover have "rank (notes_screen x) = 1" if "required x INJ_1 = Inl f" for x f
    using that by (cases f) (simp_all add: notes_screen_def)
  ultimately show ?thesis
    using sets sets [symmetric]
    by (simp add: sentinel_eligible_def sentinel_SClear verifier_eligible_yes required_def failure_code_inj)
qed

end
