(* ===== verification/Td_Slot.thy ===== *)
theory Td_Slot
  imports Td_Lane
begin

text \<open>
  The assessment slot (\<open>crates/nexus-typed-decision/src/slot.rs\<close>): a state machine with a
  private epoch, tokens, the acknowledgement states and single-use consumption. Every method of
  \<open>Slot\<close> is a function from the slot to its result and the slot it leaves. The tokens are
  values of Rust that can be neither made nor copied outside the slot, so the second part runs the
  slot beside the tokens it issued and keeps a log of the steps that succeeded.
\<close>

section \<open>Data\<close>

datatype slot_kind = KSentinel | KVerifier | KNotes

datatype spent_reason = SrRepeat | SrRestricted reason | SrInvalidated | SrStale | SrUnrecorded

type_synonym binding = string

datatype slot_state =
    Unassessed
  | Pending
  | Settling
  | SlClear binding
  | SlSpent spent_reason
  | AwaitingAck nat binding reason
  | AckRecording nat binding
  | Acknowledged nat binding
  | Consumed

datatype outcome = OutClear | OutNeedsOwner reason

record assessment_token =
  at_epoch :: nat
  at_binding :: binding

record settle_token =
  st_epoch :: nat
  st_binding :: binding
  st_outcome :: outcome

record ack_token =
  ak_epoch :: nat
  ak_binding :: binding

datatype begin_result = Started assessment_token | BRepeat | BAlreadySpent

datatype installed = InClear | InAwaitingAck nat

datatype restricted = RsInstalled | RsAlreadySpent

datatype admission = AdClear | AdAcknowledged

datatype refused = AlreadySpent | RSpent spent_reason

record slot =
  sl_kind :: slot_kind
  sl_state :: slot_state
  sl_epoch :: nat


section \<open>The operations\<close>

definition slot_new :: "slot_kind \<Rightarrow> slot" where
  "slot_new k = \<lparr>sl_kind = k, sl_state = Unassessed, sl_epoch = 0\<rparr>"

definition is_spent :: "slot_state \<Rightarrow> bool" where
  "is_spent s = (case s of SlSpent _ \<Rightarrow> True | _ \<Rightarrow> False)"

definition spend :: "slot \<Rightarrow> spent_reason \<Rightarrow> refused \<times> slot" where
  "spend s r =
     (if is_spent (sl_state s) then (AlreadySpent, s)
      else (RSpent r, s\<lparr>sl_state := SlSpent r, sl_epoch := sat_add_u32 (sl_epoch s) 1\<rparr>))"

text \<open>\<open>return Err(self.spend(r))\<close>.\<close>

definition refuse :: "slot \<Rightarrow> spent_reason \<Rightarrow> (refused + 'a) \<times> slot" where
  "refuse s r = apfst Inl (spend s r)"

definition slot_begin :: "slot \<Rightarrow> binding \<Rightarrow> begin_result \<times> slot" where
  "slot_begin s b =
     (case sl_state s of
        Unassessed \<Rightarrow>
          (let e = sat_add_u32 (sl_epoch s) 1 in
           (Started \<lparr>at_epoch = e, at_binding = b\<rparr>, s\<lparr>sl_state := Pending, sl_epoch := e\<rparr>))
      | SlSpent _ \<Rightarrow> (BAlreadySpent, s)
      | _ \<Rightarrow> (BRepeat, snd (spend s SrRepeat)))"

definition settle_begin :: "slot \<Rightarrow> assessment_token \<Rightarrow> outcome \<Rightarrow> binding \<Rightarrow> (refused + settle_token) \<times> slot" where
  "settle_begin s t out live =
     (if at_epoch t \<noteq> sl_epoch s \<or> sl_state s \<noteq> Pending then refuse s SrInvalidated
      else case (out, sl_kind s = KNotes) of
        (OutNeedsOwner r, False) \<Rightarrow> refuse s (SrRestricted r)
      | _ \<Rightarrow>
        (if at_binding t \<noteq> live then refuse s SrStale
         else (Inr \<lparr>st_epoch = at_epoch t, st_binding = at_binding t, st_outcome = out\<rparr>,
               s\<lparr>sl_state := Settling\<rparr>)))"

definition settle_finish :: "slot \<Rightarrow> settle_token \<Rightarrow> bool \<Rightarrow> binding \<Rightarrow> (refused + installed) \<times> slot" where
  "settle_finish s t recorded live =
     (if st_epoch t \<noteq> sl_epoch s \<or> sl_state s \<noteq> Settling then refuse s SrInvalidated
      else if \<not> recorded then refuse s SrUnrecorded
      else if st_binding t \<noteq> live then refuse s SrStale
      else case st_outcome t of
        OutClear \<Rightarrow> (Inr InClear, s\<lparr>sl_state := SlClear (st_binding t)\<rparr>)
      | OutNeedsOwner r \<Rightarrow>
          (if sl_kind s = KNotes
           then (Inr (InAwaitingAck (st_epoch t)), s\<lparr>sl_state := AwaitingAck (st_epoch t) (st_binding t) r\<rparr>)
           else refuse s (SrRestricted r)))"

definition slot_restrict :: "slot \<Rightarrow> reason \<Rightarrow> restricted \<times> slot" where
  "slot_restrict s r =
     (case spend s (SrRestricted r) of
        (RSpent _, s') \<Rightarrow> (RsInstalled, s')
      | (AlreadySpent, s') \<Rightarrow> (RsAlreadySpent, s'))"

definition ack_begin :: "slot \<Rightarrow> nat \<Rightarrow> binding \<Rightarrow> (refused + ack_token) \<times> slot" where
  "ack_begin s displayed live =
     (case sl_state s of
        AwaitingAck e b _ \<Rightarrow>
          (if sl_kind s \<noteq> KNotes \<or> e \<noteq> sl_epoch s \<or> displayed \<noteq> e then refuse s SrInvalidated
           else if b \<noteq> live then refuse s SrStale
           else (Inr \<lparr>ak_epoch = e, ak_binding = b\<rparr>, s\<lparr>sl_state := AckRecording e b\<rparr>))
      | _ \<Rightarrow> refuse s SrInvalidated)"

definition ack_finish :: "slot \<Rightarrow> ack_token \<Rightarrow> bool \<Rightarrow> binding \<Rightarrow> (refused + unit) \<times> slot" where
  "ack_finish s t recorded live =
     (let recording = AckRecording (ak_epoch t) (ak_binding t) in
      if ak_epoch t \<noteq> sl_epoch s \<or> sl_state s \<noteq> recording then refuse s SrInvalidated
      else if \<not> recorded then refuse s SrUnrecorded
      else if ak_binding t \<noteq> live then refuse s SrStale
      else (Inr (), s\<lparr>sl_state := Acknowledged (ak_epoch t) (ak_binding t)\<rparr>))"

definition admit :: "slot \<Rightarrow> binding \<Rightarrow> (refused + admission) \<times> slot" where
  "admit s live =
     (case sl_state s of
        SlClear b \<Rightarrow> (if b \<noteq> live then refuse s SrStale else (Inr AdClear, s))
      | Acknowledged e b \<Rightarrow>
          (if e \<noteq> sl_epoch s then refuse s SrInvalidated
           else if b \<noteq> live then refuse s SrStale
           else (Inr AdAcknowledged, s\<lparr>sl_state := Consumed\<rparr>))
      | _ \<Rightarrow> refuse s SrInvalidated)"


section \<open>The slot beside its tokens\<close>

text \<open>The steps that succeeded, each with what the caller gave.\<close>

datatype slot_event =
    EvStarted binding
  | EvSettling binding outcome binding
  | EvInstalled binding outcome bool binding
  | EvAckBegun binding binding
  | EvAcknowledged binding bool binding
  | EvAdmitted admission binding

record slot_sys =
  sy_slot :: slot
  sy_assess :: "assessment_token list"
  sy_settle :: "settle_token list"
  sy_ack :: "ack_token list"
  sy_log :: "slot_event list"

definition sys_init :: "slot_kind \<Rightarrow> slot_sys" where
  "sys_init k = \<lparr>sy_slot = slot_new k, sy_assess = [], sy_settle = [], sy_ack = [], sy_log = []\<rparr>"

text \<open>
  One call on the slot. A token is given up when it is passed; a call may be made with any
  outstanding token, any live binding, any outcome of the record write, at any time.
\<close>

inductive slot_step :: "slot_sys \<Rightarrow> slot_sys \<Rightarrow> bool" where
  step_begin: "slot_begin (sy_slot y) b = (res, s') \<Longrightarrow>
    slot_step y (case res of
        Started t \<Rightarrow> y\<lparr>sy_slot := s', sy_assess := t # sy_assess y, sy_log := sy_log y @ [EvStarted b]\<rparr>
      | _ \<Rightarrow> y\<lparr>sy_slot := s'\<rparr>)"
| step_settle_begin: "t \<in> set (sy_assess y) \<Longrightarrow> settle_begin (sy_slot y) t out live = (res, s') \<Longrightarrow>
    slot_step y (case res of
        Inr t' \<Rightarrow> y\<lparr>sy_slot := s', sy_assess := remove1 t (sy_assess y), sy_settle := t' # sy_settle y,
                     sy_log := sy_log y @ [EvSettling (at_binding t) out live]\<rparr>
      | Inl _ \<Rightarrow> y\<lparr>sy_slot := s', sy_assess := remove1 t (sy_assess y)\<rparr>)"
| step_settle_finish: "t \<in> set (sy_settle y) \<Longrightarrow> settle_finish (sy_slot y) t recorded live = (res, s') \<Longrightarrow>
    slot_step y (case res of
        Inr _ \<Rightarrow> y\<lparr>sy_slot := s', sy_settle := remove1 t (sy_settle y),
                     sy_log := sy_log y @ [EvInstalled (st_binding t) (st_outcome t) recorded live]\<rparr>
      | Inl _ \<Rightarrow> y\<lparr>sy_slot := s', sy_settle := remove1 t (sy_settle y)\<rparr>)"
| step_restrict: "slot_restrict (sy_slot y) r = (res, s') \<Longrightarrow> slot_step y (y\<lparr>sy_slot := s'\<rparr>)"
| step_ack_begin: "ack_begin (sy_slot y) displayed live = (res, s') \<Longrightarrow>
    slot_step y (case res of
        Inr t \<Rightarrow> y\<lparr>sy_slot := s', sy_ack := t # sy_ack y, sy_log := sy_log y @ [EvAckBegun (ak_binding t) live]\<rparr>
      | Inl _ \<Rightarrow> y\<lparr>sy_slot := s'\<rparr>)"
| step_ack_finish: "t \<in> set (sy_ack y) \<Longrightarrow> ack_finish (sy_slot y) t recorded live = (res, s') \<Longrightarrow>
    slot_step y (case res of
        Inr _ \<Rightarrow> y\<lparr>sy_slot := s', sy_ack := remove1 t (sy_ack y),
                     sy_log := sy_log y @ [EvAcknowledged (ak_binding t) recorded live]\<rparr>
      | Inl _ \<Rightarrow> y\<lparr>sy_slot := s', sy_ack := remove1 t (sy_ack y)\<rparr>)"
| step_admit: "admit (sy_slot y) live = (res, s') \<Longrightarrow>
    slot_step y (case res of
        Inr a \<Rightarrow> y\<lparr>sy_slot := s', sy_log := sy_log y @ [EvAdmitted a live]\<rparr>
      | Inl _ \<Rightarrow> y\<lparr>sy_slot := s'\<rparr>)"

inductive slot_reach :: "slot_kind \<Rightarrow> slot_sys \<Rightarrow> bool" for k where
  reach_init: "slot_reach k (sys_init k)"
| reach_step: "slot_reach k y \<Longrightarrow> slot_step y y' \<Longrightarrow> slot_reach k y'"


section \<open>The two runs a slot allows\<close>

definition clear_run :: "binding \<Rightarrow> nat \<Rightarrow> slot_event list" where
  "clear_run b n = [EvStarted b, EvSettling b OutClear b, EvInstalled b OutClear True b]
     @ replicate n (EvAdmitted AdClear b)"

definition ack_run :: "binding \<Rightarrow> reason \<Rightarrow> slot_event list" where
  "ack_run b r = [EvStarted b, EvSettling b (OutNeedsOwner r) b, EvInstalled b (OutNeedsOwner r) True b,
     EvAckBegun b b, EvAcknowledged b True b, EvAdmitted AdAcknowledged b]"

definition allowed_log :: "slot_kind \<Rightarrow> slot_event list \<Rightarrow> bool" where
  "allowed_log k l \<longleftrightarrow>
     (\<exists>b n. prefix l (clear_run b n)) \<or> (k = KNotes \<and> (\<exists>b r. prefix l (ack_run b r)))"

definition no_tokens :: "slot_sys \<Rightarrow> bool" where
  "no_tokens y \<longleftrightarrow> sy_assess y = [] \<and> sy_settle y = [] \<and> sy_ack y = []"

definition stale_tokens :: "nat \<Rightarrow> slot_sys \<Rightarrow> bool" where
  "stale_tokens e y \<longleftrightarrow> (\<forall>t \<in> set (sy_assess y). at_epoch t < e) \<and> (\<forall>t \<in> set (sy_settle y). st_epoch t < e)
     \<and> (\<forall>t \<in> set (sy_ack y). ak_epoch t < e)"

definition slot_inv :: "slot_kind \<Rightarrow> slot_sys \<Rightarrow> bool" where
  "slot_inv k y \<longleftrightarrow> sl_kind (sy_slot y) = k \<and>
     (let e = sl_epoch (sy_slot y); l = sy_log y in
      case sl_state (sy_slot y) of
        Unassessed \<Rightarrow> e = 0 \<and> no_tokens y \<and> l = []
      | Pending \<Rightarrow> e = 1 \<and> sy_settle y = [] \<and> sy_ack y = []
          \<and> (\<exists>b. sy_assess y = [\<lparr>at_epoch = 1, at_binding = b\<rparr>] \<and> l = [EvStarted b])
      | Settling \<Rightarrow> e = 1 \<and> sy_assess y = [] \<and> sy_ack y = []
          \<and> (\<exists>b out. sy_settle y = [\<lparr>st_epoch = 1, st_binding = b, st_outcome = out\<rparr>]
               \<and> l = [EvStarted b, EvSettling b out b] \<and> (out = OutClear \<or> k = KNotes))
      | SlClear b \<Rightarrow> e = 1 \<and> no_tokens y \<and> (\<exists>n. l = clear_run b n)
      | AwaitingAck e' b r \<Rightarrow> k = KNotes \<and> e = 1 \<and> e' = 1 \<and> no_tokens y \<and> l = take 3 (ack_run b r)
      | AckRecording e' b \<Rightarrow> k = KNotes \<and> e = 1 \<and> e' = 1 \<and> sy_assess y = [] \<and> sy_settle y = []
          \<and> sy_ack y = [\<lparr>ak_epoch = 1, ak_binding = b\<rparr>] \<and> (\<exists>r. l = take 4 (ack_run b r))
      | Acknowledged e' b \<Rightarrow> k = KNotes \<and> e = 1 \<and> e' = 1 \<and> no_tokens y \<and> (\<exists>r. l = take 5 (ack_run b r))
      | Consumed \<Rightarrow> k = KNotes \<and> e = 1 \<and> no_tokens y \<and> (\<exists>b r. l = ack_run b r)
      | SlSpent _ \<Rightarrow> stale_tokens e y \<and> e \<le> 2 \<and> allowed_log k l)"

lemma sat_small [simp]: "sat_add_u32 0 (Suc 0) = Suc 0" "sat_add_u32 (Suc 0) (Suc 0) = 2"
  by (simp_all add: sat_add_u32_def U32_MAX_def)

lemma prefix_take_run: "prefix (take n (ack_run b r)) (ack_run b r)"
  by (rule take_is_prefix)

lemma allowed_clear: "prefix l (clear_run b n) \<Longrightarrow> allowed_log k l"
  unfolding allowed_log_def by blast

lemma allowed_ack: "prefix l (ack_run b r) \<Longrightarrow> allowed_log KNotes l"
  unfolding allowed_log_def by blast

lemma allowed_log_prefix: "allowed_log k l \<Longrightarrow> prefix l' l \<Longrightarrow> allowed_log k l'"
  unfolding allowed_log_def by (metis prefix_order.trans)

text \<open>Whatever the state, the invariant allows only the two runs.\<close>

lemma slot_inv_log: "slot_inv k y \<Longrightarrow> allowed_log k (sy_log y)"
proof (cases "sl_state (sy_slot y)")
  case Settling
  assume "slot_inv k y"
  with Settling obtain b out where l: "sy_log y = [EvStarted b, EvSettling b out b]" "out = OutClear \<or> k = KNotes"
    by (auto simp: slot_inv_def Let_def)
  have "prefix (sy_log y) (clear_run b 0)" if "out = OutClear"
    using that l by (simp add: clear_run_def)
  moreover have "prefix (sy_log y) (ack_run b r)" if "out = OutNeedsOwner r" for r
    using that l by (simp add: ack_run_def)
  ultimately show ?thesis
    using l(2) unfolding allowed_log_def by (cases out) blast+
next
  case Pending
  assume "slot_inv k y"
  with Pending obtain b where "sy_log y = [EvStarted b]" by (auto simp: slot_inv_def)
  then have "prefix (sy_log y) (clear_run b 0)" by (simp add: clear_run_def)
  then show ?thesis by (rule allowed_clear)
qed (auto simp: slot_inv_def Let_def intro: allowed_clear [OF Nil_prefix] allowed_clear [OF prefix_order.refl]
      allowed_ack [OF prefix_order.refl] allowed_ack [OF prefix_take_run])

text \<open>Spending the slot keeps the invariant, whatever becomes of the tokens.\<close>

lemma slot_inv_spend:
  assumes "slot_inv k y" "s' = snd (spend (sy_slot y) r)" "sy_slot y' = s'" "sy_log y' = sy_log y"
    and "set (sy_assess y') \<subseteq> set (sy_assess y)" "set (sy_settle y') \<subseteq> set (sy_settle y)" "set (sy_ack y') \<subseteq> set (sy_ack y)"
  shows "slot_inv k y'"
proof (cases "is_spent (sl_state (sy_slot y))")
  case True
  with assms show ?thesis
    by (auto simp: slot_inv_def Let_def spend_def is_spent_def stale_tokens_def split: slot_state.splits)
next
  case False
  have "stale_tokens (sat_add_u32 (sl_epoch (sy_slot y)) 1) y \<and> sat_add_u32 (sl_epoch (sy_slot y)) 1 \<le> 2"
    using assms(1) False
    by (auto simp: slot_inv_def Let_def is_spent_def stale_tokens_def no_tokens_def split: slot_state.splits)
  with assms False slot_inv_log [OF assms(1)] show ?thesis
    by (auto simp: slot_inv_def Let_def spend_def stale_tokens_def)
qed


section \<open>Every step keeps the invariant\<close>

lemma refuse_eq: "refuse s r = (Inl (fst (spend s r)), snd (spend s r))"
  by (simp add: refuse_def prod_eq_iff)

text \<open>Each operation either spends the slot or makes its one move.\<close>

lemma settle_begin_cases:
  assumes "settle_begin s t out live = (res, s')"
  obtains (refused) e r where "res = Inl e" "s' = snd (spend s r)"
  | (settling) "res = Inr \<lparr>st_epoch = at_epoch t, st_binding = at_binding t, st_outcome = out\<rparr>"
      "s' = s\<lparr>sl_state := Settling\<rparr>" "at_epoch t = sl_epoch s" "sl_state s = Pending" "at_binding t = live"
      "out = OutClear \<or> sl_kind s = KNotes"
  using assms by (cases out; cases "sl_kind s = KNotes") (auto simp: settle_begin_def refuse_eq split: if_splits)

lemma settle_finish_cases:
  assumes "settle_finish s t recorded live = (res, s')"
  obtains (refused) e r where "res = Inl e" "s' = snd (spend s r)"
  | (clear) "res = Inr InClear" "s' = s\<lparr>sl_state := SlClear (st_binding t)\<rparr>" "st_epoch t = sl_epoch s"
      "sl_state s = Settling" recorded "st_binding t = live" "st_outcome t = OutClear"
  | (waiting) r where "res = Inr (InAwaitingAck (st_epoch t))" "st_outcome t = OutNeedsOwner r"
      "s' = s\<lparr>sl_state := AwaitingAck (st_epoch t) (st_binding t) r\<rparr>" "st_epoch t = sl_epoch s"
      "sl_state s = Settling" recorded "st_binding t = live" "sl_kind s = KNotes"
  using assms by (auto simp: settle_finish_def refuse_eq split: if_splits outcome.splits)

lemma ack_begin_cases:
  assumes "ack_begin s displayed live = (res, s')"
  obtains (refused) e r where "res = Inl e" "s' = snd (spend s r)"
  | (recording) e b r where "res = Inr \<lparr>ak_epoch = e, ak_binding = b\<rparr>" "s' = s\<lparr>sl_state := AckRecording e b\<rparr>"
      "sl_state s = AwaitingAck e b r" "e = sl_epoch s" "displayed = e" "b = live" "sl_kind s = KNotes"
  using assms by (auto simp: ack_begin_def refuse_eq split: if_splits slot_state.splits)

lemma ack_finish_cases:
  assumes "ack_finish s t recorded live = (res, s')"
  obtains (refused) e r where "res = Inl e" "s' = snd (spend s r)"
  | (acknowledged) "res = Inr ()" "s' = s\<lparr>sl_state := Acknowledged (ak_epoch t) (ak_binding t)\<rparr>"
      "ak_epoch t = sl_epoch s" "sl_state s = AckRecording (ak_epoch t) (ak_binding t)" recorded "ak_binding t = live"
  using assms by (auto simp: ack_finish_def refuse_eq Let_def split: if_splits)

lemma admit_cases:
  assumes "admit s live = (res, s')"
  obtains (refused) e r where "res = Inl e" "s' = snd (spend s r)"
  | (clear) "res = Inr AdClear" "s' = s" "sl_state s = SlClear live"
  | (consumed) "res = Inr AdAcknowledged" "s' = s\<lparr>sl_state := Consumed\<rparr>" "sl_state s = Acknowledged (sl_epoch s) live"
  using assms by (auto simp: admit_def refuse_eq split: if_splits slot_state.splits)

lemma slot_begin_cases:
  assumes "slot_begin s b = (res, s')"
  obtains (started) t where "res = Started t" "t = \<lparr>at_epoch = sat_add_u32 (sl_epoch s) 1, at_binding = b\<rparr>"
      "s' = s\<lparr>sl_state := Pending, sl_epoch := sat_add_u32 (sl_epoch s) 1\<rparr>" "sl_state s = Unassessed"
  | (refused) r where "res = BRepeat \<or> res = BAlreadySpent" "s' = snd (spend s r)"
  using assms by (auto simp: slot_begin_def Let_def spend_def is_spent_def split: slot_state.splits)

lemma slot_restrict_cases:
  assumes "slot_restrict s r = (res, s')"
  shows "s' = snd (spend s (SrRestricted r))"
  using assms by (auto simp: slot_restrict_def split: prod.splits refused.splits)

lemma clear_run_Suc: "clear_run b n @ [EvAdmitted AdClear b] = clear_run b (Suc n)"
  by (simp add: clear_run_def replicate_append_same)

lemma slot_inv_step:
  assumes "slot_inv k y" "slot_step y y'"
  shows "slot_inv k y'"
  using assms(2)
proof cases
  case (step_begin b res s')
  from step_begin(2) show ?thesis
  proof (cases rule: slot_begin_cases)
    case (started t)
    with assms(1) step_begin show ?thesis
      by (auto simp: slot_inv_def Let_def no_tokens_def)
  next
    case (refused r)
    with step_begin show ?thesis
      by (intro slot_inv_spend [OF assms(1), where r = r and s' = s']) auto
  qed
next
  case (step_settle_begin t out live res s')
  from step_settle_begin(3) show ?thesis
  proof (cases rule: settle_begin_cases)
    case (refused e r)
    with step_settle_begin show ?thesis
      by (intro slot_inv_spend [OF assms(1), where r = r and s' = s']) (auto dest: set_remove1_subset [THEN subsetD])
  next
    case settling
    with assms(1) step_settle_begin show ?thesis
      by (auto simp: slot_inv_def Let_def)
  qed
next
  case (step_settle_finish t recorded live res s')
  from step_settle_finish(3) show ?thesis
  proof (cases rule: settle_finish_cases)
    case (refused e r)
    with step_settle_finish show ?thesis
      by (intro slot_inv_spend [OF assms(1), where r = r and s' = s']) (auto dest: set_remove1_subset [THEN subsetD])
  next
    case clear
    with assms(1) step_settle_finish show ?thesis
      by (auto simp: slot_inv_def Let_def no_tokens_def clear_run_def intro: exI [of _ 0])
  next
    case (waiting r)
    with assms(1) step_settle_finish show ?thesis
      by (auto simp: slot_inv_def Let_def no_tokens_def ack_run_def)
  qed
next
  case (step_restrict r res s')
  then show ?thesis
    by (intro slot_inv_spend [OF assms(1), where r = "SrRestricted r" and s' = s'])
      (auto dest: slot_restrict_cases)
next
  case (step_ack_begin displayed live res s')
  from step_ack_begin(2) show ?thesis
  proof (cases rule: ack_begin_cases)
    case (refused e r)
    with step_ack_begin show ?thesis
      by (intro slot_inv_spend [OF assms(1), where r = r and s' = s']) auto
  next
    case (recording e b r)
    with assms(1) step_ack_begin show ?thesis
      by (auto simp: slot_inv_def Let_def no_tokens_def ack_run_def)
  qed
next
  case (step_ack_finish t recorded live res s')
  from step_ack_finish(3) show ?thesis
  proof (cases rule: ack_finish_cases)
    case (refused e r)
    with step_ack_finish show ?thesis
      by (intro slot_inv_spend [OF assms(1), where r = r and s' = s']) (auto dest: set_remove1_subset [THEN subsetD])
  next
    case acknowledged
    with assms(1) step_ack_finish show ?thesis
      by (auto simp: slot_inv_def Let_def no_tokens_def ack_run_def)
  qed
next
  case (step_admit live res s')
  from step_admit(2) show ?thesis
  proof (cases rule: admit_cases)
    case (refused e r)
    with step_admit show ?thesis
      by (intro slot_inv_spend [OF assms(1), where r = r and s' = s']) auto
  next
    case clear
    with assms(1) step_admit show ?thesis
      by (auto simp: slot_inv_def Let_def no_tokens_def clear_run_Suc)
  next
    case consumed
    with assms(1) step_admit show ?thesis
      by (auto simp: slot_inv_def Let_def no_tokens_def ack_run_def)
  qed
qed

lemma slot_reach_inv: "slot_reach k y \<Longrightarrow> slot_inv k y"
proof (induction rule: slot_reach.induct)
  case reach_init
  show ?case by (simp add: slot_inv_def sys_init_def slot_new_def no_tokens_def)
next
  case (reach_step y y')
  then show ?case by (blast intro: slot_inv_step)
qed


section \<open>Properties\<close>

text \<open>C20: a slot allows one assessment and two kinds of run. Whatever calls are made, with
  whatever outstanding tokens, bindings and record outcomes and in whatever order, the steps that
  succeed are a prefix of one of two runs over one binding: assessed, settled and recorded as
  clear, then admitted any number of times; or, for a notes slot only, settled as needing the
  Owner, acknowledged, recorded, and admitted once. In both, every binding check met the binding
  the assessment began with, and nothing was installed without its record. The saturating epoch
  never saturates.\<close>

theorem slot_runs:
  assumes "slot_reach k y"
  shows "((\<exists>b n. prefix (sy_log y) (clear_run b n)) \<or> (k = KNotes \<and> (\<exists>b r. prefix (sy_log y) (ack_run b r))))
    \<and> sl_epoch (sy_slot y) \<le> 2"
proof -
  have inv: "slot_inv k y" using assms by (rule slot_reach_inv)
  then have "sl_epoch (sy_slot y) \<le> 2"
    by (auto simp: slot_inv_def Let_def split: slot_state.splits)
  with slot_inv_log [OF inv] show ?thesis by (simp add: allowed_log_def)
qed

text \<open>A notes slot driven through an acknowledgement to its one admission.\<close>

definition ack_state :: "slot_state \<Rightarrow> assessment_token list \<Rightarrow> settle_token list \<Rightarrow> ack_token list \<Rightarrow> nat \<Rightarrow> slot_sys" where
  "ack_state st ts ss ks n = \<lparr>sy_slot = \<lparr>sl_kind = KNotes, sl_state = st, sl_epoch = 1\<rparr>, sy_assess = ts,
     sy_settle = ss, sy_ack = ks, sy_log = take n (ack_run ''b'' RNotesUnsettled)\<rparr>"

lemma acknowledged_reach: "slot_reach KNotes (ack_state (Acknowledged 1 ''b'') [] [] [] 5)"
proof -
  let ?t = "\<lparr>at_epoch = 1, at_binding = ''b''\<rparr>"
  let ?u = "\<lparr>st_epoch = 1, st_binding = ''b'', st_outcome = OutNeedsOwner RNotesUnsettled\<rparr>"
  let ?k = "\<lparr>ak_epoch = 1, ak_binding = ''b''\<rparr>"
  have s1: "slot_step (sys_init KNotes) (ack_state Pending [?t] [] [] 1)"
    using step_begin [of "sys_init KNotes" "''b''"]
    by (simp add: sys_init_def slot_new_def slot_begin_def ack_run_def ack_state_def)
  have s2: "slot_step (ack_state Pending [?t] [] [] 1) (ack_state Settling [] [?u] [] 2)"
    using step_settle_begin [of ?t "ack_state Pending [?t] [] [] 1" "OutNeedsOwner RNotesUnsettled" "''b''"]
    by (simp add: settle_begin_def ack_run_def ack_state_def eval_nat_numeral)
  have s3: "slot_step (ack_state Settling [] [?u] [] 2) (ack_state (AwaitingAck 1 ''b'' RNotesUnsettled) [] [] [] 3)"
    using step_settle_finish [of ?u "ack_state Settling [] [?u] [] 2" True "''b''"]
    by (simp add: settle_finish_def ack_run_def ack_state_def eval_nat_numeral)
  have s4: "slot_step (ack_state (AwaitingAck 1 ''b'' RNotesUnsettled) [] [] [] 3) (ack_state (AckRecording 1 ''b'') [] [] [?k] 4)"
    using step_ack_begin [of "ack_state (AwaitingAck 1 ''b'' RNotesUnsettled) [] [] [] 3" 1 "''b''"]
    by (simp add: ack_begin_def ack_run_def ack_state_def eval_nat_numeral)
  have s5: "slot_step (ack_state (AckRecording 1 ''b'') [] [] [?k] 4) (ack_state (Acknowledged 1 ''b'') [] [] [] 5)"
    using step_ack_finish [of ?k "ack_state (AckRecording 1 ''b'') [] [] [?k] 4" True "''b''"]
    by (simp add: ack_finish_def ack_run_def ack_state_def eval_nat_numeral)
  show ?thesis
    by (rule reach_step [OF reach_step [OF reach_step [OF reach_step [OF reach_step [OF reach_init s1] s2] s3] s4] s5])
qed

lemma consumed_reach: "slot_reach KNotes (ack_state Consumed [] [] [] 6)"
proof (rule reach_step [OF acknowledged_reach])
  show "slot_step (ack_state (Acknowledged 1 ''b'') [] [] [] 5) (ack_state Consumed [] [] [] 6)"
    using step_admit [of "ack_state (Acknowledged 1 ''b'') [] [] [] 5" "''b''"]
    by (simp add: admit_def ack_state_def ack_run_def eval_nat_numeral)
qed

theorem slot_runs_witness:
  "slot_reach KNotes (ack_state Consumed [] [] [] 6)
   \<and> ((\<exists>b n. prefix (sy_log (ack_state Consumed [] [] [] 6)) (clear_run b n))
      \<or> (\<exists>b r. prefix (sy_log (ack_state Consumed [] [] [] 6)) (ack_run b r)))"
  using consumed_reach slot_runs [OF consumed_reach] by blast

text \<open>An admission is for the assessed binding, now. The admission check lets a reachable
  slot through only if the live binding is the one the slot was assessed, settled and recorded
  for; through an acknowledgement only in a notes slot whose acknowledgement was recorded and not
  used before; and using it consumes the slot.\<close>

lemma admit_current:
  assumes "slot_reach k y" "admit (sy_slot y) live = (Inr a, s')"
  shows "(a = AdClear \<and> (\<exists>n. sy_log y = clear_run live n) \<and> s' = sy_slot y)
    \<or> (a = AdAcknowledged \<and> k = KNotes \<and> (\<exists>r. sy_log y = take 5 (ack_run live r)) \<and> sl_state s' = Consumed)"
  using assms(2)
proof (cases rule: admit_cases)
  case clear
  then show ?thesis using slot_reach_inv [OF assms(1)] by (auto simp: slot_inv_def Let_def)
next
  case consumed
  then show ?thesis using slot_reach_inv [OF assms(1)] by (auto simp: slot_inv_def Let_def)
qed simp

lemma admit_current_sample:
  "slot_reach KNotes (ack_state (Acknowledged 1 ''b'') [] [] [] 5)
   \<and> (\<exists>s'. admit (sy_slot (ack_state (Acknowledged 1 ''b'') [] [] [] 5)) ''b'' = (Inr AdAcknowledged, s')
        \<and> sl_state s' = Consumed)"
proof -
  let ?y = "ack_state (Acknowledged 1 ''b'') [] [] [] 5"
  obtain s' where "admit (sy_slot ?y) ''b'' = (Inr AdAcknowledged, s')"
    by (simp add: admit_def ack_state_def)
  with admit_current [OF acknowledged_reach this] acknowledged_reach show ?thesis by blast
qed

text \<open>A spent slot is dead. In it every operation changes nothing and is refused as
  already spent, whatever token it is given.\<close>

lemma spent_absorbing:
  assumes "sl_state s = SlSpent r"
  shows "slot_begin s b = (BAlreadySpent, s) \<and> settle_begin s t out live = (Inl AlreadySpent, s)
    \<and> settle_finish s u recorded live = (Inl AlreadySpent, s) \<and> slot_restrict s q = (RsAlreadySpent, s)
    \<and> ack_begin s e live = (Inl AlreadySpent, s) \<and> ack_finish s k recorded live = (Inl AlreadySpent, s)
    \<and> admit s live = (Inl AlreadySpent, s)"
  using assms
  by (simp add: slot_begin_def settle_begin_def settle_finish_def slot_restrict_def ack_begin_def
      ack_finish_def admit_def refuse_eq spend_def is_spent_def)

lemma spent_absorbing_sample:
  "settle_finish (snd (slot_restrict (slot_new KSentinel) RCheckError))
     \<lparr>st_epoch = 1, st_binding = ''b'', st_outcome = OutClear\<rparr> True ''b''
   = (Inl AlreadySpent, snd (slot_restrict (slot_new KSentinel) RCheckError))"
proof -
  have "sl_state (snd (slot_restrict (slot_new KSentinel) RCheckError)) = SlSpent (SrRestricted RCheckError)"
    by (simp add: slot_restrict_def slot_new_def spend_def is_spent_def)
  from spent_absorbing [OF this] show ?thesis by blast
qed

end
