(* ===== verification/Td_Hash.thy ===== *)
theory Td_Hash
  imports Td_Lane
begin

text \<open>
  The hash of a question set and of the registry
  (\<open>crates/nexus-typed-decision/src/hash.rs\<close>) and the display-only record view
  (\<open>src/record.rs\<close>). SHA-256 is a parameter \<open>H\<close> of the model: the code feeds it a
  sequence of length-prefixed fields, and what is proved is that the fields determine what was
  hashed, so that equal hashes of different sets are a collision of \<open>H\<close> itself.
\<close>

section \<open>Fields\<close>

definition SET_DOMAIN :: string where "SET_DOMAIN = ''nexus.typed_decision.set.v1''"
definition REGISTRY_DOMAIN :: string where "REGISTRY_DOMAIN = ''nexus.typed_decision.registry.v1''"

record rule_ids =
  r_prompt :: string
  r_decode :: string
  r_normalize :: string
  r_read :: string
  r_escape :: string
  r_frame :: string
  r_chars :: string

definition RULES_V1 :: rule_ids where
  "RULES_V1 = \<lparr>r_prompt = ''td-prompt-v1'', r_decode = ''td-decode-v1'', r_normalize = ''td-normalize-v1'',
     r_read = ''td-read-v1'', r_escape = ''td-escape-v1'', r_frame = ''td-frame-v1'', r_chars = ''td-chars-v1''\<rparr>"

definition option_fields :: "string \<times> option_disposition \<Rightarrow> string list" where
  "option_fields o' = [fst o', option_disposition_code (snd o')]"

primrec kind_fields :: "kind \<Rightarrow> string list" where
  "kind_fields (Noul pol) = [''noul'', polarity_code pol]"
| "kind_fields (Choice options) = [''choice'', be64 (length options)] @ concat (map option_fields options)"
| "kind_fields (Score levels at_least pol) =
     [''score'', be64 (length levels)] @ levels @ [be_bytes 1 at_least, polarity_code pol]"

definition put_question :: "question \<Rightarrow> string list" where
  "put_question q = [q_id q] @ kind_fields (q_kind q) @ [q_instructions q, q_if_yes q, q_if_no q,
     be_bytes 4 (no_below (q_read q)), be_bytes 4 (yes_above (q_read q))]"

definition put_texts :: "texts \<Rightarrow> string list" where
  "put_texts t = [preamble t, rule_noul_probabilities t, describe_page_text_v1 t, describe_untrusted_text_v1 t,
     shape_intro t, shape_ending t, correction_prefix t, correction_suffix t]
     @ concat (map (\<lambda>(c, ph). [decode_code_code c, ph]) (zip DECODE_CODE_ALL (phrases t)))"

definition put_rules :: "rule_ids \<Rightarrow> string list" where
  "put_rules r = [r_prompt r, r_decode r, r_normalize r, r_read r, r_escape r, r_frame r, r_chars r]"

text \<open>The field of the system text; a set with none hashes the error's display text.\<close>

definition system_field :: "question_set \<Rightarrow> texts \<Rightarrow> string" where
  "system_field s t =
     (case render_system_with s t of Inr system \<Rightarrow> system | Inl NoRegisteredText \<Rightarrow> ''td_render:no_registered_text'')"

definition set_fields :: "question_set \<Rightarrow> texts \<Rightarrow> rule_ids \<Rightarrow> string list" where
  "set_fields s t r =
     [SET_DOMAIN, s_id s, be_bytes 2 (s_version s), lane_code (s_lane s), projection_id_id (s_projection s),
      be_bytes 2 (projection_id_version (s_projection s)), answer_mode_code (s_mode s),
      be64 (length (s_questions s))]
     @ concat (map put_question (s_questions s))
     @ [system_field s t, render_schema s] @ put_texts t @ put_rules r"

text \<open>What the hasher is fed.\<close>

definition fed :: "string list \<Rightarrow> string" where
  "fed parts = concat (map lp parts)"

definition set_hash_with :: "(string \<Rightarrow> string) \<Rightarrow> question_set \<Rightarrow> texts \<Rightarrow> rule_ids \<Rightarrow> string" where
  "set_hash_with H s t r = H (fed (set_fields s t r))"

definition set_hash :: "(string \<Rightarrow> string) \<Rightarrow> question_set \<Rightarrow> string" where
  "set_hash H s = set_hash_with H s TEXTS_V1 RULES_V1"

definition registry_fields :: "(string \<Rightarrow> string) \<Rightarrow> question_set list \<Rightarrow> texts \<Rightarrow> rule_ids \<Rightarrow> string list" where
  "registry_fields H sets t r =
     [REGISTRY_DOMAIN, be64 (length sets)]
     @ concat (map (\<lambda>s. [s_id s, set_hash_with H s t r]) sets) @ put_rules r"

definition registry_hash_of :: "(string \<Rightarrow> string) \<Rightarrow> question_set list \<Rightarrow> texts \<Rightarrow> rule_ids \<Rightarrow> string" where
  "registry_hash_of H sets t r = H (fed (registry_fields H sets t r))"

definition registry_hash :: "(string \<Rightarrow> string) \<Rightarrow> string" where
  "registry_hash H = registry_hash_of H REGISTRY TEXTS_V1 RULES_V1"


section \<open>The fields determine the set\<close>

text \<open>The ranges of the Rust integer types and of \<open>usize\<close> lengths.\<close>

definition kind_rep :: "kind \<Rightarrow> bool" where
  "kind_rep k = (case k of Noul _ \<Rightarrow> True | Choice os \<Rightarrow> length os \<le> U64_MAX
     | Score ls n _ \<Rightarrow> length ls \<le> U64_MAX \<and> n < 256)"

definition question_rep :: "question \<Rightarrow> bool" where
  "question_rep q \<longleftrightarrow> kind_rep (q_kind q) \<and> no_below (q_read q) \<le> U32_MAX \<and> yes_above (q_read q) \<le> U32_MAX"

definition set_rep :: "question_set \<Rightarrow> texts \<Rightarrow> rule_ids \<Rightarrow> bool" where
  "set_rep s t r \<longleftrightarrow> s_version s < 65536 \<and> length (s_questions s) \<le> U64_MAX \<and> list_all question_rep (s_questions s)
     \<and> length (phrases t) = 9 \<and> list_all (\<lambda>f. length f \<le> U64_MAX) (set_fields s t r)"

lemma polarity_code_inj: "polarity_code a = polarity_code b \<longleftrightarrow> a = b"
  by (cases a; cases b) simp_all

lemma option_disposition_code_inj: "option_disposition_code a = option_disposition_code b \<longleftrightarrow> a = b"
  by (cases a; cases b) simp_all

lemma lane_code_inj: "lane_code a = lane_code b \<longleftrightarrow> a = b"
  by (cases a; cases b) simp_all

lemma projection_id_id_inj: "projection_id_id a = projection_id_id b \<longleftrightarrow> a = b"
  by (cases a; cases b) simp_all

lemma answer_mode_code_inj: "answer_mode_code a = answer_mode_code b \<longleftrightarrow> a = b"
  by (cases a; cases b) simp_all

interpretation option_writer: self_delimiting option_fields "\<lambda>_. True"
  by unfold_locales (auto simp: option_fields_def prod_eq_iff option_disposition_code_inj)

lemma be_bytes_4_inj: "be_bytes 4 a = be_bytes 4 b \<Longrightarrow> a \<le> U32_MAX \<Longrightarrow> b \<le> U32_MAX \<Longrightarrow> a = b"
  by (rule be_bytes_inj) (auto simp: U32_MAX_def)

lemma be_bytes_2_inj: "be_bytes 2 a = be_bytes 2 b \<Longrightarrow> a < 65536 \<Longrightarrow> b < 65536 \<Longrightarrow> a = b"
  by (rule be_bytes_inj) auto

lemma be_bytes_1_inj: "be_bytes (Suc 0) a = be_bytes (Suc 0) b \<Longrightarrow> a < 256 \<Longrightarrow> b < 256 \<Longrightarrow> a = b"
  by (rule be_bytes_inj [of 1, simplified]) auto

text \<open>A kind's fields end where their tag and count say.\<close>

interpretation kind_writer: self_delimiting kind_fields kind_rep
proof
  fix a b :: kind and x y :: "string list"
  assume ok: "kind_rep a" "kind_rep b" and eq: "kind_fields a @ x = kind_fields b @ y"
  show "a = b \<and> x = y"
  proof (cases a; cases b)
    fix p q assume "a = Noul p" "b = Noul q"
    with eq show ?thesis by (simp add: polarity_code_inj)
  next
    fix os os' assume ab: "a = Choice os" "b = Choice os'"
    with eq have "be64 (length os) = be64 (length os')"
      and rest: "concat (map option_fields os) @ x = concat (map option_fields os') @ y" by simp_all
    then have "length os = length os'" using ok ab by (auto simp: kind_rep_def intro: be64_inj)
    with rest show ?thesis using option_writer.concat_put_inj [of os os' x y] by (simp add: ab list_all_iff)
  next
    fix ls n p ls' n' p' assume ab: "a = Score ls n p" "b = Score ls' n' p'"
    with eq have "be64 (length ls) = be64 (length ls')"
      and rest: "ls @ [be_bytes 1 n, polarity_code p] @ x = ls' @ [be_bytes 1 n', polarity_code p'] @ y" by simp_all
    then have "length ls = length ls'" using ok ab by (auto simp: kind_rep_def intro: be64_inj)
    with rest have "ls = ls'" "be_bytes (Suc 0) n = be_bytes (Suc 0) n'" "p = p'" "x = y"
      by (simp_all add: append_eq_append_conv polarity_code_inj)
    then show ?thesis using ok ab be_bytes_1_inj by (auto simp: kind_rep_def)
  qed (use eq in simp_all)
qed


interpretation question_writer: self_delimiting put_question question_rep
proof
  fix a b :: question and x y :: "string list"
  assume ok: "question_rep a" "question_rep b" and eq: "put_question a @ x = put_question b @ y"
  from eq have ids: "q_id a = q_id b"
    and rest: "kind_fields (q_kind a) @ [q_instructions a, q_if_yes a, q_if_no a,
         be_bytes 4 (no_below (q_read a)), be_bytes 4 (yes_above (q_read a))] @ x
       = kind_fields (q_kind b) @ [q_instructions b, q_if_yes b, q_if_no b,
         be_bytes 4 (no_below (q_read b)), be_bytes 4 (yes_above (q_read b))] @ y"
    by (simp_all add: put_question_def)
  have "q_kind a = q_kind b \<and> [q_instructions a, q_if_yes a, q_if_no a,
         be_bytes 4 (no_below (q_read a)), be_bytes 4 (yes_above (q_read a))] @ x
       = [q_instructions b, q_if_yes b, q_if_no b,
         be_bytes 4 (no_below (q_read b)), be_bytes 4 (yes_above (q_read b))] @ y"
    using ok rest by (intro kind_writer.put_inj) (simp_all add: question_rep_def)
  then show "a = b \<and> x = y"
    using ok ids by (auto simp: question_rep_def dest!: be_bytes_4_inj)
qed

text \<open>Two sets with the same fields are the same set, under the same texts and rules.\<close>

lemma put_texts_inj:
  assumes "length (phrases t) = 9" "length (phrases t') = 9" "put_texts t @ put_rules r = put_texts t' @ put_rules r'"
  shows "t = t' \<and> r = r'"
proof -
  from assms(1) obtain a b c d e f g h i where p: "phrases t = [a, b, c, d, e, f, g, h, i]"
    by (auto simp: numeral_eq_Suc length_Suc_conv)
  from assms(2) obtain a' b' c' d' e' f' g' h' i' where p': "phrases t' = [a', b', c', d', e', f', g', h', i']"
    by (auto simp: numeral_eq_Suc length_Suc_conv)
  show ?thesis
    using assms(3) p p' by (simp add: put_texts_def put_rules_def DECODE_CODE_ALL_def)
qed

lemma set_fields_inj:
  assumes "set_rep s t r" "set_rep s' t' r'" "set_fields s t r = set_fields s' t' r'"
  shows "s = s' \<and> t = t' \<and> r = r'"
proof -
  from assms(3) have head: "s_id s = s_id s'" "be_bytes 2 (s_version s) = be_bytes 2 (s_version s')"
      "s_lane s = s_lane s'" "s_projection s = s_projection s'" "s_mode s = s_mode s'"
      "be64 (length (s_questions s)) = be64 (length (s_questions s'))"
    and tail: "concat (map put_question (s_questions s)) @ [system_field s t, render_schema s] @ put_texts t @ put_rules r
      = concat (map put_question (s_questions s')) @ [system_field s' t', render_schema s'] @ put_texts t' @ put_rules r'"
    by (simp_all add: set_fields_def lane_code_inj projection_id_id_inj answer_mode_code_inj)
  have "length (s_questions s) = length (s_questions s')"
    using head(6) assms(1,2) by (auto simp: set_rep_def intro: be64_inj)
  moreover have "list_all question_rep (s_questions s)" "list_all question_rep (s_questions s')"
    using assms(1,2) by (simp_all add: set_rep_def)
  ultimately have "s_questions s = s_questions s'"
    and "[system_field s t, render_schema s] @ put_texts t @ put_rules r
       = [system_field s' t', render_schema s'] @ put_texts t' @ put_rules r'"
    using question_writer.concat_put_inj [OF _ _ _ tail] by blast+
  moreover have "s_version s = s_version s'"
    using head(2) assms(1,2) by (auto simp: set_rep_def intro: be_bytes_2_inj)
  ultimately show ?thesis
    using head assms(1,2) put_texts_inj [of t t' r r'] by (simp add: set_rep_def)
qed

lemma fed_inj: "fed xs = fed ys \<Longrightarrow> list_all (\<lambda>f. length f \<le> U64_MAX) xs \<Longrightarrow> list_all (\<lambda>f. length f \<le> U64_MAX) ys \<Longrightarrow> xs = ys"
  unfolding fed_def by (rule concat_lp_inj) (auto simp: list_all_iff)

text \<open>The texts that are fed to the hasher for one registry.\<close>

definition registry_preimages :: "(string \<Rightarrow> string) \<Rightarrow> question_set list \<Rightarrow> texts \<Rightarrow> rule_ids \<Rightarrow> string set" where
  "registry_preimages H sets t r =
     insert (fed (registry_fields H sets t r)) ((\<lambda>s. fed (set_fields s t r)) ` set sets)"

interpretation entry_writer: self_delimiting "\<lambda>(i, h). [i, h]" "\<lambda>_. True"
  by unfold_locales (auto split: prod.splits)

lemma registry_fields_inj:
  assumes "registry_fields H sets t r = registry_fields H sets' t' r'"
    and "length sets \<le> U64_MAX" "length sets' \<le> U64_MAX"
  shows "map (\<lambda>s. (s_id s, set_hash_with H s t r)) sets = map (\<lambda>s. (s_id s, set_hash_with H s t' r')) sets'"
    and "put_rules r = put_rules r'"
proof -
  let ?e = "\<lambda>s. (s_id s, set_hash_with H s t r)" and ?e' = "\<lambda>s. (s_id s, set_hash_with H s t' r')"
  have "length sets = length sets'"
    using assms by (auto simp: registry_fields_def intro: be64_inj)
  moreover have "concat (map (\<lambda>(i, h). [i, h]) (map ?e sets)) @ put_rules r
      = concat (map (\<lambda>(i, h). [i, h]) (map ?e' sets')) @ put_rules r'"
    using assms(1) by (simp add: registry_fields_def comp_def)
  ultimately have "map ?e sets = map ?e' sets' \<and> put_rules r = put_rules r'"
    by (intro entry_writer.concat_put_inj) (simp_all add: list_all_iff)
  then show "map ?e sets = map ?e' sets'" "put_rules r = put_rules r'" by simp_all
qed


section \<open>The record view\<close>

definition VECTOR_DOMAIN :: string where "VECTOR_DOMAIN = ''nexus.typed_decision.vector.v1''"

definition U16_MAX :: nat where "U16_MAX = 65535"

text \<open>\<open>u16::try_from(n).unwrap_or(u16::MAX)\<close>.\<close>

definition permille :: "nat \<Rightarrow> nat" where
  "permille ppm =
     (let q = ppm div 1000; r = ppm mod 1000;
          up = (r > 500 \<or> (r = 500 \<and> q mod 2 = 1));
          n = q + (if up then 1 else 0)
      in if n \<le> U16_MAX then n else U16_MAX)"

definition vector_fields :: "distribution \<Rightarrow> string list" where
  "vector_fields d = [VECTOR_DOMAIN, be64 (length (entries d))]
     @ concat (map (\<lambda>(l, p). [l, be_bytes 4 p]) (entries d))"

definition vector_sha256 :: "(string \<Rightarrow> string) \<Rightarrow> distribution \<Rightarrow> string" where
  "vector_sha256 H d = H (fed (vector_fields d))"

record answer_view =
  av_question :: string
  av_polarity :: "polarity option"
  av_reading :: reading
  av_permille :: nat
  av_top :: "top option"
  av_top_permille :: "nat option"
  av_vector :: "string option"

record record_view =
  rv_set :: string
  rv_mode :: answer_mode
  rv_attempts :: nat
  rv_renormalized :: bool
  rv_answers :: "answer_view list"

definition read_ppm :: "question \<Rightarrow> answer \<Rightarrow> nat" where
  "read_ppm q a =
     (case a of
        ANoul p \<Rightarrow> p
      | AChoice d \<Rightarrow> max_ppm d
      | AScore d \<Rightarrow> sum_from d (case q_kind q of Score _ at_least _ \<Rightarrow> at_least | _ \<Rightarrow> 0))"

definition answer_vector :: "answer \<Rightarrow> distribution option" where
  "answer_vector a = (case a of ANoul _ \<Rightarrow> None | AChoice d \<Rightarrow> Some d | AScore d \<Rightarrow> Some d)"

definition view :: "(string \<Rightarrow> string) \<Rightarrow> question \<Rightarrow> answer \<Rightarrow> reading \<Rightarrow> answer_view" where
  "view H q a r =
     (let vector = answer_vector a in
      \<lparr>av_question = q_id q, av_polarity = q_polarity q, av_reading = r,
       av_permille = permille (read_ppm q a),
       av_top = map_option dist_top vector,
       av_top_permille = map_option (\<lambda>d. permille (max_ppm d)) vector,
       av_vector = map_option (vector_sha256 H) vector\<rparr>)"

definition record_view_of :: "(string \<Rightarrow> string) \<Rightarrow> decision \<Rightarrow> record_view" where
  "record_view_of H d =
     \<lparr>rv_set = s_id (dn_set d), rv_mode = s_mode (dn_set d), rv_attempts = attempt_count (dn_attempt d),
      rv_renormalized = dn_renormalized d,
      rv_answers = map (\<lambda>((q, (_, a)), (_, r)). view H q a r)
        (zip (zip (s_questions (dn_set d)) (dn_answers d)) (dn_readings d))\<rparr>"


section \<open>Properties\<close>

text \<open>The registry hash commits to everything the crate sends. If two registries, under
  their texts and rule identifiers, have the same hash, then they are the same registry, rules and
  texts, or the two registries exhibit a collision of the hash function among the byte strings that
  were hashed for them: no two different registries are fed to it as the same bytes.\<close>

lemma registry_hash_binding:
  assumes "registry_hash_of H sets t r = registry_hash_of H sets' t' r'" "sets \<noteq> []"
    and "\<forall>s \<in> set sets. set_rep s t r" "\<forall>s \<in> set sets'. set_rep s t' r'"
    and "length sets \<le> U64_MAX" "length sets' \<le> U64_MAX"
    and "list_all (\<lambda>f. length f \<le> U64_MAX) (registry_fields H sets t r)"
    and "list_all (\<lambda>f. length f \<le> U64_MAX) (registry_fields H sets' t' r')"
  shows "(sets = sets' \<and> t = t' \<and> r = r') \<or> collision H (registry_preimages H sets t r) (registry_preimages H sets' t' r')"
proof (rule disjCI)
  assume no: "\<not> collision H (registry_preimages H sets t r) (registry_preimages H sets' t' r')"
  then have "fed (registry_fields H sets t r) = fed (registry_fields H sets' t' r')"
    using assms(1) by (auto simp: collision_def registry_preimages_def registry_hash_of_def)
  then have "registry_fields H sets t r = registry_fields H sets' t' r'"
    using assms(7,8) by (rule fed_inj)
  note maps = registry_fields_inj [OF this assms(5,6)]
  from arg_cong [OF maps(1), of length] have len: "length sets = length sets'" by simp
  have each: "sets ! i = sets' ! i \<and> t = t' \<and> r = r'" if "i < length sets" for i
  proof -
    have mem: "sets ! i \<in> set sets" "sets' ! i \<in> set sets'" using that len by simp_all
    have "set_hash_with H (sets ! i) t r = set_hash_with H (sets' ! i) t' r'"
      using arg_cong [OF maps(1), of "\<lambda>xs. xs ! i"] that len by simp
    then have "fed (set_fields (sets ! i) t r) = fed (set_fields (sets' ! i) t' r')"
      using no mem by (auto simp: collision_def registry_preimages_def set_hash_with_def)
    moreover have reps: "set_rep (sets ! i) t r" "set_rep (sets' ! i) t' r'" using assms(3,4) mem by auto
    ultimately have "set_fields (sets ! i) t r = set_fields (sets' ! i) t' r'"
      by (intro fed_inj) (simp_all add: set_rep_def)
    with reps show ?thesis by (rule set_fields_inj)
  qed
  have "0 < length sets" using assms(2) by simp
  then show "sets = sets' \<and> t = t' \<and> r = r'"
    using each len by (auto intro: nth_equalityI)
qed

lemma registry_hash_binding_sample:
  "\<exists>s t. set_rep s t RULES_V1 \<and> registry_hash_of (\<lambda>x. ''h'') [s] t RULES_V1 = registry_hash_of (\<lambda>x. ''h'') [] t RULES_V1
     \<and> collision (\<lambda>x. ''h'') (registry_preimages (\<lambda>x. ''h'') [s] t RULES_V1) (registry_preimages (\<lambda>x. ''h'') [] t RULES_V1)"
proof -
  let ?s = "\<lparr>s_id = ''a'', s_version = 1, s_lane = LVerifier, s_projection = PageTextV1, s_mode = Discrete,
     s_questions = [noul ''q'' Risk ''x'' ''y'' ''z'']\<rparr>"
  let ?t = "\<lparr>preamble = [], rule_noul_probabilities = [], describe_page_text_v1 = [], describe_untrusted_text_v1 = [],
     shape_intro = [], shape_ending = [], correction_prefix = [], correction_suffix = [],
     phrases = [[], [], [], [], [], [], [], [], []]\<rparr>"
  let ?H = "\<lambda>x :: string. ''h''"
  have rep: "set_rep ?s ?t RULES_V1"
    by (simp add: set_rep_def set_fields_def question_rep_def kind_rep_def noul_def V1_READ_def U64_MAX_def U32_MAX_def
        put_question_def put_texts_def put_rules_def system_field_def render_system_with_def render_shape_def
        render_schema_def schema_value_def closed_object_def quote_def SET_DOMAIN_def RULES_V1_def DECODE_CODE_ALL_def)
  have eq: "registry_hash_of ?H [?s] ?t RULES_V1 = registry_hash_of ?H [] ?t RULES_V1"
    by (simp add: registry_hash_of_def)
  have fields: "list_all (\<lambda>f. length f \<le> U64_MAX) (registry_fields ?H [?s] ?t RULES_V1)"
    "list_all (\<lambda>f. length f \<le> U64_MAX) (registry_fields ?H [] ?t RULES_V1)"
    by (simp_all add: registry_fields_def set_hash_with_def put_rules_def REGISTRY_DOMAIN_def RULES_V1_def U64_MAX_def)
  have "([?s] = [] \<and> ?t = ?t \<and> RULES_V1 = RULES_V1)
     \<or> collision ?H (registry_preimages ?H [?s] ?t RULES_V1) (registry_preimages ?H [] ?t RULES_V1)"
    using registry_hash_binding [OF eq _ _ _ _ _ fields] rep by (simp add: U64_MAX_def)
  with rep eq show ?thesis by blast
qed

text \<open>The displayed per-mille value is the half-even rounding of the exact one. It is within
  half a unit of the exact probability, an exact tie goes to the even value, and a probability of
  at most one is shown as at most 1000.\<close>

lemma permille_half_even:
  assumes "p \<le> ONE"
  shows "permille p \<le> 1000 \<and> 2 * p \<le> 2000 * permille p + 1000 \<and> 2000 * permille p \<le> 2 * p + 1000
    \<and> (2 * p = 2000 * permille p + 1000 \<or> 2000 * permille p = 2 * p + 1000 \<longrightarrow> even (permille p))"
proof -
  define q r where "q = p div 1000" and "r = p mod 1000"
  have p: "p = 1000 * q + r" "r < 1000" by (simp_all add: q_def r_def)
  have q: "q \<le> 1000" using assms by (simp add: q_def ONE_def)
  have top: "q = 1000 \<Longrightarrow> r = 0" using assms p by (simp add: ONE_def)
  have pm: "permille p = q + (if 500 < r \<or> r = 500 \<and> odd q then 1 else 0)"
    using q by (simp add: permille_def Let_def q_def r_def odd_iff_mod_2_eq_one U16_MAX_def)
  have "q < 1000 \<or> r = 0" using q top by linarith
  with p q show ?thesis unfolding pm by auto
qed

lemma permille_samples: "permille 2500 = 2 \<and> permille 3500 = 4 \<and> 2000 * permille 2500 \<le> 2 * 2500 + 1000"
  using permille_half_even [of 2500] by (simp add: permille_def ONE_def U16_MAX_def)

end
