(* ===== verification/Mother_Codes.thy ===== *)
theory Mother_Codes
  imports Nexus_Prelude
begin

text \<open>The closed codes of Mother's records (\<open>mother/src/evidence.rs\<close>) with the code types they are
  built from: \<open>LaneRole\<close> (\<open>lane.rs\<close>), \<open>EffectKind\<close> (\<open>contract.rs\<close>), \<open>CheckId\<close> and \<open>CheckCode\<close>
  (\<open>verifier.rs\<close>), and the kernel's \<open>RefusalCode\<close> and \<open>FactCode\<close> (\<open>inert_page\<close>). Each code type has
  its printer \<open>as_str\<close>, its parser and its registry \<open>every\<close>, translated one by one; the locale
  \<open>coded\<close> states the contract all of them share and derives what the records rely on. The end of a
  settlement (\<open>SettleCause::end\<close> and the two ends of \<open>SettlementOutcome\<close>) is here too.\<close>


section \<open>Roles, kinds and checks\<close>

datatype lane_role = ResearcherA | ResearcherB | Skeptic | Builder | Verifier | Sentinel

definition LaneRole_ALL :: "lane_role list" where
  "LaneRole_ALL = [ResearcherA, ResearcherB, Skeptic, Builder, Verifier, Sentinel]"

fun LaneRole_as_str :: "lane_role \<Rightarrow> string" where
  "LaneRole_as_str ResearcherA = ''researcher_a''"
| "LaneRole_as_str ResearcherB = ''researcher_b''"
| "LaneRole_as_str Skeptic = ''skeptic''"
| "LaneRole_as_str Builder = ''builder''"
| "LaneRole_as_str Verifier = ''verifier''"
| "LaneRole_as_str Sentinel = ''sentinel''"

definition role_of :: "string \<Rightarrow> lane_role option" where
  "role_of t = find (\<lambda>r. LaneRole_as_str r = t) LaneRole_ALL"

datatype effect_kind = KFile | KNetwork | KProcess | KModelTool | KSpend

definition EffectKind_ALL :: "effect_kind list" where
  "EffectKind_ALL = [KFile, KNetwork, KProcess, KModelTool, KSpend]"

fun EffectKind_as_str :: "effect_kind \<Rightarrow> string" where
  "EffectKind_as_str KFile = ''file''"
| "EffectKind_as_str KNetwork = ''network''"
| "EffectKind_as_str KProcess = ''process''"
| "EffectKind_as_str KModelTool = ''model_tool''"
| "EffectKind_as_str KSpend = ''spend''"

definition effect_kind_of :: "string \<Rightarrow> effect_kind option" where
  "effect_kind_of t = find (\<lambda>k. EffectKind_as_str k = t) EffectKind_ALL"

text \<open>The kernel's refusal codes of an inert page, in reporting order.\<close>

datatype inert_refusal_code =
  RcTooLarge | RcNotUtf8 | RcByteOrderMark | RcCarriageReturn | RcNoFinalNewline |
  RcControlChar | RcInvisibleChar | RcCharNotAllowed | RcScriptElement | RcStyleElement |
  RcElementNotAllowed | RcTagCase | RcEventHandler | RcStyleAttribute | RcUrlAttribute |
  RcAttributeNotAllowed | RcComment | RcMarkupDeclaration | RcProcessingInstruction |
  RcEntityNotAllowed | RcRemoteReference | RcCssUrl | RcCssImport | RcJavascriptScheme |
  RcDataScheme | RcPrologueMismatch | RcLangInvalid | RcTitleInvalid | RcCssMismatch |
  RcContentModel | RcTagUnclosed | RcTagMisnested | RcVoidSyntax | RcAttributeSyntax |
  RcClassNotAllowed | RcIdInvalid | RcIdDuplicate | RcEmptyElement | RcTextSpacing |
  RcDepthExceeded | RcTooManyElements | RcWordTooLong | RcTrailingContent | RcNotCanonical

definition RefusalCode_CODES :: "inert_refusal_code list" where
  "RefusalCode_CODES = [
     RcTooLarge, RcNotUtf8, RcByteOrderMark, RcCarriageReturn, RcNoFinalNewline, RcControlChar,
     RcInvisibleChar, RcCharNotAllowed, RcScriptElement, RcStyleElement, RcElementNotAllowed,
     RcTagCase, RcEventHandler, RcStyleAttribute, RcUrlAttribute, RcAttributeNotAllowed,
     RcComment, RcMarkupDeclaration, RcProcessingInstruction, RcEntityNotAllowed,
     RcRemoteReference, RcCssUrl, RcCssImport, RcJavascriptScheme, RcDataScheme,
     RcPrologueMismatch, RcLangInvalid, RcTitleInvalid, RcCssMismatch, RcContentModel,
     RcTagUnclosed, RcTagMisnested, RcVoidSyntax, RcAttributeSyntax, RcClassNotAllowed,
     RcIdInvalid, RcIdDuplicate, RcEmptyElement, RcTextSpacing, RcDepthExceeded,
     RcTooManyElements, RcWordTooLong, RcTrailingContent, RcNotCanonical]"

primrec RefusalCode_as_str :: "inert_refusal_code \<Rightarrow> string" where
  "RefusalCode_as_str RcTooLarge = ''too_large''"
| "RefusalCode_as_str RcNotUtf8 = ''not_utf8''"
| "RefusalCode_as_str RcByteOrderMark = ''byte_order_mark''"
| "RefusalCode_as_str RcCarriageReturn = ''carriage_return''"
| "RefusalCode_as_str RcNoFinalNewline = ''no_final_newline''"
| "RefusalCode_as_str RcControlChar = ''control_char''"
| "RefusalCode_as_str RcInvisibleChar = ''invisible_char''"
| "RefusalCode_as_str RcCharNotAllowed = ''char_not_allowed''"
| "RefusalCode_as_str RcScriptElement = ''script_element''"
| "RefusalCode_as_str RcStyleElement = ''style_element''"
| "RefusalCode_as_str RcElementNotAllowed = ''element_not_allowed''"
| "RefusalCode_as_str RcTagCase = ''tag_case''"
| "RefusalCode_as_str RcEventHandler = ''event_handler''"
| "RefusalCode_as_str RcStyleAttribute = ''style_attribute''"
| "RefusalCode_as_str RcUrlAttribute = ''url_attribute''"
| "RefusalCode_as_str RcAttributeNotAllowed = ''attribute_not_allowed''"
| "RefusalCode_as_str RcComment = ''comment''"
| "RefusalCode_as_str RcMarkupDeclaration = ''markup_declaration''"
| "RefusalCode_as_str RcProcessingInstruction = ''processing_instruction''"
| "RefusalCode_as_str RcEntityNotAllowed = ''entity_not_allowed''"
| "RefusalCode_as_str RcRemoteReference = ''remote_reference''"
| "RefusalCode_as_str RcCssUrl = ''css_url''"
| "RefusalCode_as_str RcCssImport = ''css_import''"
| "RefusalCode_as_str RcJavascriptScheme = ''javascript_scheme''"
| "RefusalCode_as_str RcDataScheme = ''data_scheme''"
| "RefusalCode_as_str RcPrologueMismatch = ''prologue_mismatch''"
| "RefusalCode_as_str RcLangInvalid = ''lang_invalid''"
| "RefusalCode_as_str RcTitleInvalid = ''title_invalid''"
| "RefusalCode_as_str RcCssMismatch = ''css_mismatch''"
| "RefusalCode_as_str RcContentModel = ''content_model''"
| "RefusalCode_as_str RcTagUnclosed = ''tag_unclosed''"
| "RefusalCode_as_str RcTagMisnested = ''tag_misnested''"
| "RefusalCode_as_str RcVoidSyntax = ''void_syntax''"
| "RefusalCode_as_str RcAttributeSyntax = ''attribute_syntax''"
| "RefusalCode_as_str RcClassNotAllowed = ''class_not_allowed''"
| "RefusalCode_as_str RcIdInvalid = ''id_invalid''"
| "RefusalCode_as_str RcIdDuplicate = ''id_duplicate''"
| "RefusalCode_as_str RcEmptyElement = ''empty_element''"
| "RefusalCode_as_str RcTextSpacing = ''text_spacing''"
| "RefusalCode_as_str RcDepthExceeded = ''depth_exceeded''"
| "RefusalCode_as_str RcTooManyElements = ''too_many_elements''"
| "RefusalCode_as_str RcWordTooLong = ''word_too_long''"
| "RefusalCode_as_str RcTrailingContent = ''trailing_content''"
| "RefusalCode_as_str RcNotCanonical = ''not_canonical''"

text \<open>An hours index is a \<open>u8\<close>.\<close>

datatype fact_code =
  FcFactsInvalid | FcPhoneFormat | FcFactPhoneLike | FcNameNotHeading | FcNameNotTitle |
  FcHoursLineMissing nat | FcPhoneMissing | FcForeignNumber

definition FactCode_CODES :: "string list" where
  "FactCode_CODES = [''facts_invalid'', ''phone_format'', ''fact_phone_like'', ''name_not_heading'',
     ''name_not_title'', ''hours_line_missing'', ''phone_missing'', ''foreign_number'']"

fun FactCode_position :: "fact_code \<Rightarrow> nat" where
  "FactCode_position FcFactsInvalid = 0"
| "FactCode_position FcPhoneFormat = 1"
| "FactCode_position FcFactPhoneLike = 2"
| "FactCode_position FcNameNotHeading = 3"
| "FactCode_position FcNameNotTitle = 4"
| "FactCode_position (FcHoursLineMissing i) = 5"
| "FactCode_position FcPhoneMissing = 6"
| "FactCode_position FcForeignNumber = 7"

definition FactCode_as_str :: "fact_code \<Rightarrow> string" where
  "FactCode_as_str c = FactCode_CODES ! FactCode_position c"

datatype check_id = V0 | V1 | V2 | V3 | V4 | V5

definition CheckId_ALL :: "check_id list" where
  "CheckId_ALL = [V0, V1, V2, V3, V4, V5]"

fun CheckId_as_str :: "check_id \<Rightarrow> string" where
  "CheckId_as_str V0 = ''v0''"
| "CheckId_as_str V1 = ''v1''"
| "CheckId_as_str V2 = ''v2''"
| "CheckId_as_str V3 = ''v3''"
| "CheckId_as_str V4 = ''v4''"
| "CheckId_as_str V5 = ''v5''"

datatype check_code =
  CkNoPublication | CkPublishedMismatch | CkPageNotInert inert_refusal_code | CkPolicyChanged |
  CkFactMissing fact_code | CkNameNotVisible | CkHoursLineNotVisible nat | CkPhoneNotVisible |
  CkReaderUnsupported | CkEmailNotSupported

fun CheckCode_display :: "check_code \<Rightarrow> string" where
  "CheckCode_display CkNoPublication = ''no_publication''"
| "CheckCode_display CkPublishedMismatch = ''published_mismatch''"
| "CheckCode_display (CkPageNotInert c) = ''page_not_inert:'' @ RefusalCode_as_str c"
| "CheckCode_display CkPolicyChanged = ''policy_changed''"
| "CheckCode_display (CkFactMissing c) = (case c of
     FcHoursLineMissing i \<Rightarrow> ''hours_line_missing:'' @ decimal i
   | _ \<Rightarrow> FactCode_as_str c)"
| "CheckCode_display CkNameNotVisible = ''name_not_visible''"
| "CheckCode_display (CkHoursLineNotVisible i) = ''hours_line_not_visible:'' @ decimal i"
| "CheckCode_display CkPhoneNotVisible = ''phone_not_visible''"
| "CheckCode_display CkReaderUnsupported = ''reader_unsupported''"
| "CheckCode_display CkEmailNotSupported = ''email_not_supported''"


section \<open>The flat code sets\<close>

text \<open>A broker or port class.\<close>

datatype broker_class =
  BkUnknownCommitment | BkUnknownRun | BkUnknownGrant | BkUnknownLease | BkWrongAgent |
  BkWrongRun | BkNotPending | BkNotAuthorized | BkExpired | BkStale | BkGrantNotLive |
  BkNoCoveringGrant | BkRunCancelled | BkRunNotActive | BkEmergencyStopped |
  BkResumeSuperseded | BkApprovalRequired | BkApprovalNotApplicable | BkApprovalMismatch |
  BkDeclined | BkTargetChanged | BkParametersChanged | BkEvidenceUnavailable | BkCapacity |
  BkNotMember | BkHalted | BkClosed | BkInvalidAction | BkUnavailable | BkPortFenced |
  BkNoBrokerRoute | BkMissionCancelled | BkActionNotHeld | BkApprovalOutcomeUnknown |
  BkFailed | BkCancelled | BkRevoked | BkNotAdmitted | BkNoConsent | BkAlreadyAdmitted |
  BkFileExists | BkChangeTooLargeToShow | BkUnsupportedMountTopology | BkRecoveryRequired |
  BkFactsInvalid | BkFileTypeNotAllowed | BkPageNotInert | BkPageFactMissing |
  BkModelNotRegistered | BkModelIdentityMismatch | BkModelNotLocal | BkModelInvalidAddress |
  BkModelInvalidModelName | BkModelCloudName | BkModelCloudEnabled | BkModelNotInstalled |
  BkModelDigestMismatch | BkModelRuntimeMismatch | BkModelRemote | BkModelConfigMismatch |
  BkModelUnavailable | BkModelTimeout | BkModelRequestTooLarge | BkModelResponseTooLarge |
  BkModelMalformed | BkModelTruncated | BkModelToolCalls | BkModelThinkingLeaked |
  BkModelEmptyContent | BkModelOverBudget | BkModelStopped | BkModelCancelled | BkModelLate |
  BkModelUnsafeDelimiter | BkUnknown

definition BrokerClass_ALL :: "broker_class list" where
  "BrokerClass_ALL = [
     BkUnknownCommitment, BkUnknownRun, BkUnknownGrant, BkUnknownLease, BkWrongAgent,
     BkWrongRun, BkNotPending, BkNotAuthorized, BkExpired, BkStale, BkGrantNotLive,
     BkNoCoveringGrant, BkRunCancelled, BkRunNotActive, BkEmergencyStopped, BkResumeSuperseded,
     BkApprovalRequired, BkApprovalNotApplicable, BkApprovalMismatch, BkDeclined,
     BkTargetChanged, BkParametersChanged, BkEvidenceUnavailable, BkCapacity, BkNotMember,
     BkHalted, BkClosed, BkInvalidAction, BkUnavailable, BkPortFenced, BkNoBrokerRoute,
     BkMissionCancelled, BkActionNotHeld, BkApprovalOutcomeUnknown, BkFailed, BkCancelled,
     BkRevoked, BkNotAdmitted, BkNoConsent, BkAlreadyAdmitted, BkFileExists,
     BkChangeTooLargeToShow, BkUnsupportedMountTopology, BkRecoveryRequired, BkFactsInvalid,
     BkFileTypeNotAllowed, BkPageNotInert, BkPageFactMissing, BkModelNotRegistered,
     BkModelIdentityMismatch, BkModelNotLocal, BkModelInvalidAddress, BkModelInvalidModelName,
     BkModelCloudName, BkModelCloudEnabled, BkModelNotInstalled, BkModelDigestMismatch,
     BkModelRuntimeMismatch, BkModelRemote, BkModelConfigMismatch, BkModelUnavailable,
     BkModelTimeout, BkModelRequestTooLarge, BkModelResponseTooLarge, BkModelMalformed,
     BkModelTruncated, BkModelToolCalls, BkModelThinkingLeaked, BkModelEmptyContent,
     BkModelOverBudget, BkModelStopped, BkModelCancelled, BkModelLate, BkModelUnsafeDelimiter,
     BkUnknown]"

primrec BrokerClass_code :: "broker_class \<Rightarrow> string" where
  "BrokerClass_code BkUnknownCommitment = ''unknown_commitment''"
| "BrokerClass_code BkUnknownRun = ''unknown_run''"
| "BrokerClass_code BkUnknownGrant = ''unknown_grant''"
| "BrokerClass_code BkUnknownLease = ''unknown_lease''"
| "BrokerClass_code BkWrongAgent = ''wrong_agent''"
| "BrokerClass_code BkWrongRun = ''wrong_run''"
| "BrokerClass_code BkNotPending = ''not_pending''"
| "BrokerClass_code BkNotAuthorized = ''not_authorized''"
| "BrokerClass_code BkExpired = ''expired''"
| "BrokerClass_code BkStale = ''stale_policy_generation''"
| "BrokerClass_code BkGrantNotLive = ''grant_not_live''"
| "BrokerClass_code BkNoCoveringGrant = ''no_covering_grant''"
| "BrokerClass_code BkRunCancelled = ''run_cancelled''"
| "BrokerClass_code BkRunNotActive = ''run_not_active''"
| "BrokerClass_code BkEmergencyStopped = ''emergency_stopped''"
| "BrokerClass_code BkResumeSuperseded = ''resume_superseded''"
| "BrokerClass_code BkApprovalRequired = ''approval_required''"
| "BrokerClass_code BkApprovalNotApplicable = ''approval_not_applicable''"
| "BrokerClass_code BkApprovalMismatch = ''approval_mismatch''"
| "BrokerClass_code BkDeclined = ''declined''"
| "BrokerClass_code BkTargetChanged = ''target_changed''"
| "BrokerClass_code BkParametersChanged = ''parameters_changed''"
| "BrokerClass_code BkEvidenceUnavailable = ''evidence_unavailable''"
| "BrokerClass_code BkCapacity = ''capacity''"
| "BrokerClass_code BkNotMember = ''not_member''"
| "BrokerClass_code BkHalted = ''halted''"
| "BrokerClass_code BkClosed = ''closed''"
| "BrokerClass_code BkInvalidAction = ''invalid_action''"
| "BrokerClass_code BkUnavailable = ''unavailable''"
| "BrokerClass_code BkPortFenced = ''port_fenced''"
| "BrokerClass_code BkNoBrokerRoute = ''no_broker_route''"
| "BrokerClass_code BkMissionCancelled = ''mission_cancelled''"
| "BrokerClass_code BkActionNotHeld = ''action_not_held''"
| "BrokerClass_code BkApprovalOutcomeUnknown = ''approval_outcome_unknown''"
| "BrokerClass_code BkFailed = ''failed''"
| "BrokerClass_code BkCancelled = ''cancelled''"
| "BrokerClass_code BkRevoked = ''revoked''"
| "BrokerClass_code BkNotAdmitted = ''not_admitted''"
| "BrokerClass_code BkNoConsent = ''no_consent''"
| "BrokerClass_code BkAlreadyAdmitted = ''already_admitted''"
| "BrokerClass_code BkFileExists = ''file_exists''"
| "BrokerClass_code BkChangeTooLargeToShow = ''change_too_large_to_show''"
| "BrokerClass_code BkUnsupportedMountTopology = ''unsupported_mount_topology''"
| "BrokerClass_code BkRecoveryRequired = ''recovery_required''"
| "BrokerClass_code BkFactsInvalid = ''facts_invalid''"
| "BrokerClass_code BkFileTypeNotAllowed = ''file_type_not_allowed''"
| "BrokerClass_code BkPageNotInert = ''page_not_inert''"
| "BrokerClass_code BkPageFactMissing = ''page_fact_missing''"
| "BrokerClass_code BkModelNotRegistered = ''model_not_registered''"
| "BrokerClass_code BkModelIdentityMismatch = ''model_identity_mismatch''"
| "BrokerClass_code BkModelNotLocal = ''model_not_local''"
| "BrokerClass_code BkModelInvalidAddress = ''model_invalid_address''"
| "BrokerClass_code BkModelInvalidModelName = ''model_invalid_model_name''"
| "BrokerClass_code BkModelCloudName = ''model_cloud_name''"
| "BrokerClass_code BkModelCloudEnabled = ''model_cloud_enabled''"
| "BrokerClass_code BkModelNotInstalled = ''model_not_installed''"
| "BrokerClass_code BkModelDigestMismatch = ''model_digest_mismatch''"
| "BrokerClass_code BkModelRuntimeMismatch = ''model_runtime_mismatch''"
| "BrokerClass_code BkModelRemote = ''model_remote''"
| "BrokerClass_code BkModelConfigMismatch = ''model_config_mismatch''"
| "BrokerClass_code BkModelUnavailable = ''model_unavailable''"
| "BrokerClass_code BkModelTimeout = ''model_timeout''"
| "BrokerClass_code BkModelRequestTooLarge = ''model_request_too_large''"
| "BrokerClass_code BkModelResponseTooLarge = ''model_response_too_large''"
| "BrokerClass_code BkModelMalformed = ''model_malformed''"
| "BrokerClass_code BkModelTruncated = ''model_truncated''"
| "BrokerClass_code BkModelToolCalls = ''model_tool_calls''"
| "BrokerClass_code BkModelThinkingLeaked = ''model_thinking_leaked''"
| "BrokerClass_code BkModelEmptyContent = ''model_empty_content''"
| "BrokerClass_code BkModelOverBudget = ''model_over_budget''"
| "BrokerClass_code BkModelStopped = ''model_stopped''"
| "BrokerClass_code BkModelCancelled = ''model_cancelled''"
| "BrokerClass_code BkModelLate = ''model_late''"
| "BrokerClass_code BkModelUnsafeDelimiter = ''model_unsafe_delimiter''"
| "BrokerClass_code BkUnknown = ''unknown''"

definition BrokerClass_parse :: "string \<Rightarrow> broker_class option" where
  "BrokerClass_parse t = find (\<lambda>c. BrokerClass_code c = t) BrokerClass_ALL"

definition BrokerClass_of :: "string \<Rightarrow> broker_class" where
  "BrokerClass_of t = (case BrokerClass_parse t of Some c \<Rightarrow> c | None \<Rightarrow> BkUnknown)"

text \<open>Why a mission is held.\<close>

datatype held_reason =
  HrUncleanShutdown

definition HeldReason_ALL :: "held_reason list" where
  "HeldReason_ALL = [
     HrUncleanShutdown]"

primrec HeldReason_code :: "held_reason \<Rightarrow> string" where
  "HeldReason_code HrUncleanShutdown = ''unclean_shutdown''"

definition HeldReason_parse :: "string \<Rightarrow> held_reason option" where
  "HeldReason_parse t = find (\<lambda>c. HeldReason_code c = t) HeldReason_ALL"

text \<open>What ended a Files publication's authority after the broker's final check.\<close>

datatype publication_cause =
  PcEmergencyStop | PcCancelled | PcRevoked | PcExpired | PcCommitmentExpired |
  PcWriteGrantRevoked | PcWriteGrantExpired | PcUnknown

definition PublicationCause_ALL :: "publication_cause list" where
  "PublicationCause_ALL = [
     PcEmergencyStop, PcCancelled, PcRevoked, PcExpired, PcCommitmentExpired,
     PcWriteGrantRevoked, PcWriteGrantExpired, PcUnknown]"

primrec PublicationCause_code :: "publication_cause \<Rightarrow> string" where
  "PublicationCause_code PcEmergencyStop = ''emergency_stop''"
| "PublicationCause_code PcCancelled = ''cancelled''"
| "PublicationCause_code PcRevoked = ''revoked''"
| "PublicationCause_code PcExpired = ''expired''"
| "PublicationCause_code PcCommitmentExpired = ''commitment_expired''"
| "PublicationCause_code PcWriteGrantRevoked = ''write_grant_revoked''"
| "PublicationCause_code PcWriteGrantExpired = ''write_grant_expired''"
| "PublicationCause_code PcUnknown = ''unknown''"

definition PublicationCause_parse :: "string \<Rightarrow> publication_cause option" where
  "PublicationCause_parse t = find (\<lambda>c. PublicationCause_code c = t) PublicationCause_ALL"

definition PublicationCause_of :: "string \<Rightarrow> publication_cause" where
  "PublicationCause_of t = (case PublicationCause_parse t of Some c \<Rightarrow> c | None \<Rightarrow> PcUnknown)"


section \<open>The code sets with parameters\<close>

text \<open>Mother's own refusal of a lane's effect.\<close>

datatype mother_refusal =
  MrForbiddenEffect effect_kind | MrBudgetMoneyZero | MrSpendNotSupported |
  MrNoRequestedFolder | MrFileRequestNotRelative | MrFileNameInvalid | MrFileNotText |
  MrFileTooLarge | MrFileTooManyLines | MrFileFolderNotWorkspace

definition FILE_REFUSALS :: "(mother_refusal \<times> string) list" where
  "FILE_REFUSALS = [
     (MrFileNameInvalid, ''file_name_invalid''),
     (MrFileNotText, ''file_not_text''),
     (MrFileTooLarge, ''file_too_large''),
     (MrFileTooManyLines, ''file_too_many_lines''),
     (MrFileFolderNotWorkspace, ''file_folder_not_workspace'')]"

fun MotherRefusal_as_str :: "mother_refusal \<Rightarrow> string" where
  "MotherRefusal_as_str (MrForbiddenEffect k) = ''forbidden_effect:'' @ EffectKind_as_str k"
| "MotherRefusal_as_str MrBudgetMoneyZero = ''budget_money_zero''"
| "MotherRefusal_as_str MrSpendNotSupported = ''spend_not_supported''"
| "MotherRefusal_as_str MrNoRequestedFolder = ''no_requested_folder''"
| "MotherRefusal_as_str MrFileRequestNotRelative = ''file_request_not_relative''"
| "MotherRefusal_as_str file = (case find (\<lambda>p. fst p = file) FILE_REFUSALS of
     Some p \<Rightarrow> snd p | None \<Rightarrow> '''')"

definition MotherRefusal_parse :: "string \<Rightarrow> mother_refusal option" where
  "MotherRefusal_parse t = (case strip_prefix ''forbidden_effect:'' t of
     Some kind \<Rightarrow> map_option MrForbiddenEffect (effect_kind_of kind)
   | None \<Rightarrow>
       if t = ''budget_money_zero'' then Some MrBudgetMoneyZero
       else if t = ''spend_not_supported'' then Some MrSpendNotSupported
       else if t = ''no_requested_folder'' then Some MrNoRequestedFolder
       else if t = ''file_request_not_relative'' then Some MrFileRequestNotRelative
       else map_option fst (find (\<lambda>p. snd p = t) FILE_REFUSALS))"

definition MotherRefusal_every :: "mother_refusal list" where
  "MotherRefusal_every = map MrForbiddenEffect EffectKind_ALL
     @ [MrBudgetMoneyZero, MrSpendNotSupported, MrNoRequestedFolder, MrFileRequestNotRelative]
     @ map fst FILE_REFUSALS"

text \<open>Why a mission was blocked.\<close>

datatype block_reason =
  BlWaitUnknown | BlApprovalNotClosed | BlWaitedRestUnreadable | BlBudgetTime |
  BlBudgetModelCalls | BlLaneIdentityChanged | BlTooManyEffects | BlJournalFailed |
  BlAwaitingOwnerApproval | BlEffectOutcomeUnknown | BlPhaseInterrupted |
  BlLaneHalt lane_role | BlRefused mother_refusal | BlBrokerRefused broker_class |
  BlFilesConsentUnverifiable | BlFilePublicationInterrupted publication_cause |
  BlFilePublicationTimeBudget | BlFilePublicationOwnerStop |
  BlFilePublicationRecoveryRequired | BlFilePublicationUncertain |
  BlFilePublicationDoorHalted | BlFilePublicationApprovalDeadline | BlModelNotPinned |
  BlModelIdentityChanged | BlModelAdmissionRefused | BlReceiptMissing

definition BLOCK_CODES :: "(block_reason \<times> string) list" where
  "BLOCK_CODES = [
     (BlWaitUnknown, ''wait_unknown''),
     (BlApprovalNotClosed, ''approval_not_closed''),
     (BlWaitedRestUnreadable, ''waited_rest_unreadable''),
     (BlBudgetTime, ''budget_time''),
     (BlBudgetModelCalls, ''budget_model_calls''),
     (BlLaneIdentityChanged, ''lane_identity_changed''),
     (BlTooManyEffects, ''too_many_effects''),
     (BlJournalFailed, ''journal_failed''),
     (BlAwaitingOwnerApproval, ''awaiting_owner_approval''),
     (BlEffectOutcomeUnknown, ''effect_outcome_unknown''),
     (BlPhaseInterrupted, ''phase_interrupted''),
     (BlFilesConsentUnverifiable, ''files_consent_unverifiable''),
     (BlFilePublicationTimeBudget, ''file_publication_interrupted:time_budget''),
     (BlFilePublicationOwnerStop, ''file_publication_interrupted:owner_stop''),
     (BlFilePublicationRecoveryRequired, ''file_publication_recovery_required''),
     (BlFilePublicationUncertain, ''file_publication_uncertain''),
     (BlFilePublicationDoorHalted, ''file_publication_interrupted:door_halted''),
     (BlFilePublicationApprovalDeadline, ''file_publication_interrupted:approval_deadline''),
     (BlModelNotPinned, ''model_not_pinned''),
     (BlModelIdentityChanged, ''model_identity_changed''),
     (BlModelAdmissionRefused, ''model_admission_refused''),
     (BlReceiptMissing, ''receipt_missing'')]"

definition block_code :: "block_reason \<Rightarrow> string" where
  "block_code r = (case find (\<lambda>p. fst p = r) BLOCK_CODES of Some p \<Rightarrow> snd p | None \<Rightarrow> '''')"

fun BlockReason_as_str :: "block_reason \<Rightarrow> string" where
  "BlockReason_as_str (BlLaneHalt role) = ''lane_halt:'' @ LaneRole_as_str role"
| "BlockReason_as_str (BlRefused refusal) = MotherRefusal_as_str refusal"
| "BlockReason_as_str (BlBrokerRefused class) = ''broker_refused:'' @ BrokerClass_code class"
| "BlockReason_as_str (BlFilePublicationInterrupted cause) =
     ''file_publication_interrupted:'' @ PublicationCause_code cause"
| "BlockReason_as_str simple = block_code simple"

definition BlockReason_parse :: "string \<Rightarrow> block_reason option" where
  "BlockReason_parse t = (case find (\<lambda>p. snd p = t) BLOCK_CODES of
     Some found \<Rightarrow> Some (fst found)
   | None \<Rightarrow> (case strip_prefix ''lane_halt:'' t of
     Some r \<Rightarrow> map_option BlLaneHalt (role_of r)
   | None \<Rightarrow> (case strip_prefix ''broker_refused:'' t of
     Some class \<Rightarrow> map_option BlBrokerRefused (BrokerClass_parse class)
   | None \<Rightarrow> (case strip_prefix ''file_publication_interrupted:'' t of
     Some cause \<Rightarrow> map_option BlFilePublicationInterrupted (PublicationCause_parse cause)
   | None \<Rightarrow> map_option BlRefused (MotherRefusal_parse t)))))"

definition BlockReason_every :: "block_reason list" where
  "BlockReason_every = map fst BLOCK_CODES @ map BlLaneHalt LaneRole_ALL
     @ map BlRefused MotherRefusal_every @ map BlBrokerRefused BrokerClass_ALL
     @ map BlFilePublicationInterrupted PublicationCause_ALL"

text \<open>Why a mission was stopped.\<close>

datatype stop_reason =
  StOwner | StEmergencyStop | StPrivateContentUnavailable | StDoorHalted | StEnded block_reason

definition StopReason_ALL :: "stop_reason list" where
  "StopReason_ALL = [StOwner, StEmergencyStop, StPrivateContentUnavailable, StDoorHalted]"

fun StopReason_code :: "stop_reason \<Rightarrow> string" where
  "StopReason_code StOwner = ''owner''"
| "StopReason_code StEmergencyStop = ''emergency_stop''"
| "StopReason_code StPrivateContentUnavailable = ''private_content_unavailable''"
| "StopReason_code StDoorHalted = ''door_halted''"
| "StopReason_code (StEnded r) = ''ended''"

fun StopReason_as_str :: "stop_reason \<Rightarrow> string" where
  "StopReason_as_str (StEnded r) = ''ended:'' @ BlockReason_as_str r"
| "StopReason_as_str r = StopReason_code r"

definition StopReason_parse :: "string \<Rightarrow> stop_reason option" where
  "StopReason_parse t = (case strip_prefix ''ended:'' t of
     Some r \<Rightarrow> map_option StEnded (BlockReason_parse r)
   | None \<Rightarrow> find (\<lambda>v. StopReason_code v = t) StopReason_ALL)"

definition StopReason_every :: "stop_reason list" where
  "StopReason_every = StopReason_ALL @ map StEnded BlockReason_every"

text \<open>Why the Verifier failed a mission.\<close>

datatype verify_code = VcIdentity | VcCheck check_code

datatype verify_fail_reason = VfVerifierFailed | VfVerifierGaveNoVerdict | VfCheck verify_code

fun VerifyCode_as_str :: "verify_code \<Rightarrow> string" where
  "VerifyCode_as_str VcIdentity = ''verification_identity''"
| "VerifyCode_as_str (VcCheck c) = CheckCode_display c"

text \<open>\<open>POLICY_V1.facts_hours_max_lines\<close>.\<close>

definition facts_hours_max_lines :: nat where
  "facts_hours_max_lines = 7"

definition check_codes :: "(check_id \<times> check_code) list" where
  "check_codes = [(V0, CkNoPublication), (V1, CkPublishedMismatch)]
     @ map (\<lambda>c. (V2, CkPageNotInert c)) RefusalCode_CODES
     @ [(V2, CkPolicyChanged)]
     @ [(V3, CkFactMissing FcNameNotHeading), (V3, CkFactMissing FcNameNotTitle)]
     @ map (\<lambda>i. (V3, CkFactMissing (FcHoursLineMissing i))) [0..<facts_hours_max_lines]
     @ [(V3, CkFactMissing FcPhoneMissing), (V3, CkFactMissing FcForeignNumber)]
     @ [(V4, CkNameNotVisible)]
     @ map (\<lambda>i. (V4, CkHoursLineNotVisible i)) [0..<facts_hours_max_lines]
     @ [(V4, CkPhoneNotVisible), (V4, CkReaderUnsupported)]
     @ [(V5, CkEmailNotSupported)]"

definition is_check_result :: "check_id \<Rightarrow> string \<Rightarrow> bool" where
  "is_check_result ident code \<longleftrightarrow> code \<in> {''pass'', ''not_run''}
     \<or> (case strip_prefix ''fail:'' code of
          Some c \<Rightarrow> list_ex (\<lambda>(of_id, k). of_id = ident \<and> CheckCode_display k = c) check_codes
        | None \<Rightarrow> False)"

fun VerifyFailReason_as_str :: "verify_fail_reason \<Rightarrow> string" where
  "VerifyFailReason_as_str VfVerifierFailed = ''verifier_fail''"
| "VerifyFailReason_as_str VfVerifierGaveNoVerdict = ''verifier_gave_no_verdict''"
| "VerifyFailReason_as_str (VfCheck c) = ''check:'' @ VerifyCode_as_str c"

definition VerifyFailReason_every :: "verify_fail_reason list" where
  "VerifyFailReason_every = [VfVerifierFailed, VfVerifierGaveNoVerdict, VfCheck VcIdentity]
     @ map (\<lambda>(i, c). VfCheck (VcCheck c)) check_codes"

definition VerifyFailReason_parse :: "string \<Rightarrow> verify_fail_reason option" where
  "VerifyFailReason_parse t = find (\<lambda>r. VerifyFailReason_as_str r = t) VerifyFailReason_every"

text \<open>Why a lane failed a mission.\<close>

datatype fail_reason =
  FrLaneFail lane_role | FrReceiptMissing | FrReceiptPolicyMissing | FrDeliverableInvalid

definition PROOF_FAILS :: "(fail_reason \<times> string) list" where
  "PROOF_FAILS = [(FrReceiptMissing, ''receipt_missing''),
     (FrReceiptPolicyMissing, ''receipt_policy_missing''),
     (FrDeliverableInvalid, ''deliverable_invalid'')]"

fun FailReason_as_str :: "fail_reason \<Rightarrow> string" where
  "FailReason_as_str (FrLaneFail role) = ''lane_fail:'' @ LaneRole_as_str role"
| "FailReason_as_str proof_fail = (case find (\<lambda>p. fst p = proof_fail) PROOF_FAILS of
     Some p \<Rightarrow> snd p | None \<Rightarrow> '''')"

definition FailReason_parse :: "string \<Rightarrow> fail_reason option" where
  "FailReason_parse t = (case find (\<lambda>p. snd p = t) PROOF_FAILS of
     Some p \<Rightarrow> Some (fst p)
   | None \<Rightarrow> (case strip_prefix ''lane_fail:'' t of
     None \<Rightarrow> None
   | Some r \<Rightarrow> map_option FrLaneFail (role_of r)))"

definition FailReason_every :: "fail_reason list" where
  "FailReason_every = map FrLaneFail LaneRole_ALL @ map fst PROOF_FAILS"

text \<open>Why a waited action will not run.\<close>

datatype lapse_reason = LrApprovalExpired | LrApprovalLapsed broker_class | LrEnded block_reason

fun LapseReason_as_str :: "lapse_reason \<Rightarrow> string" where
  "LapseReason_as_str LrApprovalExpired = ''approval_expired''"
| "LapseReason_as_str (LrApprovalLapsed class) = ''approval_lapsed:'' @ BrokerClass_code class"
| "LapseReason_as_str (LrEnded r) = BlockReason_as_str r"

definition LapseReason_parse :: "string \<Rightarrow> lapse_reason option" where
  "LapseReason_parse t = (if t = ''approval_expired'' then Some LrApprovalExpired
     else case strip_prefix ''approval_lapsed:'' t of
       Some class \<Rightarrow> map_option LrApprovalLapsed (BrokerClass_parse class)
     | None \<Rightarrow> map_option LrEnded (BlockReason_parse t))"

definition LapseReason_every :: "lapse_reason list" where
  "LapseReason_every = [LrApprovalExpired] @ map LrApprovalLapsed BrokerClass_ALL
     @ map LrEnded BlockReason_every"

text \<open>Why a consent answer was not taken.\<close>

datatype consent_refused_reason = CrMissionChanged | CrAnotherRequest | CrBrokerRefused broker_class

fun ConsentRefusedReason_as_str :: "consent_refused_reason \<Rightarrow> string" where
  "ConsentRefusedReason_as_str CrMissionChanged = ''mission_changed''"
| "ConsentRefusedReason_as_str CrAnotherRequest = ''another_request''"
| "ConsentRefusedReason_as_str (CrBrokerRefused class) = ''broker_refused:'' @ BrokerClass_code class"

definition ConsentRefusedReason_parse :: "string \<Rightarrow> consent_refused_reason option" where
  "ConsentRefusedReason_parse t =
     (if t = ''mission_changed'' then Some CrMissionChanged
      else if t = ''another_request'' then Some CrAnotherRequest
      else case strip_prefix ''broker_refused:'' t of
        None \<Rightarrow> None
      | Some class \<Rightarrow> map_option CrBrokerRefused (BrokerClass_parse class))"

definition ConsentRefusedReason_every :: "consent_refused_reason list" where
  "ConsentRefusedReason_every =
     [CrMissionChanged, CrAnotherRequest] @ map CrBrokerRefused BrokerClass_ALL"

text \<open>What the port said of a dispatched effect.\<close>

datatype settled_outcome = SdDone | SdAwaitingApproval | SdRefused broker_class

fun SettledOutcome_as_str :: "settled_outcome \<Rightarrow> string" where
  "SettledOutcome_as_str SdDone = ''done''"
| "SettledOutcome_as_str SdAwaitingApproval = ''awaiting_approval''"
| "SettledOutcome_as_str (SdRefused class) = ''refused:'' @ BrokerClass_code class"

definition SettledOutcome_parse :: "string \<Rightarrow> settled_outcome option" where
  "SettledOutcome_parse t =
     (if t = ''done'' then Some SdDone
      else if t = ''awaiting_approval'' then Some SdAwaitingApproval
      else case strip_prefix ''refused:'' t of
        None \<Rightarrow> None
      | Some class \<Rightarrow> map_option SdRefused (BrokerClass_parse class))"

definition SettledOutcome_every :: "settled_outcome list" where
  "SettledOutcome_every = [SdDone, SdAwaitingApproval] @ map SdRefused BrokerClass_ALL"

text \<open>Why a File's settlement began, what it found and how it ends the mission.\<close>

datatype settle_cause = ScStop stop_reason | ScTimeBudget | ScEnded block_reason

fun SettleCause_as_str :: "settle_cause \<Rightarrow> string" where
  "SettleCause_as_str (ScStop r) = ''stop:'' @ StopReason_as_str r"
| "SettleCause_as_str ScTimeBudget = ''time_budget''"
| "SettleCause_as_str (ScEnded r) = ''ended:'' @ BlockReason_as_str r"

definition SettleCause_parse :: "string \<Rightarrow> settle_cause option" where
  "SettleCause_parse t = (if t = ''time_budget'' then Some ScTimeBudget
     else case strip_prefix ''stop:'' t of
       Some r \<Rightarrow> map_option ScStop (StopReason_parse r)
     | None \<Rightarrow> (case strip_prefix ''ended:'' t of
         None \<Rightarrow> None
       | Some r \<Rightarrow> map_option ScEnded (BlockReason_parse r)))"

definition SettleCause_every :: "settle_cause list" where
  "SettleCause_every = map ScStop StopReason_every @ [ScTimeBudget] @ map ScEnded BlockReason_every"

datatype settlement_outcome =
  SoPublished (recovery_required: bool) (interrupted: "publication_cause list") |
  SoNotPublished | SoUncertain

datatype settlement_end = SeBlock block_reason | SeStop stop_reason

fun SettlementEnd_as_str :: "settlement_end \<Rightarrow> string" where
  "SettlementEnd_as_str (SeBlock r) = BlockReason_as_str r"
| "SettlementEnd_as_str (SeStop r) = StopReason_as_str r"

text \<open>The interruption code of a published File under its first cause.\<close>

fun published_block :: "settle_cause \<Rightarrow> block_reason" where
  "published_block (ScStop StOwner) = BlFilePublicationOwnerStop"
| "published_block (ScStop StEmergencyStop) = BlFilePublicationInterrupted PcEmergencyStop"
| "published_block (ScStop StDoorHalted) = BlFilePublicationDoorHalted"
| "published_block (ScStop StPrivateContentUnavailable) = BlFilePublicationInterrupted PcUnknown"
| "published_block ScTimeBudget = BlFilePublicationTimeBudget"
| "published_block (ScStop (StEnded r)) =
     (if r = BlBudgetTime then BlFilePublicationTimeBudget else r)"
| "published_block (ScEnded r) = r"

fun SettleCause_end :: "settle_cause \<Rightarrow> settlement_outcome \<Rightarrow> settlement_end" where
  "SettleCause_end c SoUncertain = SeBlock BlFilePublicationUncertain"
| "SettleCause_end c (SoPublished recovery causes) =
     (if recovery then SeBlock BlFilePublicationRecoveryRequired else SeBlock (published_block c))"
| "SettleCause_end c SoNotPublished = (case c of
     ScStop r \<Rightarrow> SeStop r | ScTimeBudget \<Rightarrow> SeBlock BlBudgetTime | ScEnded r \<Rightarrow> SeBlock r)"

definition conclusive :: "settlement_outcome \<Rightarrow> bool" where
  "conclusive out \<longleftrightarrow> out \<noteq> SoUncertain"

fun ordinary_end :: "settlement_outcome \<Rightarrow> settlement_end option" where
  "ordinary_end SoUncertain = Some (SeBlock BlFilePublicationUncertain)"
| "ordinary_end (SoPublished recovery causes) =
     (if recovery then Some (SeBlock BlFilePublicationRecoveryRequired)
      else case causes of [] \<Rightarrow> None
        | c # _ \<Rightarrow> Some (SeBlock (BlFilePublicationInterrupted c)))"
| "ordinary_end SoNotPublished = None"

fun deadline_end :: "settlement_outcome \<Rightarrow> settlement_end option" where
  "deadline_end (SoPublished False []) = Some (SeBlock BlFilePublicationApprovalDeadline)"
| "deadline_end other = ordinary_end other"


section \<open>Digests and sizes\<close>

definition is_digest :: "string \<Rightarrow> bool" where
  "is_digest t \<longleftrightarrow> length t = 64
     \<and> list_all (\<lambda>b. is_ascii_digit b \<or> (97 \<le> (of_char b :: nat) \<and> (of_char b :: nat) \<le> 102)) t"

definition MAX_PRIVATE_BYTES :: nat where
  "MAX_PRIVATE_BYTES = 2 ^ 20"

definition is_size :: "nat \<Rightarrow> bool" where
  "is_size n \<longleftrightarrow> n \<le> MAX_PRIVATE_BYTES"


section \<open>The contract of a code type\<close>

text \<open>Every code type promises the same: its parser answers exactly the values of its registry, each
  from exactly the text it prints. The clients (the journal's reader and the Owner's views) rely on
  nothing else: no other text becomes a code, no code prints empty or as another one, and a printed
  code reads back.\<close>

locale coded =
  fixes as_str :: "'a \<Rightarrow> string" and parse :: "string \<Rightarrow> 'a option" and every :: "'a list"
  assumes parse_iff: "parse t = Some v \<longleftrightarrow> v \<in> set every \<and> as_str v = t"
begin

lemma parse_as_str: "v \<in> set every \<Longrightarrow> parse (as_str v) = Some v"
  by (simp add: parse_iff)

lemma as_str_inj: "v \<in> set every \<Longrightarrow> w \<in> set every \<Longrightarrow> as_str v = as_str w \<longleftrightarrow> v = w"
  by (metis parse_as_str option.inject)

lemma parse_closed: "parse t = None \<longleftrightarrow> t \<notin> as_str ` set every"
  by (metis (no_types, lifting) image_iff not_Some_eq parse_iff)

end

text \<open>A parser that searches a duplicate-free registry meets the contract.\<close>

lemma find_distinct:
  assumes "distinct (map f xs)"
  shows "find (\<lambda>x. f x = t) xs = Some v \<longleftrightarrow> v \<in> set xs \<and> f v = t"
  using assms by (induction xs) (auto simp: image_iff)

lemma coded_find:
  "distinct (map f xs) \<Longrightarrow> coded f (\<lambda>t. find (\<lambda>x. f x = t) xs) xs"
  by (rule coded.intro) (rule find_distinct)

lemmas code_lists = LaneRole_ALL_def EffectKind_ALL_def RefusalCode_CODES_def CheckId_ALL_def
  BrokerClass_ALL_def HeldReason_ALL_def PublicationCause_ALL_def StopReason_ALL_def
  FILE_REFUSALS_def BLOCK_CODES_def PROOF_FAILS_def

interpretation role_codes: code_table LaneRole_ALL LaneRole_as_str
proof unfold_locales
  show "x \<in> set LaneRole_ALL" for x by (cases x) (simp_all add: LaneRole_ALL_def)
  show "distinct (map LaneRole_as_str LaneRole_ALL)" by (simp add: LaneRole_ALL_def)
qed

interpretation kind_codes: code_table EffectKind_ALL EffectKind_as_str
proof unfold_locales
  show "x \<in> set EffectKind_ALL" for x by (cases x) (simp_all add: EffectKind_ALL_def)
  show "distinct (map EffectKind_as_str EffectKind_ALL)" by (simp add: EffectKind_ALL_def)
qed

interpretation refusal_codes: code_table RefusalCode_CODES RefusalCode_as_str
proof unfold_locales
  show "x \<in> set RefusalCode_CODES" for x by (cases x) (simp_all add: RefusalCode_CODES_def)
  show "distinct (map RefusalCode_as_str RefusalCode_CODES)" by (simp add: RefusalCode_CODES_def)
qed

interpretation broker_codes: code_table BrokerClass_ALL BrokerClass_code
proof unfold_locales
  show "x \<in> set BrokerClass_ALL" for x by (cases x) (simp_all add: BrokerClass_ALL_def)
  show "distinct (map BrokerClass_code BrokerClass_ALL)" by (simp add: BrokerClass_ALL_def)
qed

interpretation held_codes: code_table HeldReason_ALL HeldReason_code
proof unfold_locales
  show "x \<in> set HeldReason_ALL" for x by (cases x) (simp_all add: HeldReason_ALL_def)
  show "distinct (map HeldReason_code HeldReason_ALL)" by (simp add: HeldReason_ALL_def)
qed

interpretation cause_codes: code_table PublicationCause_ALL PublicationCause_code
proof unfold_locales
  show "x \<in> set PublicationCause_ALL" for x by (cases x) (simp_all add: PublicationCause_ALL_def)
  show "distinct (map PublicationCause_code PublicationCause_ALL)"
    by (simp add: PublicationCause_ALL_def)
qed

lemma role_of_iff: "role_of t = Some r \<longleftrightarrow> LaneRole_as_str r = t"
  by (simp add: role_of_def role_codes.find_code)

lemma effect_kind_of_iff: "effect_kind_of t = Some k \<longleftrightarrow> EffectKind_as_str k = t"
  by (simp add: effect_kind_of_def kind_codes.find_code)

lemma BrokerClass_parse_iff: "BrokerClass_parse t = Some c \<longleftrightarrow> BrokerClass_code c = t"
  by (simp add: BrokerClass_parse_def broker_codes.find_code)

lemma HeldReason_parse_iff: "HeldReason_parse t = Some c \<longleftrightarrow> HeldReason_code c = t"
  by (simp add: HeldReason_parse_def held_codes.find_code)

lemma PublicationCause_parse_iff: "PublicationCause_parse t = Some c \<longleftrightarrow> PublicationCause_code c = t"
  by (simp add: PublicationCause_parse_def cause_codes.find_code)

lemmas code_parse_iffs = role_of_iff effect_kind_of_iff BrokerClass_parse_iff
  PublicationCause_parse_iff

end
