(* ===== verification/Mother_Codes_Props.thy ===== *)
theory Mother_Codes_Props
  imports Mother_Codes
begin

text \<open>The contract \<open>coded\<close> of Mother's code types, discharged for each of them, the completeness of
  their registries, and how a settlement ends.\<close>


section \<open>Codes with parameters\<close>

text \<open>A table of codes answers, for each of its rows, the row's own text.\<close>

lemma find_tableD: "find (\<lambda>p. snd p = t) table = Some p \<Longrightarrow> p \<in> set table \<and> snd p = t"
  by (auto simp: find_Some_iff)

lemma round_trip_iff:
  assumes "\<And>v. parse (as_str v) = Some v"
    and "parse t = Some r \<Longrightarrow> as_str r = t"
  shows "parse t = Some r \<longleftrightarrow> as_str r = t"
  using assms by blast

lemma FILE_REFUSALS_as_str: "(r, t) \<in> set FILE_REFUSALS \<Longrightarrow> MotherRefusal_as_str r = t"
  by (auto simp: FILE_REFUSALS_def)

lemma MotherRefusal_parse_as_str: "MotherRefusal_parse (MotherRefusal_as_str r) = Some r"
  by (cases r) (simp_all add: MotherRefusal_parse_def effect_kind_of_iff FILE_REFUSALS_def)

lemma MotherRefusal_parse_iff: "MotherRefusal_parse t = Some r \<longleftrightarrow> MotherRefusal_as_str r = t"
  by (rule round_trip_iff, rule MotherRefusal_parse_as_str)
    (auto simp: MotherRefusal_parse_def effect_kind_of_iff FILE_REFUSALS_as_str
        split: option.split_asm if_split_asm dest!: find_tableD)


lemma MotherRefusal_every_complete: "r \<in> set MotherRefusal_every"
  by (cases r) (simp_all add: MotherRefusal_every_def FILE_REFUSALS_def kind_codes.all_complete)

lemma BLOCK_CODES_as_str: "(r, t) \<in> set BLOCK_CODES \<Longrightarrow> BlockReason_as_str r = t"
proof -
  have "list_all (\<lambda>(r, t). BlockReason_as_str r = t) BLOCK_CODES"
    by (simp add: BLOCK_CODES_def block_code_def)
  then show "(r, t) \<in> set BLOCK_CODES \<Longrightarrow> BlockReason_as_str r = t"
    by (auto simp: list_all_iff)
qed

text \<open>No table code is Mother's refusal of an effect or a cause of the publication registry.\<close>

lemma block_table_refused: "find (\<lambda>p. snd p = MotherRefusal_as_str r) BLOCK_CODES = None"
  by (cases r) (simp_all add: BLOCK_CODES_def FILE_REFUSALS_def)

lemma block_table_interrupted:
  "find (\<lambda>p. snd p = ''file_publication_interrupted:'' @ PublicationCause_code c) BLOCK_CODES = None"
  by (cases c) (simp_all add: BLOCK_CODES_def)

lemma strip_refused:
  "strip_prefix ''lane_halt:'' (MotherRefusal_as_str r) = None"
  "strip_prefix ''broker_refused:'' (MotherRefusal_as_str r) = None"
  "strip_prefix ''file_publication_interrupted:'' (MotherRefusal_as_str r) = None"
  by (cases r; simp add: FILE_REFUSALS_def)+

lemma BlockReason_parse_as_str: "BlockReason_parse (BlockReason_as_str r) = Some r"
proof (cases r)
  case (BlLaneHalt x)
  then show ?thesis by (simp add: BlockReason_parse_def BLOCK_CODES_def role_of_iff)
next
  case (BlRefused x)
  then show ?thesis
    by (simp add: BlockReason_parse_def block_table_refused strip_refused MotherRefusal_parse_as_str)
next
  case (BlBrokerRefused x)
  then show ?thesis by (simp add: BlockReason_parse_def BLOCK_CODES_def BrokerClass_parse_iff)
next
  case (BlFilePublicationInterrupted x)
  then show ?thesis
    using block_table_interrupted [of x]
    by (simp add: BlockReason_parse_def PublicationCause_parse_iff)
qed (simp_all add: BlockReason_parse_def BLOCK_CODES_def block_code_def)

lemma BlockReason_parse_iff: "BlockReason_parse t = Some r \<longleftrightarrow> BlockReason_as_str r = t"
  by (rule round_trip_iff, rule BlockReason_parse_as_str)
    (auto simp: BlockReason_parse_def code_parse_iffs MotherRefusal_parse_iff BLOCK_CODES_as_str
        split: option.split_asm dest!: find_tableD)

lemma BlockReason_every_complete: "r \<in> set BlockReason_every"
  by (cases r) (simp_all add: BlockReason_every_def BLOCK_CODES_def role_codes.all_complete
      MotherRefusal_every_complete broker_codes.all_complete cause_codes.all_complete)

lemma StopReason_parse_as_str: "StopReason_parse (StopReason_as_str r) = Some r"
  by (cases r) (simp_all add: StopReason_parse_def StopReason_ALL_def BlockReason_parse_iff)

lemma StopReason_parse_iff: "StopReason_parse t = Some r \<longleftrightarrow> StopReason_as_str r = t"
  by (rule round_trip_iff, rule StopReason_parse_as_str)
    (auto simp: StopReason_parse_def StopReason_ALL_def BlockReason_parse_iff split: option.split_asm if_split_asm)

lemma StopReason_every_complete: "r \<in> set StopReason_every"
  by (cases r) (simp_all add: StopReason_every_def StopReason_ALL_def BlockReason_every_complete)

lemma FailReason_parse_as_str: "FailReason_parse (FailReason_as_str r) = Some r"
  by (cases r) (simp_all add: FailReason_parse_def PROOF_FAILS_def role_of_iff)

lemma PROOF_FAILS_as_str: "(r, t) \<in> set PROOF_FAILS \<Longrightarrow> FailReason_as_str r = t"
  by (auto simp: PROOF_FAILS_def)

lemma FailReason_parse_iff: "FailReason_parse t = Some r \<longleftrightarrow> FailReason_as_str r = t"
  by (rule round_trip_iff, rule FailReason_parse_as_str)
    (auto simp: FailReason_parse_def role_of_iff PROOF_FAILS_as_str split: option.split_asm dest!: find_tableD)

lemma FailReason_every_complete: "r \<in> set FailReason_every"
  by (cases r) (simp_all add: FailReason_every_def PROOF_FAILS_def role_codes.all_complete)

text \<open>A blocked reason never prints as an expired or lapsed approval.\<close>

lemma block_not_approval:
  "BlockReason_as_str r \<noteq> ''approval_expired''"
  "strip_prefix ''approval_lapsed:'' (BlockReason_as_str r) = None"
proof -
  have "BlockReason_as_str r \<noteq> ''approval_expired''
    \<and> strip_prefix ''approval_lapsed:'' (BlockReason_as_str r) = None"
  proof (cases r)
    case (BlRefused x)
    then show ?thesis by (cases x) (simp_all add: FILE_REFUSALS_def)
  qed (simp_all add: block_code_def BLOCK_CODES_def)
  then show "BlockReason_as_str r \<noteq> ''approval_expired''"
    "strip_prefix ''approval_lapsed:'' (BlockReason_as_str r) = None"
    by blast+
qed

lemma LapseReason_parse_as_str: "LapseReason_parse (LapseReason_as_str r) = Some r"
  by (cases r) (simp_all add: LapseReason_parse_def BrokerClass_parse_iff BlockReason_parse_iff
      block_not_approval)

lemma LapseReason_parse_iff: "LapseReason_parse t = Some r \<longleftrightarrow> LapseReason_as_str r = t"
  by (rule round_trip_iff, rule LapseReason_parse_as_str)
    (auto simp: LapseReason_parse_def BrokerClass_parse_iff BlockReason_parse_iff split: option.split_asm if_split_asm)

lemma LapseReason_every_complete: "r \<in> set LapseReason_every"
  by (cases r) (simp_all add: LapseReason_every_def broker_codes.all_complete
      BlockReason_every_complete)

lemma ConsentRefusedReason_parse_as_str: "ConsentRefusedReason_parse (ConsentRefusedReason_as_str r) = Some r"
  by (cases r) (simp_all add: ConsentRefusedReason_parse_def BrokerClass_parse_iff)

lemma ConsentRefusedReason_parse_iff: "ConsentRefusedReason_parse t = Some r \<longleftrightarrow> ConsentRefusedReason_as_str r = t"
  by (rule round_trip_iff, rule ConsentRefusedReason_parse_as_str)
    (auto simp: ConsentRefusedReason_parse_def BrokerClass_parse_iff split: option.split_asm if_split_asm)

lemma SettledOutcome_parse_as_str: "SettledOutcome_parse (SettledOutcome_as_str r) = Some r"
  by (cases r) (simp_all add: SettledOutcome_parse_def BrokerClass_parse_iff)

lemma SettledOutcome_parse_iff: "SettledOutcome_parse t = Some r \<longleftrightarrow> SettledOutcome_as_str r = t"
  by (rule round_trip_iff, rule SettledOutcome_parse_as_str)
    (auto simp: SettledOutcome_parse_def BrokerClass_parse_iff split: option.split_asm if_split_asm)

lemma SettleCause_parse_as_str: "SettleCause_parse (SettleCause_as_str r) = Some r"
  by (cases r) (simp_all add: SettleCause_parse_def StopReason_parse_iff BlockReason_parse_iff)

lemma SettleCause_parse_iff: "SettleCause_parse t = Some r \<longleftrightarrow> SettleCause_as_str r = t"
  by (rule round_trip_iff, rule SettleCause_parse_as_str)
    (auto simp: SettleCause_parse_def StopReason_parse_iff BlockReason_parse_iff split: option.split_asm if_split_asm)

lemma check_code_texts_distinct: "distinct (map VerifyFailReason_as_str VerifyFailReason_every)"
  by (simp add: VerifyFailReason_every_def check_codes_def RefusalCode_CODES_def FactCode_as_str_def
      FactCode_CODES_def facts_hours_max_lines_def upt_rec decimal.simps)

lemma VerifyFailReason_parse_iff:
  "VerifyFailReason_parse t = Some r \<longleftrightarrow> r \<in> set VerifyFailReason_every \<and> VerifyFailReason_as_str r = t"
  unfolding VerifyFailReason_parse_def by (rule find_distinct [OF check_code_texts_distinct])

lemmas every_complete = MotherRefusal_every_complete BlockReason_every_complete
  StopReason_every_complete FailReason_every_complete LapseReason_every_complete
  broker_codes.all_complete held_codes.all_complete cause_codes.all_complete

lemma ConsentRefusedReason_every_complete: "r \<in> set ConsentRefusedReason_every"
  by (cases r) (simp_all add: ConsentRefusedReason_every_def broker_codes.all_complete)

lemma SettledOutcome_every_complete: "r \<in> set SettledOutcome_every"
  by (cases r) (simp_all add: SettledOutcome_every_def broker_codes.all_complete)

lemma SettleCause_every_complete: "r \<in> set SettleCause_every"
  by (cases r) (simp_all add: SettleCause_every_def StopReason_every_complete
      BlockReason_every_complete)


section \<open>The contract holds for every code type\<close>

interpretation broker: coded BrokerClass_code BrokerClass_parse BrokerClass_ALL
  by unfold_locales (simp add: BrokerClass_parse_iff every_complete)

interpretation held: coded HeldReason_code HeldReason_parse HeldReason_ALL
  by unfold_locales (simp add: HeldReason_parse_iff every_complete)

interpretation cause: coded PublicationCause_code PublicationCause_parse PublicationCause_ALL
  by unfold_locales (simp add: PublicationCause_parse_iff every_complete)

interpretation mrefusal: coded MotherRefusal_as_str MotherRefusal_parse MotherRefusal_every
  by unfold_locales (simp add: MotherRefusal_parse_iff every_complete)

interpretation blocked: coded BlockReason_as_str BlockReason_parse BlockReason_every
  by unfold_locales (simp add: BlockReason_parse_iff every_complete)

interpretation stopped: coded StopReason_as_str StopReason_parse StopReason_every
  by unfold_locales (simp add: StopReason_parse_iff every_complete)

interpretation failed: coded FailReason_as_str FailReason_parse FailReason_every
  by unfold_locales (simp add: FailReason_parse_iff every_complete)

interpretation lapsed: coded LapseReason_as_str LapseReason_parse LapseReason_every
  by unfold_locales (simp add: LapseReason_parse_iff every_complete)

interpretation crefused: coded
  ConsentRefusedReason_as_str ConsentRefusedReason_parse ConsentRefusedReason_every
  by unfold_locales (simp add: ConsentRefusedReason_parse_iff ConsentRefusedReason_every_complete)

interpretation soutcome: coded SettledOutcome_as_str SettledOutcome_parse SettledOutcome_every
  by unfold_locales (simp add: SettledOutcome_parse_iff SettledOutcome_every_complete)

interpretation scause: coded SettleCause_as_str SettleCause_parse SettleCause_every
  by unfold_locales (simp add: SettleCause_parse_iff SettleCause_every_complete)

interpretation vfail: coded
  VerifyFailReason_as_str VerifyFailReason_parse VerifyFailReason_every
  by unfold_locales (rule VerifyFailReason_parse_iff)

lemma check_texts_inj:
  assumes "(i, k) \<in> set check_codes" "(j, l) \<in> set check_codes"
    and "CheckCode_display k = CheckCode_display l"
  shows "k = l"
proof -
  have "VfCheck (VcCheck k) \<in> set VerifyFailReason_every" "VfCheck (VcCheck l) \<in> set VerifyFailReason_every"
    using assms(1,2) by (force simp: VerifyFailReason_every_def)+
  then have "VfCheck (VcCheck k) = VfCheck (VcCheck l)"
    using assms(3) vfail.as_str_inj [of "VfCheck (VcCheck k)" "VfCheck (VcCheck l)"] by simp
  then show ?thesis by simp
qed

lemma check_code_one_check: "(i, k) \<in> set check_codes \<Longrightarrow> (j, k) \<in> set check_codes \<Longrightarrow> i = j"
  by (cases k) (auto simp: check_codes_def)

text \<open>C21: the codes of the records are closed. Each code type reads exactly the texts it prints, each
  as the value that printed it, and its registry lists every value (a page check's failure reads
  back when it is one of the registry); whatever a broker or a port says becomes a class of the
  registry, and only a text of the registry becomes other than unknown.\<close>

theorem closed_codes:
  "(BrokerClass_parse t = Some c \<longleftrightarrow> BrokerClass_code c = t)
   \<and> (HeldReason_parse t = Some h \<longleftrightarrow> HeldReason_code h = t)
   \<and> (PublicationCause_parse t = Some p \<longleftrightarrow> PublicationCause_code p = t)
   \<and> (MotherRefusal_parse t = Some m \<longleftrightarrow> MotherRefusal_as_str m = t)
   \<and> (BlockReason_parse t = Some b \<longleftrightarrow> BlockReason_as_str b = t)
   \<and> (StopReason_parse t = Some s \<longleftrightarrow> StopReason_as_str s = t)
   \<and> (FailReason_parse t = Some f \<longleftrightarrow> FailReason_as_str f = t)
   \<and> (LapseReason_parse t = Some l \<longleftrightarrow> LapseReason_as_str l = t)
   \<and> (ConsentRefusedReason_parse t = Some r \<longleftrightarrow> ConsentRefusedReason_as_str r = t)
   \<and> (SettledOutcome_parse t = Some d \<longleftrightarrow> SettledOutcome_as_str d = t)
   \<and> (SettleCause_parse t = Some e \<longleftrightarrow> SettleCause_as_str e = t)
   \<and> (VerifyFailReason_parse t = Some v \<longleftrightarrow>
        v \<in> set VerifyFailReason_every \<and> VerifyFailReason_as_str v = t)
   \<and> (BrokerClass_of t = c \<longleftrightarrow>
        BrokerClass_code c = t \<or> c = BkUnknown \<and> t \<notin> BrokerClass_code ` set BrokerClass_ALL)
   \<and> b \<in> set BlockReason_every \<and> s \<in> set StopReason_every \<and> m \<in> set MotherRefusal_every
   \<and> f \<in> set FailReason_every \<and> l \<in> set LapseReason_every \<and> e \<in> set SettleCause_every"
  using broker.parse_closed [of t]
  by (auto simp: BrokerClass_parse_iff HeldReason_parse_iff PublicationCause_parse_iff
      MotherRefusal_parse_iff BlockReason_parse_iff StopReason_parse_iff FailReason_parse_iff
      LapseReason_parse_iff ConsentRefusedReason_parse_iff SettledOutcome_parse_iff
      SettleCause_parse_iff VerifyFailReason_parse_iff every_complete SettleCause_every_complete
      BrokerClass_of_def broker_codes.code_inj split: option.split)

text \<open>A journaled page check names its own failure. A result that two checks may both journal is
  "pass" or "not_run"; a failure code belongs to one check and to one reason of the registry.\<close>

lemma check_result_one_check:
  assumes "is_check_result i t" and "is_check_result j t" and "t \<notin> {''pass'', ''not_run''}"
  shows "i = j \<and> (\<exists>!k. (i, k) \<in> set check_codes \<and> t = ''fail:'' @ CheckCode_display k)"
proof -
  obtain u where t: "strip_prefix ''fail:'' t = Some u"
    using assms(1,3) by (auto simp: is_check_result_def split: option.split_asm)
  then obtain k l where k: "(i, k) \<in> set check_codes" "CheckCode_display k = u"
    and l: "(j, l) \<in> set check_codes" "CheckCode_display l = u"
    using assms by (auto simp: is_check_result_def list_ex_iff)
  then have "k = l" using check_texts_inj by blast
  then have "i = j" using k l check_code_one_check by blast
  moreover have "\<exists>!k. (i, k) \<in> set check_codes \<and> t = ''fail:'' @ CheckCode_display k"
  proof (rule ex1I [where a = k])
    show "(i, k) \<in> set check_codes \<and> t = ''fail:'' @ CheckCode_display k" using k t by simp
    show "k' = k" if "(i, k') \<in> set check_codes \<and> t = ''fail:'' @ CheckCode_display k'" for k'
      using that k t check_texts_inj by auto
  qed
  ultimately show ?thesis by blast
qed

lemma check_result_one_check_sample:
  "is_check_result V1 ''fail:published_mismatch'' \<and>
   (\<exists>!k. (V1, k) \<in> set check_codes \<and> ''fail:published_mismatch'' = ''fail:'' @ CheckCode_display k)"
proof -
  have r: "is_check_result V1 ''fail:published_mismatch''"
    by (simp add: is_check_result_def check_codes_def)
  from check_result_one_check [OF r r] show ?thesis using r by simp
qed

end
