(* ===== verification/Mother_State.thy ===== *)
theory Mother_State
  imports Mother_Codes
begin

text \<open>The mission state machine of \<open>mother/src/state.rs\<close>: the states, the triggers and the one
  transition table that the live coordinator and the replay of a journal share, with the records a
  trigger carries by reference (\<open>ContractRef\<close> and \<open>RestRef\<close> of \<open>journal.rs\<close>, \<open>PendingAction\<close> of
  \<open>effect.rs\<close>). A contract hash and a content id are byte strings; a mission id and every \<open>u64\<close> of a
  record is a natural number.\<close>


section \<open>States and triggers\<close>

datatype mission_state =
  MsDraft | MsAwaitingConsent | MsApproved | MsInvestigating | MsBuilding | MsVerifying |
  MsExplaining | MsDone | MsStopped | MsDenied | MsFailed | MsBlocked | MsAwaitingApproval

definition MissionState_ALL :: "mission_state list" where
  "MissionState_ALL = [MsDraft, MsAwaitingConsent, MsApproved, MsInvestigating, MsBuilding,
     MsVerifying, MsExplaining, MsDone, MsStopped, MsDenied, MsFailed, MsBlocked, MsAwaitingApproval]"

definition is_terminal :: "mission_state \<Rightarrow> bool" where
  "is_terminal s \<longleftrightarrow> s \<in> {MsDone, MsStopped, MsDenied, MsFailed, MsBlocked}"

definition is_working :: "mission_state \<Rightarrow> bool" where
  "is_working s \<longleftrightarrow> s \<in> {MsInvestigating, MsBuilding, MsVerifying, MsExplaining}"

primrec MissionState_as_str :: "mission_state \<Rightarrow> string" where
  "MissionState_as_str MsDraft = ''draft''"
| "MissionState_as_str MsAwaitingConsent = ''awaiting_consent''"
| "MissionState_as_str MsApproved = ''approved''"
| "MissionState_as_str MsInvestigating = ''investigating''"
| "MissionState_as_str MsBuilding = ''building''"
| "MissionState_as_str MsVerifying = ''verifying''"
| "MissionState_as_str MsExplaining = ''explaining''"
| "MissionState_as_str MsDone = ''done''"
| "MissionState_as_str MsStopped = ''stopped''"
| "MissionState_as_str MsDenied = ''denied''"
| "MissionState_as_str MsFailed = ''failed''"
| "MissionState_as_str MsBlocked = ''blocked''"
| "MissionState_as_str MsAwaitingApproval = ''awaiting_approval''"

definition may_wait :: "mission_state \<Rightarrow> bool" where
  "may_wait s \<longleftrightarrow> s \<in> {MsInvestigating, MsBuilding, MsVerifying}"

lemmas state_classes = is_terminal_def is_working_def may_wait_def

record contract_ref =
  cr_contract_hash :: string
  cr_content :: string
  cr_bytes :: nat

record rest_ref =
  rr_content :: string
  rr_count :: nat
  rr_bytes :: nat

record pending_action =
  pa_run :: string
  pa_commitment :: string
  pa_deadline_mono_ms :: nat

datatype trigger =
  TgRevise contract_ref
| TgSubmit string
| TgConsent string nat
| TgDeny string
| TgStart
| TgPhaseDone
| TgVerifyPass
| TgVerifyFail verify_fail_reason
| TgBlock block_reason
| TgFail fail_reason
| TgStop stop_reason
| TgAwaitApproval nat rest_ref "lane_role list"
| TgActionApproved nat mission_state
| TgActionDenied nat
| TgApprovalLapsed nat lapse_reason
| TgSettled nat "pending_action option" settlement_outcome settlement_end

record illegal_transition =
  it_from :: mission_state
  it_trigger :: string

primrec trigger_name :: "trigger \<Rightarrow> string" where
  "trigger_name (TgRevise c) = ''revise''"
| "trigger_name (TgSubmit h) = ''submit''"
| "trigger_name (TgConsent h at) = ''consent''"
| "trigger_name (TgDeny h) = ''deny''"
| "trigger_name TgStart = ''start''"
| "trigger_name TgPhaseDone = ''phase_done''"
| "trigger_name TgVerifyPass = ''verify_pass''"
| "trigger_name (TgVerifyFail r) = ''verify_fail''"
| "trigger_name (TgBlock r) = ''block''"
| "trigger_name (TgFail r) = ''fail''"
| "trigger_name (TgStop r) = ''stop''"
| "trigger_name (TgAwaitApproval e rest roles) = ''await_approval''"
| "trigger_name (TgActionApproved e p) = ''action_approved''"
| "trigger_name (TgActionDenied e) = ''action_denied''"
| "trigger_name (TgApprovalLapsed e r) = ''approval_lapsed''"
| "trigger_name (TgSettled e a out fin) = ''settled''"


section \<open>The transition table\<close>

definition next_state :: "mission_state \<Rightarrow> trigger \<Rightarrow> mission_state option" where
  "next_state s trigger = (case trigger of
     TgRevise c \<Rightarrow> if s \<in> {MsDraft, MsAwaitingConsent, MsApproved} then Some MsDraft else None
   | TgSubmit h \<Rightarrow> if s = MsDraft then Some MsAwaitingConsent else None
   | TgConsent h at \<Rightarrow> if s = MsAwaitingConsent then Some MsApproved else None
   | TgDeny h \<Rightarrow> if s = MsAwaitingConsent then Some MsDenied else None
   | TgStart \<Rightarrow> if s = MsApproved then Some MsInvestigating else None
   | TgPhaseDone \<Rightarrow>
       if s = MsInvestigating then Some MsBuilding
       else if s = MsBuilding then Some MsVerifying
       else if s = MsExplaining then Some MsDone
       else None
   | TgVerifyPass \<Rightarrow> if s = MsVerifying then Some MsExplaining else None
   | TgVerifyFail r \<Rightarrow> if s = MsVerifying then Some MsFailed else None
   | TgBlock r \<Rightarrow> if s = MsApproved \<or> is_working s then Some MsBlocked else None
   | TgFail r \<Rightarrow> if is_working s then Some MsFailed else None
   | TgStop r \<Rightarrow> if \<not> is_terminal s then Some MsStopped else None
   | TgAwaitApproval e rest roles \<Rightarrow> if may_wait s then Some MsAwaitingApproval else None
   | TgActionApproved e phase \<Rightarrow>
       if s = MsAwaitingApproval \<and> may_wait phase then Some phase else None
   | TgActionDenied e \<Rightarrow> if s = MsAwaitingApproval then Some MsDenied else None
   | TgApprovalLapsed e r \<Rightarrow> if s = MsAwaitingApproval then Some MsBlocked else None
   | TgSettled e a out fin \<Rightarrow>
       if s = MsAwaitingApproval \<or> may_wait s
       then Some (case fin of SeBlock r \<Rightarrow> MsBlocked | SeStop r \<Rightarrow> MsStopped)
       else None)"

definition transition :: "mission_state \<Rightarrow> trigger \<Rightarrow> illegal_transition + mission_state" where
  "transition s trigger = (case next_state s trigger of
     Some to_state \<Rightarrow> Inr to_state
   | None \<Rightarrow> Inl \<lparr>it_from = s, it_trigger = trigger_name trigger\<rparr>)"

lemma transition_Inr [simp]: "transition s t = Inr u \<longleftrightarrow> next_state s t = Some u"
  by (simp add: transition_def split: option.split)

lemma transition_Inl [simp]:
  "transition s t = Inl e \<longleftrightarrow> next_state s t = None \<and> e = \<lparr>it_from = s, it_trigger = trigger_name t\<rparr>"
  by (auto simp: transition_def split: option.split)


section \<open>What the table promises\<close>

text \<open>The shape of each kind of step, as one table of facts for the proofs over journals.\<close>

lemma next_state_terminal [simp]: "is_terminal s \<Longrightarrow> next_state s t = None"
  by (cases t) (auto simp: next_state_def state_classes)

lemma next_state_working:
  assumes "next_state s t = Some u" "is_working u \<or> u = MsAwaitingApproval"
  shows "s = MsApproved \<and> t = TgStart \<and> u = MsInvestigating \<or> is_working s \<or> s = MsAwaitingApproval"
  using assms by (cases t) (auto simp: next_state_def state_classes split: if_split_asm settlement_end.split_asm)

lemma next_state_Approved: "next_state s t = Some MsApproved \<longleftrightarrow> (\<exists>h at. t = TgConsent h at) \<and> s = MsAwaitingConsent"
  by (cases t) (auto simp: next_state_def state_classes split: settlement_end.split)

lemma next_state_Done: "next_state s t = Some MsDone \<longleftrightarrow> t = TgPhaseDone \<and> s = MsExplaining"
  by (cases t) (auto simp: next_state_def state_classes split: settlement_end.split)

lemma next_state_Explaining: "next_state s t = Some MsExplaining \<longleftrightarrow> t = TgVerifyPass \<and> s = MsVerifying"
  by (cases t) (auto simp: next_state_def state_classes split: settlement_end.split)

lemma next_state_AwaitingApproval:
  "next_state s t = Some MsAwaitingApproval \<longleftrightarrow> (\<exists>e rest roles. t = TgAwaitApproval e rest roles) \<and> may_wait s"
  by (cases t) (auto simp: next_state_def state_classes split: settlement_end.split)

lemma next_state_AwaitingConsent:
  "next_state s t = Some MsAwaitingConsent \<longleftrightarrow> (\<exists>h. t = TgSubmit h) \<and> s = MsDraft"
  by (cases t) (auto simp: next_state_def state_classes split: settlement_end.split)

lemma next_state_Draft:
  "next_state s t = Some MsDraft \<longleftrightarrow> (\<exists>c. t = TgRevise c) \<and> s \<in> {MsDraft, MsAwaitingConsent, MsApproved}"
  by (cases t) (auto simp: next_state_def state_classes split: settlement_end.split)

lemma next_state_Settled:
  "next_state s (TgSettled e a out fin) = Some u \<longleftrightarrow>
     (s = MsAwaitingApproval \<or> may_wait s) \<and> u = (case fin of SeBlock r \<Rightarrow> MsBlocked | SeStop r \<Rightarrow> MsStopped)"
  by (auto simp: next_state_def)

lemma settled_terminal: "next_state s (TgSettled e a out fin) = Some u \<Longrightarrow> is_terminal u"
  by (auto simp: next_state_Settled is_terminal_def split: settlement_end.split)

lemma stop_always: "\<not> is_terminal s \<Longrightarrow> next_state s (TgStop r) = Some MsStopped"
  by (simp add: next_state_def)

end
