(* ===== verification/Mother_Journal.thy ===== *)
theory Mother_Journal
  imports Mother_State
begin

text \<open>The mission journal of \<open>mother/src/journal.rs\<close>: events, entries, the hash chain and its
  verification, the in-memory store, and the evidence check of \<open>evidence.rs\<close> that every entry passes
  before it is appended and when it is replayed.

  SHA-256, the \<open>hex\<close> crate and \<open>serde_json\<close> are not part of the program: they are the fields of the
  record \<open>ext\<close>, a parameter of every definition that uses them. What a theorem needs of them (that
  printing an event is injective, that a printed entry parses back) is a hypothesis of it.\<close>


section \<open>Events and entries\<close>

record invocation_id =
  iv_mission :: nat
  iv_seq :: nat

datatype event =
  EvDrafted contract_ref
| EvTransition trigger
| EvConsentRefused consent_refused_reason
| EvLaneInvoked invocation_id lane_role string string nat nat
| EvModelCallCharged invocation_id nat
| EvLaneReturned invocation_id string
| EvLaneOvertaken invocation_id
| EvEffectRefused effect_kind mother_refusal
| EvEffectDispatched nat effect_kind string
| EvEffectSettled nat settled_outcome
| EvApprovalPending nat pending_action
| EvApprovalClosed nat
| EvSessionOpened
| EvSessionClosed
| EvHeld held_reason
| EvResumed
| EvFileModeSelected
| EvSettlementStarted nat settle_cause
| EvDeliverableRetained invocation_id nat string string nat
| EvPublicationReceipt nat pending_action string nat "string option" bool
| EvVerificationRecorded invocation_id nat string "(string \<times> string) list"

record entry =
  en_format :: nat
  en_seq :: nat
  en_prev :: string
  en_mission :: nat
  en_event :: event
  en_hash :: string

text \<open>The code outside the program: SHA-256, hex, and the JSON reader and printers of \<open>serde_json\<close>.
  \<open>ex_format\<close> reads a line as a JSON value and gives its \<open>format\<close> member as an unsigned number, if
  it has one.\<close>

record ext =
  ex_sha256 :: "string \<Rightarrow> string"
  ex_hex :: "string \<Rightarrow> string"
  ex_unhex :: "string \<Rightarrow> string option"
  ex_event_json :: "event \<Rightarrow> string"
  ex_checks_json :: "(string \<times> string) list \<Rightarrow> string"
  ex_line :: "entry \<Rightarrow> string"
  ex_format :: "string \<Rightarrow> nat option option"
  ex_parse_entry :: "string \<Rightarrow> entry option"

datatype io_kind =
  IoNotFound | IoPermissionDenied | IoAlreadyExists | IoInvalidInput | IoInvalidData |
  IoUnexpectedEof | IoWriteZero | IoInterrupted | IoStorageFull | IoReadOnlyFilesystem | IoOther

datatype store_failure =
  SfIo io_kind | SfNotRegularFile | SfLineHasNewline | SfFailedEarlier | SfPoisonFailed |
  SfFailedDuringRecovery | SfChangedUnderCoordinator | SfInjected

datatype replay_violation =
  RvNotEvidence | RvSessionRecordNamesMission | RvCloseOfNoSession | RvCloseWithUnheldMission |
  RvRecordAfterClose | RvDraftedOutOfOrder | RvTooManyMissions | RvNeverDrafted |
  RvRecordWhileHeld | RvRecordBeforeHold | RvIllegalTransition | RvTransitionWhileUnsettled |
  RvSubmitOtherHash | RvConsentOtherHash | RvWorkWithoutConsent | RvWaitNotAwaiting |
  RvWaitNotWritten | RvApprovalOfOtherWait | RvEndOfOtherWait | RvModelChargeOutOfPlace |
  RvModelBudgetMismatch | RvLaneOutOfPlace | RvLaneAnswerWithoutCall | RvDispatchOutOfPlace |
  RvSettledNotDispatched | RvPendingOutOfPlace | RvClosureOfNoAction | RvHoldOutOfPlace |
  RvResumeNotHeld | RvSettlementOutOfPlace | RvSettlementConflict | RvProofOutOfPlace |
  RvProofConflict

datatype journal_error =
  JeStore store_failure | JeMalformed nat | JeLegacy nat | JeTampered nat |
  JeInconsistent nat replay_violation | JePoisoned


section \<open>The chain\<close>

definition sha256_parts :: "ext \<Rightarrow> string \<Rightarrow> string list \<Rightarrow> string" where
  "sha256_parts X domain parts = ex_sha256 X (domain @ concat (map lp parts))"

definition ENTRY_DOMAIN :: string where
  "ENTRY_DOMAIN = ''nexus-mother-journal-v2'' @ [CHR 0x0A]"

definition FORMAT :: nat where
  "FORMAT = 2"

definition GENESIS :: string where
  "GENESIS = replicate 64 (CHR ''0'')"

definition SESSION :: nat where
  "SESSION = 0"

definition entry_parts :: "ext \<Rightarrow> entry \<Rightarrow> string list" where
  "entry_parts X e = [en_prev e, [char_of (en_format e)], be64 (en_seq e), be64 (en_mission e),
     ex_event_json X (en_event e)]"

definition expected_hash :: "ext \<Rightarrow> entry \<Rightarrow> string" where
  "expected_hash X e = ex_hex X (sha256_parts X ENTRY_DOMAIN (entry_parts X e))"

definition chained :: "ext \<Rightarrow> nat \<Rightarrow> string \<Rightarrow> nat \<Rightarrow> event \<Rightarrow> entry" where
  "chained X sq prev mission event =
     (let e = \<lparr>en_format = FORMAT, en_seq = sq, en_prev = prev, en_mission = mission,
                en_event = event, en_hash = ''''\<rparr>
      in e\<lparr>en_hash := expected_hash X e\<rparr>)"

text \<open>One line: its format, its parse, and that it follows from the hash and the number before.\<close>

definition verify_line :: "ext \<Rightarrow> nat \<Rightarrow> string \<Rightarrow> string \<Rightarrow> journal_error + entry" where
  "verify_line X index prev line = (case ex_format X line of
     None \<Rightarrow> Inl (JeMalformed (index + 1))
   | Some f \<Rightarrow>
       if f \<noteq> Some FORMAT then Inl (JeLegacy (index + 1))
       else case ex_parse_entry X line of
         None \<Rightarrow> Inl (JeMalformed (index + 1))
       | Some e \<Rightarrow>
           if en_seq e \<noteq> index \<or> en_prev e \<noteq> prev \<or> en_hash e \<noteq> expected_hash X e \<or> ex_line X e \<noteq> line
           then Inl (JeTampered (index + 1))
           else Inr e)"

fun verify_from :: "ext \<Rightarrow> nat \<Rightarrow> string \<Rightarrow> string list \<Rightarrow> journal_error + entry list" where
  "verify_from X index prev [] = Inr []"
| "verify_from X index prev (line # rest) = (case verify_line X index prev line of
     Inl err \<Rightarrow> Inl err
   | Inr e \<Rightarrow> (case verify_from X (index + 1) (en_hash e) rest of
       Inl err \<Rightarrow> Inl err
     | Inr es \<Rightarrow> Inr (e # es)))"

definition verify :: "ext \<Rightarrow> string list \<Rightarrow> journal_error + entry list" where
  "verify X ls = verify_from X 0 GENESIS ls"


section \<open>The in-memory store\<close>

record memory_journal =
  mj_lines :: "string list"
  mj_poisoned :: bool
  mj_fail_after :: "nat option"

definition mj_load :: "memory_journal \<Rightarrow> journal_error + string list" where
  "mj_load j = (if mj_poisoned j then Inl JePoisoned else Inr (mj_lines j))"

definition mj_append :: "memory_journal \<Rightarrow> string \<Rightarrow> (journal_error + unit) \<times> memory_journal" where
  "mj_append j line = (case mj_fail_after j of
     Some 0 \<Rightarrow> (Inl (JeStore SfInjected), j)
   | Some n \<Rightarrow> (Inr (), j\<lparr>mj_fail_after := Some (n - 1), mj_lines := mj_lines j @ [line]\<rparr>)
   | None \<Rightarrow> (Inr (), j\<lparr>mj_lines := mj_lines j @ [line]\<rparr>))"

definition mj_poison :: "memory_journal \<Rightarrow> (journal_error + unit) \<times> memory_journal" where
  "mj_poison j = (Inr (), j\<lparr>mj_poisoned := True\<rparr>)"


section \<open>Evidence\<close>

text \<open>The broker's opaque identities: a prefix and 32 hex digits.\<close>

definition opaque_id :: "ext \<Rightarrow> string \<Rightarrow> string \<Rightarrow> string option" where
  "opaque_id X pre t = (case strip_prefix (pre @ ''-'') t of
     None \<Rightarrow> None
   | Some hex_part \<Rightarrow> if length hex_part \<noteq> 32 then None else ex_unhex X hex_part)"

definition RunId_parse :: "ext \<Rightarrow> string \<Rightarrow> string option" where
  "RunId_parse X = opaque_id X ''run''"

definition CommitmentId_parse :: "ext \<Rightarrow> string \<Rightarrow> string option" where
  "CommitmentId_parse X = opaque_id X ''cmt''"

definition is_broker_action :: "ext \<Rightarrow> pending_action \<Rightarrow> bool" where
  "is_broker_action X p \<longleftrightarrow> RunId_parse X (pa_run p) \<noteq> None \<and> CommitmentId_parse X (pa_commitment p) \<noteq> None"

definition REPORT_DOMAIN :: string where
  "REPORT_DOMAIN = ''nexus-m3/verification-report/1'' @ [CHR 0x00]"

definition report_digest :: "ext \<Rightarrow> (string \<times> string) list \<Rightarrow> string" where
  "report_digest X entries = ex_hex X (ex_sha256 X (REPORT_DOMAIN @ ex_checks_json X entries))"

definition evidence_ok :: "ext \<Rightarrow> event \<Rightarrow> bool" where
  "evidence_ok X event = (case event of
     EvDrafted contract \<Rightarrow> is_size (cr_bytes contract)
   | EvTransition trigger \<Rightarrow> (case trigger of
       TgRevise contract \<Rightarrow> is_size (cr_bytes contract)
     | TgAwaitApproval e rest roles \<Rightarrow> is_size (rr_bytes rest)
     | TgSettled e action out fin \<Rightarrow> (case action of None \<Rightarrow> True | Some p \<Rightarrow> is_broker_action X p)
     | _ \<Rightarrow> True)
   | EvLaneInvoked iv role identity_sha256 input_hash cap budget \<Rightarrow>
       is_digest identity_sha256 \<and> is_digest input_hash
   | EvLaneReturned iv output_hash \<Rightarrow> is_digest output_hash
   | EvEffectDispatched e kind request_hash \<Rightarrow> is_digest request_hash
   | EvApprovalPending e pending \<Rightarrow> is_broker_action X pending
   | EvDeliverableRetained iv e content sha bytes \<Rightarrow> is_digest sha \<and> is_size bytes
   | EvPublicationReceipt e action sha bytes policy_hash overtaken \<Rightarrow>
       is_digest sha \<and> (case policy_hash of None \<Rightarrow> True | Some p \<Rightarrow> is_digest p) \<and> is_size bytes
       \<and> is_broker_action X action
   | EvVerificationRecorded iv e rdigest checks \<Rightarrow>
       length checks = length CheckId_ALL
       \<and> list_all (\<lambda>(ident, (nm, code)). nm = CheckId_as_str ident \<and> is_check_result ident code)
           (zip CheckId_ALL checks)
       \<and> rdigest = report_digest X checks
   | _ \<Rightarrow> True)"

definition evidence_check :: "ext \<Rightarrow> event \<Rightarrow> replay_violation + unit" where
  "evidence_check X event = (if evidence_ok X event then Inr () else Inl RvNotEvidence)"

lemma check_Inr [simp]: "evidence_check X ev = Inr u \<longleftrightarrow> evidence_ok X ev"
  by (simp add: evidence_check_def)

text \<open>Which records count as work, that a session's admission must allow.\<close>

definition journal_work :: "event \<Rightarrow> bool" where
  "journal_work event = (case event of
     EvDrafted c \<Rightarrow> True
   | EvFileModeSelected \<Rightarrow> True
   | EvModelCallCharged i c \<Rightarrow> True
   | EvLaneInvoked i r s h c b \<Rightarrow> True
   | EvLaneReturned i out \<Rightarrow> True
   | EvEffectDispatched e k r \<Rightarrow> True
   | EvEffectSettled e out \<Rightarrow> True
   | EvApprovalPending e p \<Rightarrow> True
   | EvResumed \<Rightarrow> True
   | EvTransition trigger \<Rightarrow> (case trigger of
       TgRevise c \<Rightarrow> True
     | TgSubmit h \<Rightarrow> True
     | TgConsent h at \<Rightarrow> True
     | TgStart \<Rightarrow> True
     | TgPhaseDone \<Rightarrow> True
     | TgVerifyPass \<Rightarrow> True
     | TgAwaitApproval e rest roles \<Rightarrow> True
     | TgActionApproved e p \<Rightarrow> True
     | _ \<Rightarrow> False)
   | _ \<Rightarrow> False)"

end
