(* ===== verification/Mother_Mission.thy ===== *)
theory Mother_Mission
  imports Mother_Journal
begin

text \<open>One mission as the coordinator keeps it (\<open>mother/src/coordinator.rs\<close>, \<open>Mission\<close> and \<open>Waiting\<close>),
  with the contract it was drafted for (\<open>contract.rs\<close>), the accounting of an invocation's model calls
  (\<open>coordinator/model_calls.rs\<close>) and the proof of a published page (\<open>coordinator/page_proof.rs\<close>).
  \<open>apply_trigger\<close> takes a transition the table accepted.\<close>


section \<open>The contract\<close>

text \<open>Texts the Owner wrote are strings of Unicode scalar values.\<close>

record budget =
  bd_max_duration_ms :: nat
  bd_max_model_calls :: nat
  bd_max_money_minor :: nat

record contract_question =
  cq_id :: ustr
  cq_text :: ustr
  cq_answer :: "ustr option"

record pass_criterion =
  pc_id :: ustr
  pc_text :: ustr

record model_choice =
  mc_name :: ustr
  mc_digest :: ustr
  mc_identity :: ustr

record contract_note =
  nt_label :: ustr
  nt_text :: ustr

record page_facts =
  pf_name :: ustr
  pf_hours :: "ustr list"
  pf_phone :: ustr

text \<open>The set of forbidden effects is kept in the order of \<open>EffectKind\<close>, without duplicates.\<close>

record mission_contract =
  ct_owner_words :: ustr
  ct_restatement :: ustr
  ct_requested_folder :: "ustr option"
  ct_budget :: budget
  ct_forbidden_effects :: "effect_kind list"
  ct_questions :: "contract_question list"
  ct_pass_criteria :: "pass_criterion list"
  ct_model :: "model_choice option"
  ct_notes :: "contract_note list"
  ct_deliverable :: "ustr option"
  ct_page_facts :: "page_facts option"


section \<open>Model calls of one invocation\<close>

definition MAX_MODEL_CALLS :: nat where
  "MAX_MODEL_CALLS = 1000"

record call_accounting =
  ca_invocation :: invocation_id
  ca_cap :: nat
  ca_budget :: nat
  ca_next :: nat
  ca_prepaid :: bool

text \<open>\<open>CallAccounting::reserved\<close>, of the mission's model calls so far.\<close>

definition reserved :: "nat \<Rightarrow> invocation_id \<Rightarrow> nat \<Rightarrow> nat \<Rightarrow> replay_violation + call_accounting option" where
  "reserved model_calls invocation cap budget =
     (if cap = 0 \<and> budget = 0 then Inr None
      else if \<not> (1 \<le> cap \<and> cap \<le> 4) \<or> \<not> (1 \<le> budget \<and> budget \<le> MAX_MODEL_CALLS)
        \<or> U32_MAX < model_calls + cap \<or> budget < model_calls + cap
      then Inl RvModelChargeOutOfPlace
      else Inr (Some \<lparr>ca_invocation = invocation, ca_cap = cap, ca_budget = budget, ca_next = 1,
        ca_prepaid = True\<rparr>))"

text \<open>\<open>CallAccounting::charge\<close>: the accounting and the mission's total after it.\<close>

definition charge :: "call_accounting \<Rightarrow> invocation_id \<Rightarrow> nat \<Rightarrow> nat \<Rightarrow> replay_violation + call_accounting \<times> nat" where
  "charge a invocation call sofar =
     (if invocation \<noteq> ca_invocation a \<or> call \<noteq> ca_next a \<or> ca_cap a < call
        \<or> (call = 1 \<and> \<not> ca_prepaid a) \<or> (1 < call \<and> ca_budget a \<le> sofar)
      then Inl RvModelChargeOutOfPlace
      else if call = 1
      then Inr (a\<lparr>ca_prepaid := False, ca_next := ca_next a + 1\<rparr>, sofar)
      else Inr (a\<lparr>ca_next := ca_next a + 1\<rparr>, sofar + 1))"

text \<open>The live side of an invocation (\<open>LaneCalls\<close>). Its deny latch is revoked exactly when the mission
  drops this record, so the record stands for the latch's owner.\<close>

record lane_calls =
  lc_invocation :: invocation_id
  lc_generation :: nat
  lc_in_flight :: bool
  lc_at_mono_ms :: nat
  lc_at_wall_ms :: nat


section \<open>The proof of a published page\<close>

record verification_identity =
  vi_candidate_sha256 :: string
  vi_candidate_bytes :: nat
  vi_facts_hash :: string
  vi_receipt_sha256 :: string
  vi_receipt_bytes :: nat
  vi_receipt_policy_hash :: string
  vi_receipt_overtaken :: bool

record verification_input =
  vn_candidate :: string
  vn_facts :: page_facts
  vn_identity :: verification_identity

record recorded_receipt =
  rc_effect :: nat
  rc_sha256 :: string
  rc_bytes :: nat
  rc_policy_hash :: "string option"
  rc_overtaken :: bool

record retained_page =
  rt_invocation :: invocation_id
  rt_effect :: nat
  rt_content :: string
  rt_sha256 :: string
  rt_bytes :: nat

record page_proof =
  pp_returned :: "invocation_id option"
  pp_retained :: "retained_page option"
  pp_receipt :: "recorded_receipt option"
  pp_invoked :: "lane_role option"
  pp_input :: "verification_input option"
  pp_verified :: "bool option"
  pp_checks :: "(string \<times> string) list option"
  pp_early :: "pending_action option"
  pp_unrecorded :: bool

definition proof_default :: page_proof where
  "proof_default = \<lparr>pp_returned = None, pp_retained = None, pp_receipt = None, pp_invoked = None,
     pp_input = None, pp_verified = None, pp_checks = None, pp_early = None, pp_unrecorded = False\<rparr>"

definition receipt_effect :: "page_proof \<Rightarrow> nat option" where
  "receipt_effect p = map_option rc_effect (pp_receipt p)"

definition recorded :: "event \<Rightarrow> recorded_receipt option" where
  "recorded event = (case event of
     EvPublicationReceipt e action sha bytes policy_hash overtaken \<Rightarrow>
       Some \<lparr>rc_effect = e, rc_sha256 = sha, rc_bytes = bytes, rc_policy_hash = policy_hash,
         rc_overtaken = overtaken\<rparr>
   | _ \<Rightarrow> None)"


section \<open>The mission\<close>

record facts_view =
  fv_name :: ustr
  fv_hours :: "ustr list"
  fv_phone :: ustr

record mission_confirmation =
  mf_contract_hash :: string
  mf_request :: string
  mf_summary :: "ustr list"
  mf_page_facts :: "facts_view option"

record mission_resume_confirmation =
  mr_mission :: string
  mr_contract_hash :: string
  mr_request :: string
  mr_held_reason :: string
  mr_summary :: "ustr list"

text \<open>An effect a lane asks for. The broker's intents for the network, a process and a model tool are
  opaque to Mother, which only sends them on.\<close>

record file_create =
  fc_name :: ustr
  fc_content :: ustr

datatype effect_request =
  ReqFile ustr bool | ReqCreateFile file_create | ReqNetwork string | ReqProcess string |
  ReqModelTool string | ReqSpend nat ustr

fun request_kind :: "effect_request \<Rightarrow> effect_kind" where
  "request_kind (ReqFile p w) = KFile"
| "request_kind (ReqCreateFile c) = KFile"
| "request_kind (ReqNetwork i) = KNetwork"
| "request_kind (ReqProcess i) = KProcess"
| "request_kind (ReqModelTool i) = KModelTool"
| "request_kind (ReqSpend a p) = KSpend"

record waiting =
  wt_phase :: mission_state
  wt_effect :: nat
  wt_rest_ref :: rest_ref
  wt_rest :: "effect_request list option"
  wt_roles_left :: "lane_role list"

record mission =
  m_contract_ref :: contract_ref
  m_contract :: "mission_contract option"
  m_state :: mission_state
  m_consent :: "string option"
  m_generation :: nat
  m_busy :: bool
  m_approved_wall_ms :: "nat option"
  m_mono_ref :: nat
  m_spent_at_ref :: nat
  m_model_calls :: nat
  m_next_effect :: nat
  m_unsettled :: "nat option"
  m_dispatched_kind :: "effect_kind option"
  m_dispatched_in_phase :: bool
  m_pending_lane :: "invocation_id option"
  m_call_accounting :: "call_accounting option"
  m_lane_calls :: "lane_calls option"
  m_declared_model_budgets :: "nat list"
  m_prior_outputs :: "string list"
  m_reason :: "string option"
  m_asking :: "mission_confirmation option"
  m_resume_asking :: "mission_resume_confirmation option"
  m_waiting :: "waiting option"
  m_awaiting_settled :: "nat option"
  m_open_action :: "(nat \<times> pending_action) option"
  m_held :: "held_reason option"
  m_held_journaled :: bool
  m_must_hold :: bool
  m_file_mode :: bool
  m_consent_request :: "string option"
  m_unresolved_file :: "nat option"
  m_settlement :: "(nat \<times> settle_cause) option"
  m_acks :: "pending_action list"
  m_terminal_uncertain :: bool
  m_terminal_record :: "(trigger \<times> nat option) option"
  m_proof :: page_proof

definition mission_new :: "contract_ref \<Rightarrow> mission_contract option \<Rightarrow> mission" where
  "mission_new cref contract = \<lparr>m_contract_ref = cref, m_contract = contract, m_state = MsDraft,
     m_consent = None, m_generation = 0, m_busy = False, m_approved_wall_ms = None, m_mono_ref = 0,
     m_spent_at_ref = 0, m_model_calls = 0, m_next_effect = 0, m_unsettled = None,
     m_dispatched_kind = None, m_dispatched_in_phase = False, m_pending_lane = None,
     m_call_accounting = None, m_lane_calls = None, m_declared_model_budgets = [],
     m_prior_outputs = [], m_reason = None, m_asking = None, m_resume_asking = None,
     m_waiting = None, m_awaiting_settled = None, m_open_action = None, m_held = None,
     m_held_journaled = False, m_must_hold = False, m_file_mode = False, m_consent_request = None,
     m_unresolved_file = None, m_settlement = None, m_acks = [], m_terminal_uncertain = False,
     m_terminal_record = None, m_proof = proof_default\<rparr>"

definition invalidate_calls :: "mission \<Rightarrow> mission" where
  "invalidate_calls m = m\<lparr>m_lane_calls := None, m_call_accounting := None\<rparr>"

text \<open>The waited File, resolved by its approval, a denial or a lapse, owes an acknowledgement.\<close>

definition resolve_waited_file :: "trigger \<Rightarrow> mission \<Rightarrow> mission" where
  "resolve_waited_file trigger m =
     (let waited_file = (case m_waiting m of
        None \<Rightarrow> None
      | Some w \<Rightarrow> if m_unresolved_file m = Some (wt_effect w) then Some (wt_effect w) else None)
      in case waited_file of
        None \<Rightarrow> m
      | Some e \<Rightarrow>
          if (case trigger of TgActionApproved i p \<Rightarrow> True | TgActionDenied i \<Rightarrow> True
              | TgApprovalLapsed i r \<Rightarrow> True | _ \<Rightarrow> False)
          then (case m_open_action m of
              Some (i, pending) \<Rightarrow>
                if i = e then m\<lparr>m_acks := m_acks m @ [pending], m_unresolved_file := None\<rparr>
                else m\<lparr>m_unresolved_file := None\<rparr>
            | None \<Rightarrow> m\<lparr>m_unresolved_file := None\<rparr>)
          else m)"

definition trigger_effect :: "trigger \<Rightarrow> nat \<Rightarrow> mission \<Rightarrow> mission" where
  "trigger_effect trigger mono_now m = (case trigger of
     TgRevise contract \<Rightarrow>
       m\<lparr>m_contract_ref := contract, m_contract := None, m_consent := None, m_approved_wall_ms := None\<rparr>
   | TgConsent h at_wall_ms \<Rightarrow>
       m\<lparr>m_approved_wall_ms := Some at_wall_ms, m_mono_ref := mono_now, m_spent_at_ref := 0\<rparr>
   | TgVerifyFail r \<Rightarrow> m\<lparr>m_reason := Some (VerifyFailReason_as_str r)\<rparr>
   | TgBlock r \<Rightarrow> m\<lparr>m_reason := Some (BlockReason_as_str r)\<rparr>
   | TgFail r \<Rightarrow> m\<lparr>m_reason := Some (FailReason_as_str r)\<rparr>
   | TgAwaitApproval e rest roles_left \<Rightarrow>
       m\<lparr>m_waiting := Some \<lparr>wt_phase = m_state m, wt_effect = e, wt_rest_ref = rest, wt_rest = None,
         wt_roles_left = roles_left\<rparr>\<rparr>
   | TgActionApproved e p \<Rightarrow> m\<lparr>m_waiting := None\<rparr>
   | TgApprovalLapsed e r \<Rightarrow> m\<lparr>m_waiting := None, m_reason := Some (LapseReason_as_str r)\<rparr>
   | TgActionDenied e \<Rightarrow> m\<lparr>m_waiting := None\<rparr>
   | TgSettled e action out fin \<Rightarrow>
       m\<lparr>m_waiting := None, m_reason := Some (SettlementEnd_as_str fin),
         m_acks := (case action of
             Some pending \<Rightarrow> if conclusive out then m_acks m @ [pending] else m_acks m
           | None \<Rightarrow> m_acks m),
         m_unresolved_file := None, m_unsettled := None, m_pending_lane := None,
         m_terminal_uncertain := \<not> conclusive out\<rparr>
   | _ \<Rightarrow> m)"

definition dispatched_after :: "trigger \<Rightarrow> bool" where
  "dispatched_after trigger = (case trigger of TgActionApproved e p \<Rightarrow> True | _ \<Rightarrow> False)"

definition enter_state :: "trigger \<Rightarrow> mission_state \<Rightarrow> mission \<Rightarrow> mission" where
  "enter_state trigger to_state m =
     (let n = m\<lparr>m_state := to_state\<rparr>;
          n = (if is_terminal to_state
               then n\<lparr>m_held := None, m_held_journaled := False, m_must_hold := False\<rparr> else n)
      in n\<lparr>m_generation := m_generation n + 1, m_dispatched_in_phase := dispatched_after trigger,
           m_asking := None, m_resume_asking := None, m_awaiting_settled := None\<rparr>)"

definition apply_trigger :: "trigger \<Rightarrow> mission_state \<Rightarrow> nat \<Rightarrow> mission \<Rightarrow> mission" where
  "apply_trigger trigger to_state mono_now m =
     enter_state trigger to_state
       (trigger_effect trigger mono_now (resolve_waited_file trigger (invalidate_calls m)))"

definition consented :: "mission \<Rightarrow> bool" where
  "consented m \<longleftrightarrow> m_consent m = Some (cr_contract_hash (m_contract_ref m))"

text \<open>Time spent since consent, from the wall and the monotonic clock (\<open>u64\<close>, saturating).\<close>

definition spent_ms :: "nat \<Rightarrow> nat \<Rightarrow> mission \<Rightarrow> nat" where
  "spent_ms wall_now mono_now m =
     max (case m_approved_wall_ms m of None \<Rightarrow> 0 | Some at_ms \<Rightarrow> wall_now - at_ms)
         (sat_add_u64 (m_spent_at_ref m) (mono_now - m_mono_ref m))"

definition out_of_time :: "nat \<Rightarrow> nat \<Rightarrow> mission \<Rightarrow> bool" where
  "out_of_time wall_now mono_now m = (case m_contract m of
     None \<Rightarrow> True
   | Some c \<Rightarrow> bd_max_duration_ms (ct_budget c) \<le> spent_ms wall_now mono_now m)"


section \<open>The proof records of a page, replayed\<close>

definition early_conflict :: "mission \<Rightarrow> nat \<Rightarrow> pending_action option \<Rightarrow> bool" where
  "early_conflict m e action \<longleftrightarrow> receipt_effect (m_proof m) = Some e
     \<and> (case pp_early (m_proof m) of None \<Rightarrow> False | Some p \<Rightarrow> action \<noteq> Some p)"

definition unproven :: "mission \<Rightarrow> bool" where
  "unproven m = (case pp_retained (m_proof m) of
     None \<Rightarrow> False
   | Some r \<Rightarrow> receipt_effect (m_proof m) \<noteq> Some (rt_effect r)
       \<and> (case m_open_action m of
            None \<Rightarrow> False
          | Some (e, pending) \<Rightarrow> e = rt_effect r \<and> pending \<in> set (m_acks m)))"

definition settled_end :: "mission \<Rightarrow> nat \<Rightarrow> bool \<Rightarrow> settlement_end option" where
  "settled_end m e published =
     (let retained = (case pp_retained (m_proof m) of None \<Rightarrow> False | Some r \<Rightarrow> rt_effect r = e)
      in if published \<and> retained \<and> receipt_effect (m_proof m) \<noteq> Some e
         then Some (SeBlock BlReceiptMissing) else None)"

definition replay_retained :: "nat \<Rightarrow> invocation_id \<Rightarrow> nat \<Rightarrow> string \<Rightarrow> string \<Rightarrow> nat \<Rightarrow> mission \<Rightarrow> replay_violation + mission" where
  "replay_retained mission_id invocation e content sha bytes m =
     (if pp_retained (m_proof m) \<noteq> None then Inl RvProofConflict
      else if m_state m \<noteq> MsBuilding \<or> m_pending_lane m \<noteq> None \<or> m_unsettled m \<noteq> None
        \<or> m_open_action m \<noteq> None \<or> m_settlement m \<noteq> None \<or> e \<noteq> m_next_effect m
        \<or> iv_mission invocation \<noteq> mission_id \<or> pp_returned (m_proof m) \<noteq> Some invocation
      then Inl RvProofOutOfPlace
      else Inr (m\<lparr>m_proof := (m_proof m)\<lparr>pp_retained := Some \<lparr>rt_invocation = invocation, rt_effect = e,
             rt_content = content, rt_sha256 = sha, rt_bytes = bytes\<rparr>\<rparr>\<rparr>))"

definition receipt_settling :: "nat \<Rightarrow> bool \<Rightarrow> mission \<Rightarrow> bool" where
  "receipt_settling e overtaken m \<longleftrightarrow> overtaken \<and> m_unresolved_file m = Some e
     \<and> (case m_settlement m of
          Some (started, cause) \<Rightarrow> started = e
        | None \<Rightarrow> (case m_waiting m of None \<Rightarrow> False | Some w \<Rightarrow> wt_effect w = e))"

definition receipt_linked :: "nat \<Rightarrow> pending_action \<Rightarrow> bool \<Rightarrow> mission \<Rightarrow> bool" where
  "receipt_linked e action overtaken m = (case m_open_action m of
     Some opened \<Rightarrow> opened = (e, action)
   | None \<Rightarrow> receipt_settling e overtaken m \<and> m_settlement m \<noteq> None)"

definition receipt_clean :: "string option \<Rightarrow> mission \<Rightarrow> bool" where
  "receipt_clean policy_hash m \<longleftrightarrow> policy_hash \<noteq> None \<and> may_wait (m_state m) \<and> m_waiting m = None
     \<and> m_unresolved_file m = None"

definition replay_receipt :: "nat \<Rightarrow> pending_action \<Rightarrow> string \<Rightarrow> nat \<Rightarrow> string option \<Rightarrow> bool \<Rightarrow> mission \<Rightarrow> replay_violation + mission" where
  "replay_receipt e action sha bytes policy_hash overtaken m =
     (if (case pp_retained (m_proof m) of None \<Rightarrow> True | Some r \<Rightarrow> rt_effect r \<noteq> e)
      then Inl RvProofOutOfPlace
      else if pp_receipt (m_proof m) \<noteq> None \<or> \<not> receipt_linked e action overtaken m
      then Inl RvProofConflict
      else if \<not> receipt_clean policy_hash m \<and> \<not> receipt_settling e overtaken m
      then Inl RvProofOutOfPlace
      else Inr (m\<lparr>m_proof := (m_proof m)\<lparr>
             pp_early := (if m_open_action m = None then Some action else pp_early (m_proof m)),
             pp_receipt := recorded (EvPublicationReceipt e action sha bytes policy_hash overtaken)\<rparr>\<rparr>))"

definition replay_verification :: "nat \<Rightarrow> invocation_id \<Rightarrow> nat \<Rightarrow> (string \<times> string) list \<Rightarrow> mission \<Rightarrow> replay_violation + mission" where
  "replay_verification mission_id invocation e checks m =
     (if pp_verified (m_proof m) \<noteq> None then Inl RvProofConflict
      else if \<not> (case pp_receipt (m_proof m) of
             None \<Rightarrow> False
           | Some r \<Rightarrow> rc_effect r = e \<and> rc_policy_hash r \<noteq> None \<and> \<not> rc_overtaken r)
        \<or> m_state m \<noteq> MsVerifying \<or> m_pending_lane m \<noteq> None \<or> iv_mission invocation \<noteq> mission_id
        \<or> pp_returned (m_proof m) \<noteq> Some invocation \<or> pp_invoked (m_proof m) \<noteq> Some Verifier
      then Inl RvProofOutOfPlace
      else Inr (m\<lparr>m_proof := (m_proof m)\<lparr>pp_verified := Some (list_all (\<lambda>(nm, code). code = ''pass'') checks),
             pp_checks := Some checks\<rparr>\<rparr>))"

definition proof_replay :: "entry \<Rightarrow> mission \<Rightarrow> replay_violation + mission" where
  "proof_replay en m = (case en_event en of
     EvDeliverableRetained invocation e content sha bytes \<Rightarrow>
       replay_retained (en_mission en) invocation e content sha bytes m
   | EvPublicationReceipt e action sha bytes policy_hash overtaken \<Rightarrow>
       replay_receipt e action sha bytes policy_hash overtaken m
   | EvVerificationRecorded invocation e rdigest checks \<Rightarrow>
       replay_verification (en_mission en) invocation e checks m
   | _ \<Rightarrow> Inr m)"

end
