(* ===== verification/Mother_Chain.thy ===== *)
theory Mother_Chain
  imports Mother_Journal
begin

text \<open>What the verification of a journal shows: an accepted journal is exactly a printed hash chain,
  appending the next chained entry keeps it accepted, and two accepted journals with the same head are
  the same journal or exhibit a collision of the hash function.\<close>


section \<open>Chains\<close>

text \<open>The specification: entries numbered from \<open>i\<close>, each naming the hash before it and carrying the
  hash of its own contents.\<close>

fun chain :: "ext \<Rightarrow> nat \<Rightarrow> string \<Rightarrow> entry list \<Rightarrow> bool" where
  "chain X i p [] \<longleftrightarrow> True"
| "chain X i p (e # es) \<longleftrightarrow> en_seq e = i \<and> en_prev e = p \<and> en_hash e = expected_hash X e
     \<and> chain X (i + 1) (en_hash e) es"

definition last_hash :: "string \<Rightarrow> entry list \<Rightarrow> string" where
  "last_hash p es = (if es = [] then p else en_hash (last es))"

text \<open>An entry that its own line gives back.\<close>

definition line_ok :: "ext \<Rightarrow> entry \<Rightarrow> bool" where
  "line_ok X e \<longleftrightarrow> ex_format X (ex_line X e) = Some (Some FORMAT) \<and> ex_parse_entry X (ex_line X e) = Some e"

lemma last_hash_simps [simp]:
  "last_hash p [] = p" "last_hash p (es @ [e]) = en_hash e" "last_hash p (e # es) = last_hash (en_hash e) es"
  by (simp_all add: last_hash_def)

lemma chain_append: "chain X i p (es @ fs) \<longleftrightarrow> chain X i p es \<and> chain X (i + length es) (last_hash p es) fs"
  by (induction es arbitrary: i p) simp_all

lemma verify_line_Inr:
  "verify_line X i p line = Inr e \<longleftrightarrow>
     line = ex_line X e \<and> line_ok X e \<and> en_seq e = i \<and> en_prev e = p \<and> en_hash e = expected_hash X e"
proof
  assume v: "verify_line X i p line = Inr e"
  then obtain f where "ex_format X line = Some (Some FORMAT)" "ex_parse_entry X line = Some f"
    by (auto simp: verify_line_def split: option.split_asm if_split_asm)
  with v show "line = ex_line X e \<and> line_ok X e \<and> en_seq e = i \<and> en_prev e = p \<and> en_hash e = expected_hash X e"
    unfolding verify_line_def line_ok_def by (simp split: if_split_asm)
next
  assume "line = ex_line X e \<and> line_ok X e \<and> en_seq e = i \<and> en_prev e = p \<and> en_hash e = expected_hash X e"
  then show "verify_line X i p line = Inr e"
    unfolding verify_line_def line_ok_def by simp
qed

lemma verify_from_Inr:
  "verify_from X i p ls = Inr es \<longleftrightarrow> ls = map (ex_line X) es \<and> list_all (line_ok X) es \<and> chain X i p es"
proof (induction ls arbitrary: i p es)
  case (Cons l ls)
  show ?case
  proof
    assume "verify_from X i p (l # ls) = Inr es"
    then obtain e fs where "verify_line X i p l = Inr e" "verify_from X (i + 1) (en_hash e) ls = Inr fs"
      "es = e # fs"
      by (auto split: sum.split_asm)
    then show "l # ls = map (ex_line X) es \<and> list_all (line_ok X) es \<and> chain X i p es"
      using Cons.IH by (auto simp: verify_line_Inr)
  next
    assume r: "l # ls = map (ex_line X) es \<and> list_all (line_ok X) es \<and> chain X i p es"
    then obtain e fs where es: "es = e # fs" by auto
    with r have "verify_line X i p l = Inr e" "verify_from X (i + 1) (en_hash e) ls = Inr fs"
      using Cons.IH by (auto simp: verify_line_Inr)
    then show "verify_from X i p (l # ls) = Inr es" by (simp add: es)
  qed
qed auto

lemma verify_Inr:
  "verify X ls = Inr es \<longleftrightarrow> ls = map (ex_line X) es \<and> list_all (line_ok X) es \<and> chain X 0 GENESIS es"
  by (simp add: verify_def verify_from_Inr)

lemma chained_simps [simp]:
  "en_seq (chained X i p m ev) = i" "en_prev (chained X i p m ev) = p"
  "en_mission (chained X i p m ev) = m" "en_event (chained X i p m ev) = ev"
  "en_format (chained X i p m ev) = FORMAT"
  "en_hash (chained X i p m ev) = expected_hash X (chained X i p m ev)"
  by (simp_all add: chained_def Let_def expected_hash_def entry_parts_def)

lemma verify_append:
  assumes "verify X ls = Inr es" "e = chained X (length es) (last_hash GENESIS es) m ev" "line_ok X e"
  shows "verify X (ls @ [ex_line X e]) = Inr (es @ [e])"
  using assms by (auto simp: verify_Inr chain_append)

lemma verify_length: "verify X ls = Inr es \<Longrightarrow> length es = length ls"
  by (auto simp: verify_Inr)

lemma chain_seq: "chain X i p es \<Longrightarrow> k < length es \<Longrightarrow> en_seq (es ! k) = i + k"
  by (induction es arbitrary: i p k) (auto simp: nth_Cons split: nat.split)


section \<open>The head commits to the journal\<close>

definition entry_preimage :: "ext \<Rightarrow> entry \<Rightarrow> string" where
  "entry_preimage X e = ENTRY_DOMAIN @ concat (map lp (entry_parts X e))"

text \<open>The widths of an entry's fields: a \<open>u8\<close>, two \<open>u64\<close> and byte strings.\<close>

definition entry_rep :: "ext \<Rightarrow> entry \<Rightarrow> bool" where
  "entry_rep X e \<longleftrightarrow> en_format e < 256 \<and> en_seq e \<le> U64_MAX \<and> en_mission e \<le> U64_MAX
     \<and> length (en_prev e) \<le> U64_MAX \<and> length (ex_event_json X (en_event e)) \<le> U64_MAX"

lemma char_of_inj: "m < 256 \<Longrightarrow> n < 256 \<Longrightarrow> (char_of m :: char) = char_of n \<longleftrightarrow> m = (n :: nat)"
  by (metis mod_less of_char_of)

lemma entry_preimage_inj:
  assumes "entry_preimage X e = entry_preimage X f" "entry_rep X e" "entry_rep X f"
    and "ex_event_json X (en_event e) = ex_event_json X (en_event f) \<Longrightarrow> en_event e = en_event f"
    and "en_hash e = en_hash f"
  shows "e = f"
proof -
  have lens: "\<forall>p \<in> set (entry_parts X e) \<union> set (entry_parts X f). length p \<le> U64_MAX"
    using assms(2,3) by (auto simp: entry_parts_def entry_rep_def U64_MAX_def)
  have "entry_parts X e = entry_parts X f"
    using assms(1) lens by (intro concat_lp_inj) (simp_all add: entry_preimage_def)
  then show ?thesis
    using assms(2-5)
    by (cases e, cases f) (auto simp: entry_parts_def entry_rep_def char_of_inj dest!: be64_inj)
qed

lemma chain_binding_aux:
  assumes "chain X 0 GENESIS es" "chain X 0 GENESIS fs" "es \<noteq> []" "fs \<noteq> []"
    and "en_hash (last es) = en_hash (last fs)"
    and "\<not> collision (ex_sha256 X) (entry_preimage X ` set es) (entry_preimage X ` set fs)"
    and "inj (ex_hex X)" "inj_on (ex_event_json X) (en_event ` (set es \<union> set fs))"
    and "list_all (entry_rep X) (es @ fs)"
  shows "es = fs"
  using assms
proof (induction es arbitrary: fs rule: rev_induct)
  case (snoc e es)
  obtain f fs' where fs: "fs = fs' @ [f]" using snoc.prems(4) by (cases fs rule: rev_cases) auto
  have e: "chain X 0 GENESIS es" "en_seq e = length es" "en_prev e = last_hash GENESIS es"
    "en_hash e = expected_hash X e"
    using snoc.prems(1) by (simp_all add: chain_append)
  have f: "chain X 0 GENESIS fs'" "en_seq f = length fs'" "en_prev f = last_hash GENESIS fs'"
    "en_hash f = expected_hash X f"
    using snoc.prems(2) by (simp_all add: chain_append fs)
  have h: "en_hash e = en_hash f" using snoc.prems(5) by (simp add: fs)
  then have "ex_sha256 X (entry_preimage X e) = ex_sha256 X (entry_preimage X f)"
    using snoc.prems(7) e(4) f(4)
    by (simp add: expected_hash_def sha256_parts_def entry_preimage_def inj_eq)
  then have "entry_preimage X e = entry_preimage X f"
    using snoc.prems(6) by (auto simp: collision_def fs)
  then have ef: "e = f"
    using snoc.prems(8,9) h by (intro entry_preimage_inj) (auto simp: fs inj_on_def)
  then have len: "length es = length fs'" using e(2) f(2) by simp
  show ?case
  proof (cases "es = []")
    case True
    then show ?thesis using len ef by (simp add: fs)
  next
    case False
    then have "fs' \<noteq> []" using len by auto
    moreover have "en_hash (last es) = en_hash (last fs')"
      using e(3) f(3) ef False calculation by (simp add: last_hash_def)
    moreover have "\<not> collision (ex_sha256 X) (entry_preimage X ` set es) (entry_preimage X ` set fs')"
      using snoc.prems(6) by (auto simp: collision_def fs)
    moreover have "inj_on (ex_event_json X) (en_event ` (set es \<union> set fs'))"
      using snoc.prems(8) by (rule inj_on_subset) (auto simp: fs)
    ultimately have "es = fs'"
      using snoc.IH [of fs'] e(1) f(1) False snoc.prems(7,9) by (simp add: fs)
    then show ?thesis by (simp add: fs ef)
  qed
qed simp

text \<open>Concrete externals for examples: a constant hash, and a line that names its entry by its number
  in a given list.\<close>

definition sample_ext :: "entry list \<Rightarrow> ext" where
  "sample_ext es = \<lparr>ex_sha256 = (\<lambda>_. ''h''), ex_hex = (\<lambda>s. s), ex_unhex = Some,
     ex_event_json = (\<lambda>ev. if ev = EvSessionOpened then ''o'' else ''e''), ex_checks_json = (\<lambda>_. ''c''),
     ex_line = (\<lambda>e. replicate (en_seq e) (CHR ''x'')), ex_format = (\<lambda>_. Some (Some FORMAT)),
     ex_parse_entry = (\<lambda>l. if length l < length es then Some (es ! length l) else None)\<rparr>"

definition sample_entry :: "nat \<Rightarrow> nat \<Rightarrow> event \<Rightarrow> entry" where
  "sample_entry i m ev = \<lparr>en_format = FORMAT, en_seq = i, en_prev = (if i = 0 then GENESIS else ''h''),
     en_mission = m, en_event = ev, en_hash = ''h''\<rparr>"

lemmas sample_simps = sample_ext_def sample_entry_def line_ok_def expected_hash_def sha256_parts_def

text \<open>Verification accepts exactly the printed hash chains. A journal is accepted, with its
  entries, exactly when its lines are the entries' own canonical lines (each of this format and read
  back as that entry), and the entries are numbered from 0, chained from the genesis value and each
  carry the hash of their contents. So an accepted journal stays accepted when the next chained entry
  is appended, and each of its prefixes is accepted.\<close>

lemma verify_exact:
  "(verify X ls = Inr es \<longleftrightarrow> ls = map (ex_line X) es \<and> list_all (line_ok X) es \<and> chain X 0 GENESIS es)
   \<and> (verify X ls = Inr es \<longrightarrow> line_ok X (chained X (length ls) (last_hash GENESIS es) m ev) \<longrightarrow>
        verify X (ls @ [ex_line X (chained X (length ls) (last_hash GENESIS es) m ev)])
          = Inr (es @ [chained X (length ls) (last_hash GENESIS es) m ev]))
   \<and> (verify X ls = Inr es \<longrightarrow> verify X (take k ls) = Inr (take k es))"
proof (intro conjI impI)
  show "verify X ls = Inr es \<longleftrightarrow>
      ls = map (ex_line X) es \<and> list_all (line_ok X) es \<and> chain X 0 GENESIS es"
    by (rule verify_Inr)
next
  assume v: "verify X ls = Inr es" and "line_ok X (chained X (length ls) (last_hash GENESIS es) m ev)"
  then show "verify X (ls @ [ex_line X (chained X (length ls) (last_hash GENESIS es) m ev)])
      = Inr (es @ [chained X (length ls) (last_hash GENESIS es) m ev])"
    using verify_length [OF v] by (intro verify_append) simp_all
next
  assume v: "verify X ls = Inr es"
  moreover have "chain X 0 GENESIS (take k es)"
    using v chain_append [of X 0 GENESIS "take k es" "drop k es"] by (simp add: verify_Inr)
  ultimately show "verify X (take k ls) = Inr (take k es)"
    by (auto simp: verify_Inr take_map list_all_iff dest: in_set_takeD)
qed

lemma verify_exact_sample:
  "verify (sample_ext [sample_entry 0 0 EvSessionOpened, sample_entry 1 0 EvSessionClosed]) [[]] =
     Inr [sample_entry 0 0 EvSessionOpened]
   \<and> verify (sample_ext [sample_entry 0 0 EvSessionOpened, sample_entry 1 0 EvSessionClosed]) [[], ''x''] =
     Inr [sample_entry 0 0 EvSessionOpened, sample_entry 1 0 EvSessionClosed]"
proof -
  let ?X = "sample_ext [sample_entry 0 0 EvSessionOpened, sample_entry 1 0 EvSessionClosed]"
  let ?es = "[sample_entry 0 0 EvSessionOpened]"
  have v: "verify ?X [[]] = Inr ?es" by (simp add: verify_Inr sample_simps)
  have c: "chained ?X 1 ''h'' 0 EvSessionClosed = sample_entry 1 0 EvSessionClosed"
    by (simp add: chained_def Let_def sample_simps)
  have "line_ok ?X (chained ?X 1 ''h'' 0 EvSessionClosed)" unfolding c by (simp add: sample_simps)
  then have "verify ?X [[], ex_line ?X (chained ?X 1 ''h'' 0 EvSessionClosed)]
      = Inr [sample_entry 0 0 EvSessionOpened, chained ?X 1 ''h'' 0 EvSessionClosed]"
    using verify_exact [of ?X "[[]]" ?es 0 EvSessionClosed 0] v by (simp add: last_hash_def sample_entry_def)
  then show ?thesis using v unfolding c by (simp add: sample_simps)
qed

text \<open>C7: the head commits to the whole journal. Two accepted, non-empty journals whose last entries
  carry the same hash have the same entries, or their entries exhibit two different byte strings with
  the same SHA-256: an edited, reordered, inserted or removed entry cannot leave the head as it was.\<close>

theorem journal_head_binding:
  assumes "verify X ls = Inr es" "verify X ms = Inr fs" "es \<noteq> []" "fs \<noteq> []"
    and "en_hash (last es) = en_hash (last fs)"
    and "inj (ex_hex X)" "inj_on (ex_event_json X) (en_event ` (set es \<union> set fs))"
    and "list_all (entry_rep X) (es @ fs)"
  shows "(es = fs \<and> ls = ms)
    \<or> collision (ex_sha256 X) (entry_preimage X ` set es) (entry_preimage X ` set fs)"
  using chain_binding_aux [of X es fs] assms by (auto simp: verify_Inr)

theorem journal_head_binding_witness:
  "\<exists>X es fs. es \<noteq> fs \<and> verify X (map (ex_line X) es) = Inr es \<and> verify X (map (ex_line X) fs) = Inr fs
     \<and> en_hash (last es) = en_hash (last fs)
     \<and> collision (ex_sha256 X) (entry_preimage X ` set es) (entry_preimage X ` set fs)"
proof -
  let ?e = "sample_entry 0 0 EvSessionOpened" and ?f = "sample_entry 0 0 EvResumed"
  let ?X = "(sample_ext [])\<lparr>ex_line := \<lambda>e. if e = ?e then ''e'' else ''f'',
    ex_parse_entry := \<lambda>l. if l = ''e'' then Some ?e else Some ?f\<rparr>"
  have e: "verify ?X (map (ex_line ?X) [?e]) = Inr [?e]" and f: "verify ?X (map (ex_line ?X) [?f]) = Inr [?f]"
    by (simp_all add: verify_Inr sample_simps)
  have "inj (ex_hex ?X)" "inj_on (ex_event_json ?X) (en_event ` (set [?e] \<union> set [?f]))"
    by (simp_all add: sample_simps)
  moreover have "list_all (entry_rep ?X) ([?e] @ [?f])"
    by (simp add: entry_rep_def sample_simps U64_MAX_def FORMAT_def GENESIS_def)
  ultimately have "([?e] = [?f] \<and> map (ex_line ?X) [?e] = map (ex_line ?X) [?f])
    \<or> collision (ex_sha256 ?X) (entry_preimage ?X ` set [?e]) (entry_preimage ?X ` set [?f])"
    by (intro journal_head_binding [OF e f]) (simp_all add: sample_entry_def)
  moreover have "[?e] \<noteq> [?f]" by (simp add: sample_entry_def)
  ultimately show ?thesis using e f by (intro exI [of _ ?X] exI [of _ "[?e]"] exI [of _ "[?f]"]) (simp add: sample_entry_def)
qed

end
