(* ===== verification/Mother_Replay.thy ===== *)
theory Mother_Replay
  imports Mother_Mission Mother_Chain
begin

text \<open>The replay of a verified journal (\<open>mother/src/coordinator.rs\<close>, \<open>replay\<close> and
  \<open>inspect_history_lines\<close>): each entry is checked as evidence, then taken by the same transition table
  and in the order the live coordinator writes, or the journal is refused with a closed code.
  The coordinator's ordered map of missions is an association list in the order of its keys.\<close>


section \<open>Ordered maps\<close>

text \<open>\<open>BTreeMap::insert\<close> and \<open>values_mut\<close> on an association list sorted by key.\<close>

fun bt_insert :: "nat \<Rightarrow> 'v \<Rightarrow> (nat \<times> 'v) list \<Rightarrow> (nat \<times> 'v) list" where
  "bt_insert k v [] = [(k, v)]"
| "bt_insert k v ((i, w) # xs) =
     (if k < i then (k, v) # (i, w) # xs else if k = i then (k, v) # xs else (i, w) # bt_insert k v xs)"

definition bt_map :: "('v \<Rightarrow> 'w) \<Rightarrow> (nat \<times> 'v) list \<Rightarrow> (nat \<times> 'w) list" where
  "bt_map f xs = map (\<lambda>(k, v). (k, f v)) xs"

definition bt_sorted :: "(nat \<times> 'v) list \<Rightarrow> bool" where
  "bt_sorted xs \<longleftrightarrow> sorted_wrt (<) (map fst xs)"

lemma bt_insert_keys: "fst ` set (bt_insert k v xs) = insert k (fst ` set xs)"
  by (induction k v xs rule: bt_insert.induct) auto

lemma bt_sorted_insert: "bt_sorted xs \<Longrightarrow> bt_sorted (bt_insert k v xs)"
proof (induction xs)
  case (Cons x xs)
  obtain i w where x: "x = (i, w)" by (cases x)
  have "\<forall>y \<in> fst ` set (bt_insert k v xs). y = k \<or> y \<in> fst ` set xs" by (simp add: bt_insert_keys)
  with Cons show ?case by (fastforce simp: bt_sorted_def x)
qed (simp add: bt_sorted_def)

lemma map_of_bt_insert:
  "bt_sorted xs \<Longrightarrow> map_of (bt_insert k v xs) j = (if j = k then Some v else map_of xs j)"
  by (induction xs) (auto simp: bt_sorted_def)

lemma map_of_bt_map [simp]: "map_of (bt_map f xs) k = map_option f (map_of xs k)"
  by (induction xs) (auto simp: bt_map_def)

lemma bt_sorted_map [simp]: "bt_sorted (bt_map f xs) = bt_sorted xs"
  by (simp add: bt_sorted_def bt_map_def comp_def case_prod_beta')

lemma bt_keys_map [simp]: "map fst (bt_map f xs) = map fst xs"
  by (simp add: bt_map_def comp_def case_prod_beta')

lemma bt_empty_sorted [simp]: "bt_sorted []"
  by (simp add: bt_sorted_def)


section \<open>Replaying one entry\<close>

definition MAX_MISSIONS :: nat where
  "MAX_MISSIONS = 1024"

definition MAX_EFFECTS_PER_CALL :: nat where
  "MAX_EFFECTS_PER_CALL = 16"

definition phase_roles :: "mission_state \<Rightarrow> lane_role list" where
  "phase_roles phase =
     (if phase = MsInvestigating then [Sentinel, ResearcherA, ResearcherB, Skeptic]
      else if phase = MsBuilding then [Sentinel, Builder]
      else if phase = MsVerifying then [Sentinel, Verifier]
      else [])"

definition ends_with :: "'a list \<Rightarrow> 'a list \<Rightarrow> bool" where
  "ends_with xs ys \<longleftrightarrow> length ys \<le> length xs \<and> drop (length xs - length ys) xs = ys"

datatype session = SnNever | SnOpen | SnClosed

record replay_state =
  rs_missions :: "(nat \<times> mission) list"
  rs_next_mission :: nat
  rs_session :: session

definition replay_init :: replay_state where
  "replay_init = \<lparr>rs_missions = [], rs_next_mission = 1, rs_session = SnNever\<rparr>"

text \<open>The end a settlement's line must carry.\<close>

definition expected_end :: "mission \<Rightarrow> nat \<Rightarrow> pending_action option \<Rightarrow> settlement_outcome \<Rightarrow> replay_violation + settlement_end option" where
  "expected_end m e action out =
     (let page = settled_end m e ((case out of SoPublished r c \<Rightarrow> True | _ \<Rightarrow> False) \<and> action \<noteq> None)
      in case m_settlement m of
        Some (started, cause) \<Rightarrow>
          if started = e
          then Inr (case page of Some p \<Rightarrow> Some p | None \<Rightarrow> Some (SettleCause_end cause out))
          else Inl RvSettlementConflict
      | None \<Rightarrow>
          if m_unresolved_file m = Some e \<and> (case m_waiting m of None \<Rightarrow> False | Some w \<Rightarrow> wt_effect w = e)
          then Inr (case page of Some p \<Rightarrow> Some p
                    | None \<Rightarrow> (case ordinary_end out of Some x \<Rightarrow> Some x | None \<Rightarrow> deadline_end out))
          else Inl RvSettlementOutOfPlace)"

definition settled_guard :: "mission \<Rightarrow> nat \<Rightarrow> pending_action option \<Rightarrow> settlement_outcome \<Rightarrow> settlement_end \<Rightarrow> replay_violation option" where
  "settled_guard m e action out fin = (case expected_end m e action out of
     Inl v \<Rightarrow> Some v
   | Inr expected \<Rightarrow>
       if expected \<noteq> Some fin then Some RvSettlementConflict
       else if (case m_open_action m of None \<Rightarrow> False | Some (i, pending) \<Rightarrow> i = e \<and> action \<noteq> Some pending)
       then Some RvSettlementConflict
       else if early_conflict m e action then Some RvProofConflict
       else None)"

definition trigger_guard :: "mission \<Rightarrow> trigger \<Rightarrow> replay_violation option" where
  "trigger_guard m trigger =
     (let hash = cr_contract_hash (m_contract_ref m)
      in case trigger of
        TgSubmit h \<Rightarrow> if h \<noteq> hash then Some RvSubmitOtherHash else None
      | TgConsent h at_ms \<Rightarrow> if h \<noteq> hash then Some RvConsentOtherHash else None
      | TgDeny h \<Rightarrow> if h \<noteq> hash then Some RvConsentOtherHash else None
      | TgStart \<Rightarrow> if \<not> consented m then Some RvWorkWithoutConsent else None
      | TgVerifyPass \<Rightarrow>
          if pp_retained (m_proof m) \<noteq> None \<and> pp_verified (m_proof m) \<noteq> Some True
          then Some RvProofOutOfPlace else None
      | TgAwaitApproval e rest roles_left \<Rightarrow>
          if m_awaiting_settled m \<noteq> Some e then Some RvWaitNotAwaiting
          else if MAX_EFFECTS_PER_CALL \<le> rr_count rest
            \<or> \<not> ends_with (phase_roles (m_state m)) roles_left
            \<or> length (phase_roles (m_state m)) \<le> length roles_left
          then Some RvWaitNotWritten else None
      | TgActionApproved e phase \<Rightarrow>
          (case m_waiting m of
             None \<Rightarrow> Some RvApprovalOfOtherWait
           | Some w \<Rightarrow> if wt_effect w \<noteq> e \<or> wt_phase w \<noteq> phase then Some RvApprovalOfOtherWait else None)
      | TgActionDenied e \<Rightarrow>
          (case m_waiting m of None \<Rightarrow> Some RvEndOfOtherWait
           | Some w \<Rightarrow> if wt_effect w \<noteq> e then Some RvEndOfOtherWait else None)
      | TgApprovalLapsed e r \<Rightarrow>
          (case m_waiting m of None \<Rightarrow> Some RvEndOfOtherWait
           | Some w \<Rightarrow> if wt_effect w \<noteq> e then Some RvEndOfOtherWait else None)
      | TgSettled e action out fin \<Rightarrow> settled_guard m e action out fin
      | _ \<Rightarrow> None)"

definition ends_open_file :: "trigger \<Rightarrow> bool" where
  "ends_open_file trigger = (case trigger of
     TgStop r \<Rightarrow> True | TgBlock r \<Rightarrow> True | TgFail r \<Rightarrow> True | TgVerifyFail r \<Rightarrow> True | _ \<Rightarrow> False)"

definition is_settled :: "trigger \<Rightarrow> bool" where
  "is_settled trigger = (case trigger of TgSettled e a out fin \<Rightarrow> True | _ \<Rightarrow> False)"

definition while_unsettled :: "trigger \<Rightarrow> bool" where
  "while_unsettled trigger = (case trigger of
     TgStop r \<Rightarrow> True | TgSettled e a out fin \<Rightarrow> True | TgBlock r \<Rightarrow> r = BlEffectOutcomeUnknown | _ \<Rightarrow> False)"

text \<open>An accepted transition, with the record of an end and the replayed consent.\<close>

definition take_transition :: "nat \<Rightarrow> trigger \<Rightarrow> mission_state \<Rightarrow> mission \<Rightarrow> mission" where
  "take_transition sq trigger to_state m =
     (let n = apply_trigger trigger to_state 0 m;
          n = (if is_terminal to_state then n\<lparr>m_terminal_record := Some (trigger, Some sq)\<rparr> else n)
      in case trigger of TgConsent h at_ms \<Rightarrow> n\<lparr>m_consent := Some h\<rparr> | _ \<Rightarrow> n)"

definition replay_transition :: "nat \<Rightarrow> trigger \<Rightarrow> mission \<Rightarrow> replay_violation + mission" where
  "replay_transition sq trigger m = (case transition (m_state m) trigger of
     Inl err \<Rightarrow> Inl RvIllegalTransition
   | Inr to_state \<Rightarrow>
       if m_unresolved_file m \<noteq> None \<and> ends_open_file trigger then Inl RvSettlementConflict
       else if m_settlement m \<noteq> None \<and> \<not> is_settled trigger then Inl RvSettlementConflict
       else if m_unsettled m \<noteq> None \<and> \<not> while_unsettled trigger then Inl RvTransitionWhileUnsettled
       else case trigger_guard m trigger of
         Some v \<Rightarrow> Inl v
       | None \<Rightarrow> Inr (take_transition sq trigger to_state m))"

definition replay_charged :: "invocation_id \<Rightarrow> nat \<Rightarrow> mission \<Rightarrow> replay_violation + mission" where
  "replay_charged invocation call m =
     (if m_pending_lane m \<noteq> Some invocation \<or> \<not> is_working (m_state m) \<or> m_settlement m \<noteq> None
      then Inl RvModelChargeOutOfPlace
      else case m_call_accounting m of
        None \<Rightarrow> Inl RvModelChargeOutOfPlace
      | Some a \<Rightarrow> (case charge a invocation call (m_model_calls m) of
          Inl v \<Rightarrow> Inl v
        | Inr (b, n) \<Rightarrow> Inr (m\<lparr>m_call_accounting := Some b, m_model_calls := n\<rparr>)))"

definition replay_invoked :: "nat \<Rightarrow> nat \<Rightarrow> invocation_id \<Rightarrow> lane_role \<Rightarrow> nat \<Rightarrow> nat \<Rightarrow> mission \<Rightarrow> replay_violation + mission" where
  "replay_invoked mission_id sq invocation role model_cap model_budget m =
     (if m_settlement m \<noteq> None then Inl RvSettlementConflict
      else if \<not> is_working (m_state m) \<or> m_state m = MsExplaining \<or> m_pending_lane m \<noteq> None
        \<or> m_open_action m \<noteq> None \<or> iv_mission invocation \<noteq> mission_id \<or> iv_seq invocation \<noteq> sq
      then Inl RvLaneOutOfPlace
      else case reserved (m_model_calls m) invocation model_cap model_budget of
        Inl v \<Rightarrow> Inl v
      | Inr accounting \<Rightarrow>
          if U32_MAX < m_model_calls m + 1 then Inl RvModelChargeOutOfPlace
          else Inr (m\<lparr>m_call_accounting := accounting,
                 m_declared_model_budgets := (if 0 < model_cap
                   then m_declared_model_budgets m @ [model_budget] else m_declared_model_budgets m),
                 m_pending_lane := Some invocation,
                 m_proof := (m_proof m)\<lparr>pp_returned := None, pp_invoked := Some role\<rparr>,
                 m_model_calls := m_model_calls m + 1, m_awaiting_settled := None\<rparr>))"

definition replay_returned :: "invocation_id \<Rightarrow> string \<Rightarrow> mission \<Rightarrow> replay_violation + mission" where
  "replay_returned invocation output_hash m =
     (if m_pending_lane m \<noteq> Some invocation then Inl RvLaneAnswerWithoutCall
      else Inr (m\<lparr>m_pending_lane := None, m_call_accounting := None,
             m_prior_outputs := m_prior_outputs m @ [output_hash],
             m_proof := (m_proof m)\<lparr>pp_returned := Some invocation\<rparr>\<rparr>))"

definition replay_overtaken :: "invocation_id \<Rightarrow> mission \<Rightarrow> replay_violation + mission" where
  "replay_overtaken invocation m =
     (if m_pending_lane m \<noteq> Some invocation then Inl RvLaneAnswerWithoutCall
      else Inr (m\<lparr>m_pending_lane := None, m_call_accounting := None\<rparr>))"

definition replay_dispatched :: "nat \<Rightarrow> effect_kind \<Rightarrow> mission \<Rightarrow> replay_violation + mission" where
  "replay_dispatched e kind m =
     (if \<not> is_working (m_state m) \<or> e \<noteq> m_next_effect m \<or> m_unsettled m \<noteq> None
        \<or> m_open_action m \<noteq> None \<or> m_settlement m \<noteq> None
      then Inl RvDispatchOutOfPlace
      else Inr (m\<lparr>m_next_effect := m_next_effect m + 1, m_unsettled := Some e,
             m_dispatched_kind := Some kind,
             m_unresolved_file := (if m_file_mode m \<and> kind = KFile then Some e else m_unresolved_file m),
             m_dispatched_in_phase := True, m_awaiting_settled := None\<rparr>))"

definition replay_effect_settled :: "nat \<Rightarrow> settled_outcome \<Rightarrow> mission \<Rightarrow> replay_violation + mission" where
  "replay_effect_settled e outcome m =
     (if m_unsettled m \<noteq> Some e then Inl RvSettledNotDispatched
      else if outcome = SdAwaitingApproval
      then Inr (m\<lparr>m_unsettled := None, m_awaiting_settled := Some e\<rparr>)
      else if m_unresolved_file m = Some e
      then Inr (m\<lparr>m_unsettled := None, m_unresolved_file := None\<rparr>)
      else Inr (m\<lparr>m_unsettled := None\<rparr>))"

definition replay_pending :: "nat \<Rightarrow> pending_action \<Rightarrow> mission \<Rightarrow> replay_violation + mission" where
  "replay_pending e pending m =
     (if \<not> may_wait (m_state m) \<or> m_awaiting_settled m \<noteq> Some e \<or> m_open_action m \<noteq> None
        \<or> m_settlement m \<noteq> None
      then Inl RvPendingOutOfPlace
      else Inr (m\<lparr>m_open_action := Some (e, pending)\<rparr>))"

definition replay_closed :: "nat \<Rightarrow> mission \<Rightarrow> replay_violation + mission" where
  "replay_closed e m =
     (if m_file_mode m \<and> (m_unresolved_file m \<noteq> None \<or> m_terminal_uncertain m)
      then Inl RvSettlementConflict
      else if map_option fst (m_open_action m) \<noteq> Some e then Inl RvClosureOfNoAction
      else Inr (m\<lparr>m_open_action := None\<rparr>))"

definition replay_settlement :: "nat \<Rightarrow> settle_cause \<Rightarrow> mission \<Rightarrow> replay_violation + mission" where
  "replay_settlement e cause m =
     (if is_terminal (m_state m) \<or> m_settlement m \<noteq> None then Inl RvSettlementConflict
      else if m_unresolved_file m \<noteq> Some e then Inl RvSettlementOutOfPlace
      else Inr (m\<lparr>m_settlement := Some (e, cause), m_generation := m_generation m + 1\<rparr>))"

definition replay_held :: "held_reason \<Rightarrow> mission \<Rightarrow> replay_violation + mission" where
  "replay_held r m =
     (if is_terminal (m_state m) \<or> m_pending_lane m \<noteq> None \<or> m_unsettled m \<noteq> None
        \<or> m_dispatched_in_phase m \<or> m_settlement m \<noteq> None
      then Inl RvHoldOutOfPlace
      else Inr (m\<lparr>m_held := Some r, m_held_journaled := True, m_must_hold := False\<rparr>))"

definition replay_resumed :: "mission \<Rightarrow> replay_violation + mission" where
  "replay_resumed m =
     (if m_held m = None then Inl RvResumeNotHeld
      else if m_file_mode m \<or> m_settlement m \<noteq> None then Inl RvSettlementConflict
      else Inr (m\<lparr>m_held := None, m_held_journaled := False\<rparr>))"

definition replay_file_mode :: "mission \<Rightarrow> replay_violation + mission" where
  "replay_file_mode m =
     (if m_file_mode m \<or> m_state m \<noteq> MsDraft \<or> m_generation m \<noteq> 0 then Inl RvSettlementConflict
      else Inr (m\<lparr>m_file_mode := True\<rparr>))"

definition while_held :: "event \<Rightarrow> bool" where
  "while_held event = (case event of
     EvTransition trigger \<Rightarrow> (case trigger of TgStop r \<Rightarrow> True | TgSettled e a out fin \<Rightarrow> True | _ \<Rightarrow> False)
   | EvApprovalClosed e \<Rightarrow> True
   | EvResumed \<Rightarrow> True
   | EvSettlementStarted e c \<Rightarrow> True
   | _ \<Rightarrow> False)"

definition before_hold :: "mission_state \<Rightarrow> event \<Rightarrow> bool" where
  "before_hold s event = (case event of
     EvHeld r \<Rightarrow> True
   | EvLaneOvertaken iv \<Rightarrow> True
   | EvApprovalClosed e \<Rightarrow> True
   | EvSettlementStarted e c \<Rightarrow> True
   | EvTransition trigger \<Rightarrow> (case transition s trigger of Inl err \<Rightarrow> False | Inr u \<Rightarrow> is_terminal u)
   | _ \<Rightarrow> False)"

text \<open>The records of a drafted mission, past its own gates. Session records and drafts never get
  here.\<close>

definition replay_record :: "entry \<Rightarrow> mission \<Rightarrow> replay_violation + mission" where
  "replay_record en m = (case en_event en of
     EvTransition trigger \<Rightarrow> replay_transition (en_seq en) trigger m
   | EvModelCallCharged iv call \<Rightarrow> replay_charged iv call m
   | EvLaneInvoked iv role ident inp cap budget \<Rightarrow>
       replay_invoked (en_mission en) (en_seq en) iv role cap budget m
   | EvLaneReturned iv out \<Rightarrow> replay_returned iv out m
   | EvLaneOvertaken iv \<Rightarrow> replay_overtaken iv m
   | EvEffectDispatched e kind rh \<Rightarrow> replay_dispatched e kind m
   | EvEffectSettled e out \<Rightarrow> replay_effect_settled e out m
   | EvApprovalPending e pending \<Rightarrow> replay_pending e pending m
   | EvApprovalClosed e \<Rightarrow> replay_closed e m
   | EvSettlementStarted e cause \<Rightarrow> replay_settlement e cause m
   | EvHeld r \<Rightarrow> replay_held r m
   | EvResumed \<Rightarrow> replay_resumed m
   | EvDeliverableRetained iv e c s b \<Rightarrow> proof_replay en m
   | EvPublicationReceipt e a s b p ov \<Rightarrow> proof_replay en m
   | EvVerificationRecorded iv e d c \<Rightarrow> proof_replay en m
   | _ \<Rightarrow> Inr m)"

definition replay_mission :: "entry \<Rightarrow> mission \<Rightarrow> replay_violation + mission" where
  "replay_mission en m =
     (if en_event en = EvFileModeSelected then replay_file_mode m
      else if m_held m \<noteq> None \<and> \<not> while_held (en_event en) then Inl RvRecordWhileHeld
      else if m_must_hold m \<and> \<not> before_hold (m_state m) (en_event en) then Inl RvRecordBeforeHold
      else replay_record en m)"

definition mark_must_hold :: "mission \<Rightarrow> mission" where
  "mark_must_hold m = (if \<not> is_terminal (m_state m) \<and> m_held m = None then m\<lparr>m_must_hold := True\<rparr> else m)"

definition blocks_close :: "mission \<Rightarrow> bool" where
  "blocks_close m \<longleftrightarrow> m_must_hold m
     \<or> m_file_mode m \<and> (\<not> is_terminal (m_state m) \<or> m_unresolved_file m \<noteq> None \<or> m_terminal_uncertain m)"

definition replay_opened :: "replay_state \<Rightarrow> replay_state" where
  "replay_opened st = st\<lparr>rs_missions := bt_map (\<lambda>m.
       if rs_session st \<noteq> SnClosed then mark_must_hold (invalidate_calls m) else invalidate_calls m)
       (rs_missions st), rs_session := SnOpen\<rparr>"

definition replay_session_closed :: "replay_state \<Rightarrow> replay_violation + replay_state" where
  "replay_session_closed st =
     (if rs_session st \<noteq> SnOpen then Inl RvCloseOfNoSession
      else if list_ex (\<lambda>(k, m). blocks_close m) (rs_missions st) then Inl RvCloseWithUnheldMission
      else Inr (st\<lparr>rs_missions := bt_map invalidate_calls (rs_missions st), rs_session := SnClosed\<rparr>))"

definition replay_drafted :: "nat \<Rightarrow> contract_ref \<Rightarrow> replay_state \<Rightarrow> replay_violation + replay_state" where
  "replay_drafted i contract st =
     (if i \<noteq> rs_next_mission st then Inl RvDraftedOutOfOrder
      else if MAX_MISSIONS \<le> length (rs_missions st) then Inl RvTooManyMissions
      else Inr (st\<lparr>rs_missions := bt_insert i (mission_new contract None) (rs_missions st),
             rs_next_mission := i + 1\<rparr>))"

definition replay :: "replay_state \<Rightarrow> entry \<Rightarrow> replay_violation + replay_state" where
  "replay st en =
     (let i = en_mission en
      in if en_event en \<in> {EvSessionOpened, EvSessionClosed} \<and> i \<noteq> SESSION
         then Inl RvSessionRecordNamesMission
         else if en_event en = EvSessionOpened then Inr (replay_opened st)
         else if en_event en = EvSessionClosed then replay_session_closed st
         else if rs_session st = SnClosed then Inl RvRecordAfterClose
         else case en_event en of
           EvDrafted contract \<Rightarrow> replay_drafted i contract st
         | _ \<Rightarrow> (case map_of (rs_missions st) i of
             None \<Rightarrow> Inl RvNeverDrafted
           | Some m \<Rightarrow> (case replay_mission en m of
               Inl v \<Rightarrow> Inl v
             | Inr n \<Rightarrow> Inr (st\<lparr>rs_missions := bt_insert i n (rs_missions st)\<rparr>))))"


section \<open>Inspecting a history\<close>

fun replay_all :: "ext \<Rightarrow> nat \<Rightarrow> replay_state \<Rightarrow> entry list \<Rightarrow> journal_error + replay_state" where
  "replay_all X index st [] = Inr st"
| "replay_all X index st (en # rest) = (case evidence_check X (en_event en) of
     Inl code \<Rightarrow> Inl (JeInconsistent (index + 1) code)
   | Inr u \<Rightarrow> (case replay st en of
       Inl code \<Rightarrow> Inl (JeInconsistent (index + 1) code)
     | Inr st' \<Rightarrow> replay_all X (index + 1) st' rest))"

record history_mission =
  hm_mission :: nat
  hm_state :: mission_state
  hm_terminal :: "(trigger \<times> nat) option"
  hm_actions :: "(nat \<times> pending_action) list"

record history_inspection =
  hi_records :: nat
  hi_session_end_recorded :: bool
  hi_missions :: "(nat \<times> mission_state) list"
  hi_unresolved :: "nat list"
  hi_prior_acknowledgement_unavailable :: nat
  hi_details :: "history_mission list"

definition unresolved_mission :: "mission \<Rightarrow> bool" where
  "unresolved_mission m \<longleftrightarrow> \<not> is_terminal (m_state m) \<or> m_unresolved_file m \<noteq> None \<or> m_terminal_uncertain m
     \<or> m_unsettled m \<noteq> None \<or> m_open_action m \<noteq> None \<or> m_pending_lane m \<noteq> None"

fun mission_actions :: "nat \<Rightarrow> entry list \<Rightarrow> (nat \<times> pending_action) list \<Rightarrow> (nat \<times> pending_action) list" where
  "mission_actions i [] acc = acc"
| "mission_actions i (en # rest) acc = mission_actions i rest
     (if en_mission en \<noteq> i then acc
      else case en_event en of
        EvApprovalPending e pending \<Rightarrow> bt_insert e pending acc
      | EvTransition trigger \<Rightarrow> (case trigger of
          TgSettled e (Some action) out fin \<Rightarrow> bt_insert e action acc
        | _ \<Rightarrow> acc)
      | _ \<Rightarrow> acc)"

definition history_of :: "entry list \<Rightarrow> replay_state \<Rightarrow> history_inspection" where
  "history_of entries st = \<lparr>hi_records = length entries,
     hi_session_end_recorded = (rs_session st = SnClosed),
     hi_missions = map (\<lambda>(i, m). (i, m_state m)) (rs_missions st),
     hi_unresolved = map fst (filter (\<lambda>(i, m). unresolved_mission m) (rs_missions st)),
     hi_prior_acknowledgement_unavailable = sum_list (map (\<lambda>(i, m). length (m_acks m)) (rs_missions st)),
     hi_details = map (\<lambda>(i, m). \<lparr>hm_mission = i, hm_state = m_state m,
       hm_terminal = (case m_terminal_record m of Some (t, Some sq) \<Rightarrow> Some (t, sq) | _ \<Rightarrow> None),
       hm_actions = mission_actions i entries []\<rparr>) (rs_missions st)\<rparr>"

definition inspect_history_lines :: "ext \<Rightarrow> string list \<Rightarrow> journal_error + history_inspection" where
  "inspect_history_lines X ls = (case verify X ls of
     Inl err \<Rightarrow> Inl err
   | Inr entries \<Rightarrow> (case replay_all X 0 replay_init entries of
       Inl err \<Rightarrow> Inl err
     | Inr st \<Rightarrow> Inr (history_of entries st)))"

definition inspect_history :: "ext \<Rightarrow> memory_journal \<Rightarrow> journal_error + history_inspection" where
  "inspect_history X j = (case mj_load j of Inl err \<Rightarrow> Inl err | Inr ls \<Rightarrow> inspect_history_lines X ls)"

end
