(* ===== verification/Mother_Replay_Inv.thy ===== *)
theory Mother_Replay_Inv
  imports Mother_Replay
begin

text \<open>The library for the properties of accepted journals: what a transition writes, the case analysis
  of one replayed entry, and the invariants that every accepted journal keeps for each mission.\<close>


section \<open>What a transition writes\<close>

lemma resolve_waited_file_frame [simp]:
  "m_contract_ref (resolve_waited_file t m) = m_contract_ref m"
  "m_state (resolve_waited_file t m) = m_state m"
  "m_consent (resolve_waited_file t m) = m_consent m"
  "m_generation (resolve_waited_file t m) = m_generation m"
  "m_model_calls (resolve_waited_file t m) = m_model_calls m"
  "m_next_effect (resolve_waited_file t m) = m_next_effect m"
  "m_unsettled (resolve_waited_file t m) = m_unsettled m"
  "m_pending_lane (resolve_waited_file t m) = m_pending_lane m"
  "m_call_accounting (resolve_waited_file t m) = m_call_accounting m"
  "m_lane_calls (resolve_waited_file t m) = m_lane_calls m"
  "m_waiting (resolve_waited_file t m) = m_waiting m"
  "m_open_action (resolve_waited_file t m) = m_open_action m"
  "m_held (resolve_waited_file t m) = m_held m"
  "m_held_journaled (resolve_waited_file t m) = m_held_journaled m"
  "m_must_hold (resolve_waited_file t m) = m_must_hold m"
  "m_file_mode (resolve_waited_file t m) = m_file_mode m"
  "m_settlement (resolve_waited_file t m) = m_settlement m"
  "m_terminal_record (resolve_waited_file t m) = m_terminal_record m"
  "m_declared_model_budgets (resolve_waited_file t m) = m_declared_model_budgets m"
  "m_prior_outputs (resolve_waited_file t m) = m_prior_outputs m"
  "m_dispatched_kind (resolve_waited_file t m) = m_dispatched_kind m"
  "m_proof (resolve_waited_file t m) = m_proof m"
  by (simp_all add: resolve_waited_file_def Let_def split: option.split prod.split trigger.split)

lemma invalidate_calls_frame [simp]:
  "m_contract_ref (invalidate_calls m) = m_contract_ref m" "m_state (invalidate_calls m) = m_state m"
  "m_consent (invalidate_calls m) = m_consent m" "m_model_calls (invalidate_calls m) = m_model_calls m"
  "m_next_effect (invalidate_calls m) = m_next_effect m" "m_unsettled (invalidate_calls m) = m_unsettled m"
  "m_pending_lane (invalidate_calls m) = m_pending_lane m" "m_call_accounting (invalidate_calls m) = None"
  "m_lane_calls (invalidate_calls m) = None" "m_waiting (invalidate_calls m) = m_waiting m"
  "m_open_action (invalidate_calls m) = m_open_action m" "m_held (invalidate_calls m) = m_held m"
  "m_must_hold (invalidate_calls m) = m_must_hold m" "m_settlement (invalidate_calls m) = m_settlement m"
  "m_terminal_record (invalidate_calls m) = m_terminal_record m" "m_proof (invalidate_calls m) = m_proof m"
  "m_unresolved_file (invalidate_calls m) = m_unresolved_file m" "m_file_mode (invalidate_calls m) = m_file_mode m"
  "m_awaiting_settled (invalidate_calls m) = m_awaiting_settled m"
  "m_generation (invalidate_calls m) = m_generation m" "m_acks (invalidate_calls m) = m_acks m"
  "m_held_journaled (invalidate_calls m) = m_held_journaled m"
  "m_prior_outputs (invalidate_calls m) = m_prior_outputs m"
  "m_declared_model_budgets (invalidate_calls m) = m_declared_model_budgets m"
  "m_terminal_uncertain (invalidate_calls m) = m_terminal_uncertain m"
  "m_dispatched_in_phase (invalidate_calls m) = m_dispatched_in_phase m"
  "m_dispatched_kind (invalidate_calls m) = m_dispatched_kind m"
  by (simp_all add: invalidate_calls_def)

definition waiting_after :: "trigger \<Rightarrow> mission \<Rightarrow> waiting option" where
  "waiting_after t m = (case t of
     TgAwaitApproval e rest roles \<Rightarrow> Some \<lparr>wt_phase = m_state m, wt_effect = e, wt_rest_ref = rest,
       wt_rest = None, wt_roles_left = roles\<rparr>
   | TgActionApproved e p \<Rightarrow> None | TgApprovalLapsed e r \<Rightarrow> None | TgActionDenied e \<Rightarrow> None
   | TgSettled e a out fin \<Rightarrow> None
   | _ \<Rightarrow> m_waiting m)"

lemma apply_trigger_frame [simp]:
  "m_state (apply_trigger t u k m) = u"
  "m_contract_ref (apply_trigger t u k m) = (case t of TgRevise c \<Rightarrow> c | _ \<Rightarrow> m_contract_ref m)"
  "m_consent (apply_trigger t u k m) = (case t of TgRevise c \<Rightarrow> None | _ \<Rightarrow> m_consent m)"
  "m_generation (apply_trigger t u k m) = m_generation m + 1"
  "m_model_calls (apply_trigger t u k m) = m_model_calls m"
  "m_next_effect (apply_trigger t u k m) = m_next_effect m"
  "m_unsettled (apply_trigger t u k m) = (if is_settled t then None else m_unsettled m)"
  "m_pending_lane (apply_trigger t u k m) = (if is_settled t then None else m_pending_lane m)"
  "m_call_accounting (apply_trigger t u k m) = None"
  "m_lane_calls (apply_trigger t u k m) = None"
  "m_waiting (apply_trigger t u k m) = waiting_after t m"
  "m_open_action (apply_trigger t u k m) = m_open_action m"
  "m_held (apply_trigger t u k m) = (if is_terminal u then None else m_held m)"
  "m_must_hold (apply_trigger t u k m) = (if is_terminal u then False else m_must_hold m)"
  "m_file_mode (apply_trigger t u k m) = m_file_mode m"
  "m_settlement (apply_trigger t u k m) = m_settlement m"
  "m_terminal_record (apply_trigger t u k m) = m_terminal_record m"
  "m_declared_model_budgets (apply_trigger t u k m) = m_declared_model_budgets m"
  "m_awaiting_settled (apply_trigger t u k m) = None"
  "m_proof (apply_trigger t u k m) = m_proof m"
  by (simp_all add: apply_trigger_def enter_state_def trigger_effect_def Let_def is_settled_def
      waiting_after_def split: trigger.split)


section \<open>One replayed entry\<close>

lemmas record_defs = replay_record_def replay_charged_def replay_invoked_def replay_returned_def
  replay_overtaken_def replay_dispatched_def replay_effect_settled_def replay_pending_def
  replay_closed_def replay_settlement_def replay_held_def replay_resumed_def proof_replay_def
  replay_retained_def replay_receipt_def replay_verification_def

lemma take_transition_frame [simp]:
  "m_state (take_transition sq t u m) = u"
  "m_contract_ref (take_transition sq t u m) = (case t of TgRevise c \<Rightarrow> c | _ \<Rightarrow> m_contract_ref m)"
  "m_consent (take_transition sq t u m) =
     (case t of TgRevise c \<Rightarrow> None | TgConsent h a \<Rightarrow> Some h | _ \<Rightarrow> m_consent m)"
  "m_generation (take_transition sq t u m) = m_generation m + 1"
  "m_model_calls (take_transition sq t u m) = m_model_calls m"
  "m_next_effect (take_transition sq t u m) = m_next_effect m"
  "m_unsettled (take_transition sq t u m) = (if is_settled t then None else m_unsettled m)"
  "m_pending_lane (take_transition sq t u m) = (if is_settled t then None else m_pending_lane m)"
  "m_call_accounting (take_transition sq t u m) = None"
  "m_waiting (take_transition sq t u m) = waiting_after t m"
  "m_open_action (take_transition sq t u m) = m_open_action m"
  "m_held (take_transition sq t u m) = (if is_terminal u then None else m_held m)"
  "m_must_hold (take_transition sq t u m) = (if is_terminal u then False else m_must_hold m)"
  "m_file_mode (take_transition sq t u m) = m_file_mode m"
  "m_settlement (take_transition sq t u m) = m_settlement m"
  "m_terminal_record (take_transition sq t u m) =
     (if is_terminal u then Some (t, Some sq) else m_terminal_record m)"
  "m_awaiting_settled (take_transition sq t u m) = None"
  "m_proof (take_transition sq t u m) = m_proof m"
  by (cases t; simp add: take_transition_def Let_def)+

lemma replay_transitionE:
  assumes "replay_transition sq t m = Inr n"
  obtains u where "next_state (m_state m) t = Some u" "trigger_guard m t = None"
    "m_settlement m \<noteq> None \<Longrightarrow> is_settled t" "m_unsettled m \<noteq> None \<Longrightarrow> while_unsettled t"
    "m_unresolved_file m \<noteq> None \<Longrightarrow> \<not> ends_open_file t" "n = take_transition sq t u m"
  using assms by (auto simp: replay_transition_def split: sum.split_asm if_split_asm option.split_asm)

lemma replay_cases:
  assumes "replay st en = Inr st'"
  obtains
    (opened) "en_event en = EvSessionOpened" "en_mission en = SESSION" "st' = replay_opened st"
  | (closed) "en_event en = EvSessionClosed" "en_mission en = SESSION" "rs_session st = SnOpen"
      "list_all (\<lambda>(k, m). \<not> blocks_close m) (rs_missions st)"
      "st' = st\<lparr>rs_missions := bt_map invalidate_calls (rs_missions st), rs_session := SnClosed\<rparr>"
  | (drafted) c where "en_event en = EvDrafted c" "rs_session st \<noteq> SnClosed"
      "en_mission en = rs_next_mission st" "length (rs_missions st) < MAX_MISSIONS"
      "st' = st\<lparr>rs_missions := bt_insert (en_mission en) (mission_new c None) (rs_missions st),
         rs_next_mission := en_mission en + 1\<rparr>"
  | (logged) m n where "en_event en \<noteq> EvSessionOpened" "en_event en \<noteq> EvSessionClosed"
      "\<And>c. en_event en \<noteq> EvDrafted c" "rs_session st \<noteq> SnClosed"
      "map_of (rs_missions st) (en_mission en) = Some m" "replay_mission en m = Inr n"
      "st' = st\<lparr>rs_missions := bt_insert (en_mission en) n (rs_missions st)\<rparr>"
proof -
  consider "en_event en = EvSessionOpened" | "en_event en = EvSessionClosed"
    | c where "en_event en = EvDrafted c"
    | "en_event en \<noteq> EvSessionOpened" "en_event en \<noteq> EvSessionClosed" "\<And>c. en_event en \<noteq> EvDrafted c"
    by blast
  then show ?thesis
  proof cases
    case 1
    then show ?thesis using assms opened by (auto simp: replay_def Let_def split: if_split_asm)
  next
    case 2
    then show ?thesis using assms closed
      by (auto simp: replay_def Let_def replay_session_closed_def list_ex_iff list_all_iff split: if_split_asm)
  next
    case 3
    then show ?thesis using assms drafted
      by (auto simp: replay_def Let_def replay_drafted_def split: if_split_asm)
  next
    case 4
    have s: "rs_session st \<noteq> SnClosed" using 4 assms by (auto simp: replay_def Let_def)
    have r: "replay st en = (case map_of (rs_missions st) (en_mission en) of
        None \<Rightarrow> Inl RvNeverDrafted
      | Some m \<Rightarrow> (case replay_mission en m of Inl v \<Rightarrow> Inl v
        | Inr n \<Rightarrow> Inr (st\<lparr>rs_missions := bt_insert (en_mission en) n (rs_missions st)\<rparr>)))"
      using 4 s by (cases "en_event en") (auto simp: replay_def Let_def)
    obtain m n where "map_of (rs_missions st) (en_mission en) = Some m" "replay_mission en m = Inr n"
      "st' = st\<lparr>rs_missions := bt_insert (en_mission en) n (rs_missions st)\<rparr>"
      using assms unfolding r by (auto split: option.split_asm sum.split_asm)
    then show ?thesis using logged 4 s by blast
  qed
qed

text \<open>A record of a mission is accepted past the gates, or it selects the File mode of a draft.\<close>

lemma replay_mission_cases:
  assumes "replay_mission en m = Inr n"
  obtains
    (file_mode) "en_event en = EvFileModeSelected" "\<not> m_file_mode m" "m_state m = MsDraft"
      "m_generation m = 0" "n = m\<lparr>m_file_mode := True\<rparr>"
  | (past_gates) "en_event en \<noteq> EvFileModeSelected" "m_held m \<noteq> None \<Longrightarrow> while_held (en_event en)"
      "m_must_hold m \<Longrightarrow> before_hold (m_state m) (en_event en)" "replay_record en m = Inr n"
  using assms by (auto simp: replay_mission_def replay_file_mode_def split: if_split_asm)


section \<open>Accepted journals\<close>

lemma replay_all_append:
  "replay_all X i st (xs @ ys) = (case replay_all X i st xs of
     Inl err \<Rightarrow> Inl err | Inr st' \<Rightarrow> replay_all X (i + length xs) st' ys)"
  by (induction xs arbitrary: i st) (auto simp: evidence_check_def split: sum.split)

definition accepted :: "ext \<Rightarrow> entry list \<Rightarrow> replay_state \<Rightarrow> bool" where
  "accepted X es st \<longleftrightarrow> replay_all X 0 replay_init es = Inr st"

lemma accepted_Nil [simp]: "accepted X [] st \<longleftrightarrow> st = replay_init"
  by (auto simp: accepted_def)

lemma accepted_snoc:
  "accepted X (es @ [en]) st' \<longleftrightarrow> (\<exists>st. accepted X es st \<and> evidence_ok X (en_event en) \<and> replay st en = Inr st')"
  by (auto simp: accepted_def replay_all_append evidence_check_def split: sum.split)

lemma accepted_prefix: "accepted X (es @ fs) st \<Longrightarrow> \<exists>st'. accepted X es st'"
  by (auto simp: accepted_def replay_all_append split: sum.split_asm)

lemma accepted_take: "accepted X es st \<Longrightarrow> \<exists>st'. accepted X (take k es) st'"
  using accepted_prefix [of X "take k es" "drop k es" st] by simp

lemma accepted_at:
  assumes "accepted X es st" "k < length es"
  obtains st1 st2 where "accepted X (take k es) st1" "evidence_ok X (en_event (es ! k))"
    "replay st1 (es ! k) = Inr st2" "accepted X (take (Suc k) es) st2"
proof -
  obtain st2 where "accepted X (take (Suc k) es) st2" using accepted_take [OF assms(1)] by blast
  moreover have "take (Suc k) es = take k es @ [es ! k]" using assms(2) by (rule take_Suc_conv_app_nth)
  ultimately show ?thesis using that by (auto simp: accepted_snoc)
qed

lemma accepted_induct [consumes 1, case_names Nil snoc]:
  assumes "accepted X es st"
    and "P [] replay_init"
    and "\<And>es st en st'. accepted X es st \<Longrightarrow> P es st \<Longrightarrow> evidence_ok X (en_event en) \<Longrightarrow>
      replay st en = Inr st' \<Longrightarrow> P (es @ [en]) st'"
  shows "P es st"
  using assms(1)
proof (induction es arbitrary: st rule: rev_induct)
  case Nil
  then show ?case using assms(2) by simp
next
  case (snoc en es)
  then show ?case using assms(3) by (auto simp: accepted_snoc)
qed


section \<open>Invariants of a mission\<close>

text \<open>The consent is to the current contract, and no work is possible without it.\<close>

definition inv_consent :: "mission \<Rightarrow> bool" where
  "inv_consent m \<longleftrightarrow> (m_consent m \<noteq> None \<longrightarrow> consented m)
     \<and> (m_state m = MsApproved \<or> is_working (m_state m) \<or> m_state m = MsAwaitingApproval \<longrightarrow> consented m)"

text \<open>A wait belongs to the phase it paused.\<close>

definition inv_wait :: "mission \<Rightarrow> bool" where
  "inv_wait m \<longleftrightarrow>
     (m_state m = MsAwaitingApproval \<longrightarrow> (\<exists>w. m_waiting m = Some w \<and> may_wait (wt_phase w)))
     \<and> (\<not> is_terminal (m_state m) \<and> m_state m \<noteq> MsAwaitingApproval \<longrightarrow> m_waiting m = None)"

text \<open>An ended mission is held by nothing, and its end is recorded.\<close>

definition inv_ended :: "mission \<Rightarrow> bool" where
  "inv_ended m \<longleftrightarrow> (is_terminal (m_state m) \<longrightarrow>
     m_held m = None \<and> \<not> m_must_hold m \<and> m_call_accounting m = None \<and> m_terminal_record m \<noteq> None)"

text \<open>The calls an invocation may still charge fit its declared budget.\<close>

definition inv_calls :: "mission \<Rightarrow> bool" where
  "inv_calls m \<longleftrightarrow> (\<forall>a. m_call_accounting m = Some a \<longrightarrow>
     m_pending_lane m = Some (ca_invocation a) \<and> 1 \<le> ca_cap a \<and> ca_cap a \<le> 4
     \<and> ca_budget a \<le> MAX_MODEL_CALLS \<and> 1 \<le> ca_next a \<and> ca_next a \<le> ca_cap a + 1
     \<and> (ca_prepaid a \<longleftrightarrow> ca_next a = 1) \<and> m_model_calls m + ca_cap a \<le> ca_budget a + max 1 (ca_next a - 1))"

text \<open>A receipt belongs to the retained page; a passed verification rests on a clean receipt and on
  passing checks; a page mission is explained only after it.\<close>

definition clean_receipt :: "recorded_receipt \<Rightarrow> bool" where
  "clean_receipt r \<longleftrightarrow> rc_policy_hash r \<noteq> None \<and> \<not> rc_overtaken r"

definition inv_proof :: "mission \<Rightarrow> bool" where
  "inv_proof m \<longleftrightarrow> (let p = m_proof m in
     (\<forall>r. pp_receipt p = Some r \<longrightarrow> (\<exists>d. pp_retained p = Some d \<and> rt_effect d = rc_effect r))
     \<and> (pp_verified p = Some True \<longrightarrow>
          (\<exists>cs r. pp_checks p = Some cs \<and> list_all (\<lambda>(nm, code). code = ''pass'') cs
             \<and> pp_receipt p = Some r \<and> clean_receipt r))
     \<and> (m_state m \<in> {MsExplaining, MsDone} \<and> pp_retained p \<noteq> None \<longrightarrow> pp_verified p = Some True))"

lemmas mission_invs = inv_consent_def inv_wait_def inv_ended_def inv_calls_def inv_proof_def

text \<open>The states in which the mission acts under a consent.\<close>

definition active :: "mission_state \<Rightarrow> bool" where
  "active s \<longleftrightarrow> s = MsApproved \<or> is_working s \<or> s = MsAwaitingApproval"

lemma next_state_active:
  "next_state s t = Some u \<Longrightarrow> active u \<Longrightarrow> active s \<and> (\<forall>c. t \<noteq> TgRevise c) \<or> (\<exists>h a. t = TgConsent h a)"
  by (cases t) (auto simp: next_state_def active_def state_classes split: if_split_asm settlement_end.split_asm)

lemma consented_take_transition:
  "consented (take_transition sq t u m) = (case t of TgRevise c \<Rightarrow> False
     | TgConsent h a \<Rightarrow> h = cr_contract_hash (m_contract_ref m) | _ \<Rightarrow> consented m)"
  by (cases t) (simp_all add: consented_def)

lemma inv_consent_alt:
  "inv_consent m \<longleftrightarrow> (m_consent m \<noteq> None \<longrightarrow> consented m) \<and> (active (m_state m) \<longrightarrow> consented m)"
  by (simp add: inv_consent_def active_def)

lemma inv_consent_transition: "replay_transition sq t m = Inr n \<Longrightarrow> inv_consent m \<Longrightarrow> inv_consent n"
proof (erule replay_transitionE)
  fix u assume u: "next_state (m_state m) t = Some u" and g: "trigger_guard m t = None"
    and n: "n = take_transition sq t u m" and i: "inv_consent m"
  show "inv_consent n"
  proof (cases "\<exists>h a. t = TgConsent h a")
    case True
    then show ?thesis using g unfolding n
      by (auto simp: inv_consent_alt consented_take_transition trigger_guard_def split: if_split_asm)
  next
    case False
    have "active u \<longrightarrow> active (m_state m) \<and> (\<forall>c. t \<noteq> TgRevise c)"
      using next_state_active [OF u] False by blast
    then show ?thesis using i False unfolding n inv_consent_alt consented_take_transition
      by (cases t) simp_all
  qed
qed

lemma inv_wait_transition:
  assumes "replay_transition sq t m = Inr n" "inv_wait m"
  shows "inv_wait n"
  using assms(1)
proof (rule replay_transitionE)
  fix u assume u: "next_state (m_state m) t = Some u" and n: "n = take_transition sq t u m"
  consider (awaits) "\<exists>e rest roles. t = TgAwaitApproval e rest roles" "may_wait (m_state m)" "u = MsAwaitingApproval"
    | (gone) "waiting_after t m = None" "u \<noteq> MsAwaitingApproval"
    | (same) "waiting_after t m = m_waiting m" "u \<noteq> MsAwaitingApproval"
        "is_terminal u \<or> m_state m \<noteq> MsAwaitingApproval \<and> \<not> is_terminal (m_state m)"
    using u by (cases t) (auto simp: next_state_def waiting_after_def state_classes split: if_split_asm settlement_end.splits)
  then show "inv_wait n"
    using assms(2) unfolding n by cases (auto simp: inv_wait_def waiting_after_def)
qed

lemma inv_ended_transition: "replay_transition sq t m = Inr n \<Longrightarrow> inv_ended n"
  by (erule replay_transitionE) (simp add: inv_ended_def)

lemma inv_calls_transition: "replay_transition sq t m = Inr n \<Longrightarrow> inv_calls n"
  by (erule replay_transitionE) (simp add: inv_calls_def)

lemma inv_proof_transition: "replay_transition sq t m = Inr n \<Longrightarrow> inv_proof m \<Longrightarrow> inv_proof n"
proof (erule replay_transitionE)
  fix u assume u: "next_state (m_state m) t = Some u" "trigger_guard m t = None"
    and n: "n = take_transition sq t u m" and i: "inv_proof m"
  have "m_state m \<in> {MsExplaining, MsDone} \<or> (t = TgVerifyPass \<and> m_state m = MsVerifying)"
    if "u \<in> {MsExplaining, MsDone}"
    using u(1) that by (auto simp: next_state_Explaining next_state_Done)
  then show "inv_proof n"
    using u i unfolding n inv_proof_def Let_def
    by (auto simp: trigger_guard_def split: if_split_asm)
qed

text \<open>The other records leave the mission's state, contract, consent and wait alone.\<close>

lemma record_frame_conj:
  assumes "replay_record en m = Inr n" "\<And>t. en_event en \<noteq> EvTransition t"
  shows "m_state n = m_state m \<and> m_consent n = m_consent m \<and> m_contract_ref n = m_contract_ref m
    \<and> m_waiting n = m_waiting m \<and> m_terminal_record n = m_terminal_record m \<and> m_file_mode n = m_file_mode m"
proof (cases "en_event en")
  case (EvTransition t)
  then show ?thesis using assms(2) by simp
qed (use assms(1) in \<open>auto simp: record_defs split: if_split_asm sum.split_asm option.split_asm\<close>)

lemma record_frame:
  assumes "replay_record en m = Inr n" "\<And>t. en_event en \<noteq> EvTransition t"
  shows "m_state n = m_state m" "m_consent n = m_consent m" "m_contract_ref n = m_contract_ref m"
    "m_waiting n = m_waiting m" "m_terminal_record n = m_terminal_record m" "m_file_mode n = m_file_mode m"
  using record_frame_conj [OF assms] by auto

text \<open>What holds of the state, contract, consent and wait is a matter of the transitions.\<close>

lemma record_transitions:
  assumes "replay_record en m = Inr n"
    and "\<And>t. replay_transition (en_seq en) t m = Inr n \<Longrightarrow> P n"
    and "m_state n = m_state m \<Longrightarrow> m_consent n = m_consent m \<Longrightarrow> m_contract_ref n = m_contract_ref m \<Longrightarrow>
      m_waiting n = m_waiting m \<Longrightarrow> m_terminal_record n = m_terminal_record m \<Longrightarrow>
      m_file_mode n = m_file_mode m \<Longrightarrow> P n"
  shows "P n"
proof (cases "\<exists>t. en_event en = EvTransition t")
  case True
  then show ?thesis using assms(1,2) by (auto simp: replay_record_def)
next
  case False
  then have no: "en_event en \<noteq> EvTransition t" for t by simp
  show ?thesis by (rule assms(3) [OF record_frame [OF assms(1) no]])
qed

lemma inv_consent_record:
  assumes "replay_record en m = Inr n" "inv_consent m"
  shows "inv_consent n"
  using assms(1)
proof (rule record_transitions)
  show "replay_transition (en_seq en) t m = Inr n \<Longrightarrow> inv_consent n" for t
    by (rule inv_consent_transition [OF _ assms(2)])
qed (use assms(2) in \<open>unfold inv_consent_def consented_def, metis\<close>)

lemma inv_wait_record:
  assumes "replay_record en m = Inr n" "inv_wait m"
  shows "inv_wait n"
  using assms(1)
proof (rule record_transitions)
  show "replay_transition (en_seq en) t m = Inr n \<Longrightarrow> inv_wait n" for t
    by (rule inv_wait_transition [OF _ assms(2)])
qed (use assms(2) in \<open>unfold inv_wait_def, metis\<close>)

lemma charge_Inr:
  assumes "charge a iv c total_calls = Inr (b, k)"
  shows "iv = ca_invocation a" "c = ca_next a" "ca_next a \<le> ca_cap a"
    "b = a\<lparr>ca_prepaid := (if ca_next a = 1 then False else ca_prepaid a), ca_next := ca_next a + 1\<rparr>"
    "k = (if ca_next a = 1 then total_calls else total_calls + 1)"
  using assms by (auto simp: charge_def split: if_split_asm)

lemma inv_calls_charged:
  assumes "replay_charged iv c m = Inr n" "inv_calls m"
  shows "inv_calls n"
proof -
  obtain a b k where a: "m_call_accounting m = Some a" "charge a iv c (m_model_calls m) = Inr (b, k)"
    "n = m\<lparr>m_call_accounting := Some b, m_model_calls := k\<rparr>"
    using assms(1) by (auto simp: replay_charged_def split: if_split_asm option.split_asm sum.split_asm)
  from assms(2) a(1) charge_Inr [OF a(2)] show ?thesis
    unfolding a(3) inv_calls_def by (auto simp: max_def split: if_split_asm)
qed

lemma reserved_Some:
  "reserved calls iv cap budget = Inr (Some a) \<longleftrightarrow>
     1 \<le> cap \<and> cap \<le> 4 \<and> 1 \<le> budget \<and> budget \<le> MAX_MODEL_CALLS \<and> calls + cap \<le> U32_MAX \<and> calls + cap \<le> budget
     \<and> a = \<lparr>ca_invocation = iv, ca_cap = cap, ca_budget = budget, ca_next = 1, ca_prepaid = True\<rparr>"
  by (auto simp: reserved_def)

lemma inv_calls_invoked: "replay_invoked i sq iv role cap budget m = Inr n \<Longrightarrow> inv_calls n"
  by (auto simp: replay_invoked_def inv_calls_def reserved_Some split: if_split_asm sum.split_asm)

text \<open>The records that make or spend an allowance are the lane calls and the charges.\<close>

definition is_call :: "event \<Rightarrow> bool" where
  "is_call ev = (case ev of EvTransition t \<Rightarrow> True | EvModelCallCharged iv c \<Rightarrow> True
     | EvLaneInvoked iv r i h c b \<Rightarrow> True | _ \<Rightarrow> False)"

lemma record_frame_calls:
  assumes "replay_record en m = Inr n" "\<not> is_call (en_event en)"
  shows "m_model_calls n = m_model_calls m \<and> (m_call_accounting n = None
    \<or> m_call_accounting n = m_call_accounting m \<and> m_pending_lane n = m_pending_lane m)"
  using assms
  by (cases "en_event en") (auto simp: record_defs is_call_def split: if_split_asm option.split_asm)

lemma inv_calls_record:
  assumes "replay_record en m = Inr n" "inv_calls m"
  shows "inv_calls n"
proof (cases "is_call (en_event en)")
  case True
  then show ?thesis using assms
    by (cases "en_event en") (auto simp: replay_record_def is_call_def
        dest: inv_calls_transition inv_calls_charged inv_calls_invoked)
next
  case False
  then show ?thesis using record_frame_calls [OF assms(1)] assms(2) unfolding inv_calls_def by auto
qed

lemma working_not_terminal: "is_working s \<Longrightarrow> \<not> is_terminal s"
  by (auto simp: state_classes)

lemma record_frame_ended:
  assumes "replay_record en m = Inr n" "\<And>t. en_event en \<noteq> EvTransition t" "is_terminal (m_state m)"
  shows "(m_held n = None \<or> m_held n = m_held m) \<and> (m_must_hold n \<longrightarrow> m_must_hold m)
    \<and> (m_call_accounting n = None \<or> m_call_accounting n = m_call_accounting m)"
proof (cases "en_event en")
  case (EvTransition t)
  then show ?thesis using assms(2) by simp
qed (use assms(1,3) working_not_terminal in
  \<open>auto simp: record_defs split: if_split_asm sum.split_asm option.split_asm\<close>)

lemma inv_ended_record:
  assumes "replay_record en m = Inr n" "inv_ended m"
  shows "inv_ended n"
proof (cases "\<exists>t. en_event en = EvTransition t")
  case True
  then show ?thesis using assms(1) by (auto simp: replay_record_def dest: inv_ended_transition)
next
  case False
  then have no: "en_event en \<noteq> EvTransition t" for t by simp
  show ?thesis
    using assms(2) record_frame_ended [OF assms(1) no] record_frame [OF assms(1) no]
    unfolding inv_ended_def by auto
qed

definition is_proof_record :: "event \<Rightarrow> bool" where
  "is_proof_record ev = (case ev of EvDeliverableRetained iv e c s b \<Rightarrow> True
     | EvPublicationReceipt e a s b p ov \<Rightarrow> True | EvVerificationRecorded iv e d c \<Rightarrow> True | _ \<Rightarrow> False)"

lemma record_frame_proof:
  assumes "replay_record en m = Inr n" "\<And>t. en_event en \<noteq> EvTransition t" "\<not> is_proof_record (en_event en)"
  shows "pp_retained (m_proof n) = pp_retained (m_proof m) \<and> pp_receipt (m_proof n) = pp_receipt (m_proof m)
    \<and> pp_verified (m_proof n) = pp_verified (m_proof m) \<and> pp_checks (m_proof n) = pp_checks (m_proof m)"
proof (cases "en_event en")
  case (EvTransition t)
  then show ?thesis using assms(2) by simp
qed (use assms(1,3) in
  \<open>auto simp: record_defs is_proof_record_def split: if_split_asm sum.split_asm option.split_asm\<close>)

lemma inv_proof_proof_record:
  assumes "replay_record en m = Inr n" "is_proof_record (en_event en)" "inv_proof m"
  shows "inv_proof n"
proof (cases "en_event en")
  case (EvDeliverableRetained iv e c s b)
  then show ?thesis using assms(1,3)
    by (auto simp: record_defs inv_proof_def Let_def split: if_split_asm)
next
  case (EvPublicationReceipt e a s b p ov)
  then show ?thesis using assms(1,3)
    by (auto simp: record_defs inv_proof_def Let_def recorded_def clean_receipt_def
        split: if_split_asm option.split_asm)
next
  case (EvVerificationRecorded iv e d c)
  then show ?thesis using assms(1,3)
    by (auto simp: record_defs inv_proof_def Let_def clean_receipt_def
        split: if_split_asm option.split_asm)
qed (use assms(2) in \<open>simp_all add: is_proof_record_def\<close>)

lemma inv_proof_record:
  assumes "replay_record en m = Inr n" "inv_proof m"
  shows "inv_proof n"
proof (cases "is_proof_record (en_event en) \<or> (\<exists>t. en_event en = EvTransition t)")
  case True
  then show ?thesis using assms
    by (auto simp: replay_record_def dest: inv_proof_transition intro: inv_proof_proof_record)
next
  case False
  then have no: "en_event en \<noteq> EvTransition t" for t by simp
  show ?thesis using record_frame_proof [OF assms(1) no] record_frame [OF assms(1) no] False assms(2)
    unfolding inv_proof_def by (simp add: Let_def)
qed


section \<open>The invariant of an accepted journal\<close>

definition mission_inv :: "mission \<Rightarrow> bool" where
  "mission_inv m \<longleftrightarrow> inv_consent m \<and> inv_wait m \<and> inv_ended m \<and> inv_calls m \<and> inv_proof m"

lemma mission_inv_new: "mission_inv (mission_new c None)"
  by (simp add: mission_inv_def mission_invs mission_new_def proof_default_def consented_def state_classes)

lemma consented_frame [simp]:
  "consented (invalidate_calls m) = consented m" "consented (m\<lparr>m_must_hold := b\<rparr>) = consented m"
  "consented (m\<lparr>m_file_mode := b\<rparr>) = consented m"
  by (simp_all add: consented_def)

lemma mission_inv_invalidate:
  assumes "mission_inv m"
  shows "mission_inv (invalidate_calls m)"
proof -
  have c: "inv_consent (invalidate_calls m)"
    using assms by (simp add: mission_inv_def inv_consent_alt)
  show ?thesis using assms c
    by (simp add: mission_inv_def inv_wait_def inv_ended_def inv_calls_def inv_proof_def)
qed

lemma mission_inv_mark:
  assumes "mission_inv m"
  shows "mission_inv (mark_must_hold m)"
proof -
  have c: "inv_consent (mark_must_hold m)"
    using assms by (simp add: mission_inv_def inv_consent_alt mark_must_hold_def)
  show ?thesis using assms c
    by (simp add: mission_inv_def inv_wait_def inv_ended_def inv_calls_def inv_proof_def mark_must_hold_def)
qed

lemma mission_inv_replay:
  assumes "replay_mission en m = Inr n" "mission_inv m"
  shows "mission_inv n"
  using assms(1)
proof (cases rule: replay_mission_cases)
  case file_mode
  have "inv_consent n" using assms(2) unfolding file_mode(5) by (simp add: mission_inv_def inv_consent_alt)
  then show ?thesis using assms(2) unfolding file_mode(5)
    by (simp add: mission_inv_def inv_wait_def inv_ended_def inv_calls_def inv_proof_def)
next
  case past_gates
  with assms(2) show ?thesis unfolding mission_inv_def
    by (blast intro: inv_consent_record inv_wait_record inv_ended_record inv_calls_record inv_proof_record)
qed

definition rs_inv :: "replay_state \<Rightarrow> bool" where
  "rs_inv st \<longleftrightarrow> bt_sorted (rs_missions st)
     \<and> (\<forall>i m. map_of (rs_missions st) i = Some m \<longrightarrow> i < rs_next_mission st \<and> mission_inv m)"

text \<open>Where a mission of the next state comes from.\<close>

lemma replay_lookup:
  assumes "replay st en = Inr st'" "rs_inv st" "map_of (rs_missions st') i = Some n"
  obtains
    (boundary) m where "map_of (rs_missions st) i = Some m" "en_mission en = SESSION"
      "en_event en = EvSessionOpened \<or> en_event en = EvSessionClosed"
      "n = invalidate_calls m \<or> n = mark_must_hold (invalidate_calls m)"
  | (fresh) c where "en_event en = EvDrafted c" "en_mission en = i" "map_of (rs_missions st) i = None"
      "n = mission_new c None"
  | (other) "map_of (rs_missions st) i = Some n" "en_mission en \<noteq> i"
  | (own) m where "map_of (rs_missions st) i = Some m" "en_mission en = i" "replay_mission en m = Inr n"
      "en_event en \<noteq> EvSessionOpened" "en_event en \<noteq> EvSessionClosed" "\<And>c. en_event en \<noteq> EvDrafted c"
  using assms(1)
proof (cases rule: replay_cases)
  case opened
  then show ?thesis using assms(3) boundary by (auto simp: replay_opened_def split: if_split_asm)
next
  case closed
  then show ?thesis using assms(3) boundary by auto
next
  case (drafted c)
  have none: "map_of (rs_missions st) (en_mission en) = None"
    using assms(2) unfolding rs_inv_def drafted(3) by (meson less_irrefl not_None_eq)
  have look: "map_of (rs_missions st') i = (if i = en_mission en then Some (mission_new c None) else map_of (rs_missions st) i)"
    using assms(2) by (simp add: drafted(5) map_of_bt_insert rs_inv_def)
  show ?thesis
  proof (cases "i = en_mission en")
    case True
    then have "n = mission_new c None" using look assms(3) by simp
    with True drafted(1) none show ?thesis by (intro fresh [of c]) simp_all
  next
    case False
    then show ?thesis using other look assms(3) by simp
  qed
next
  case (logged m k)
  have look: "map_of (rs_missions st') i = (if i = en_mission en then Some k else map_of (rs_missions st) i)"
    using assms(2) by (simp add: logged(7) map_of_bt_insert rs_inv_def)
  show ?thesis
  proof (cases "i = en_mission en")
    case True
    then have "n = k" using look assms(3) by simp
    with True logged(1-3,5,6) show ?thesis by (intro own [of m]) simp_all
  next
    case False
    then show ?thesis using other look assms(3) by simp
  qed
qed

lemma rs_inv_replay:
  assumes "replay st en = Inr st'" "rs_inv st"
  shows "rs_inv st'"
proof -
  have "bt_sorted (rs_missions st)" using assms(2) by (simp add: rs_inv_def)
  with assms(1) have sorted: "bt_sorted (rs_missions st')"
    and next_le: "rs_next_mission st \<le> rs_next_mission st'"
    by (auto elim!: replay_cases simp: replay_opened_def bt_sorted_insert)
  have "i < rs_next_mission st' \<and> mission_inv n" if n: "map_of (rs_missions st') i = Some n" for i n
    using assms n
  proof (cases rule: replay_lookup)
    case (boundary m)
    then show ?thesis using assms(2) next_le
      by (auto simp: rs_inv_def intro: mission_inv_invalidate mission_inv_mark dest: order.strict_trans2)
  next
    case (fresh c)
    then have "i < rs_next_mission st'" using assms(1) by (auto elim!: replay_cases)
    then show ?thesis by (simp add: fresh mission_inv_new)
  next
    case other
    then show ?thesis using assms(2) next_le by (auto simp: rs_inv_def dest: order.strict_trans2)
  next
    case (own m)
    then have "i < rs_next_mission st" "mission_inv m" using assms(2) by (simp_all add: rs_inv_def)
    with next_le mission_inv_replay [OF own(3)] show ?thesis by simp
  qed
  with sorted show ?thesis by (simp add: rs_inv_def)
qed

lemma accepted_inv: "accepted X es st \<Longrightarrow> rs_inv st"
proof (induction rule: accepted_induct)
  case Nil
  show ?case by (simp add: rs_inv_def replay_init_def)
next
  case (snoc es st en st')
  then show ?case by (blast intro: rs_inv_replay)
qed

lemma accepted_mission_inv: "accepted X es st \<Longrightarrow> map_of (rs_missions st) i = Some m \<Longrightarrow> mission_inv m"
  by (auto dest!: accepted_inv simp: rs_inv_def)

end
