(* ===== verification/Mother_Replay_Log.thy ===== *)
theory Mother_Replay_Log
  imports Mother_Replay_Inv
begin

text \<open>The records of one mission in an accepted journal: how a record reaches its mission, induction
  over the mission's own records, the mission a record meets, and a sample journal that takes a page
  mission from its draft to its end.\<close>


section \<open>The records of one mission\<close>

definition mission_log :: "nat \<Rightarrow> entry list \<Rightarrow> event list" where
  "mission_log i es = map en_event (filter (\<lambda>en. en_mission en = i) es)"

lemma mission_log_simps [simp]:
  "mission_log i [] = []"
  "mission_log i (en # es) = (if en_mission en = i then en_event en # mission_log i es else mission_log i es)"
  "mission_log i (es @ fs) = mission_log i es @ mission_log i fs"
  by (simp_all add: mission_log_def)

lemma accepted_keys:
  "accepted X es st \<Longrightarrow> 1 \<le> rs_next_mission st \<and> (\<forall>i m. map_of (rs_missions st) i = Some m \<longrightarrow> 1 \<le> i)"
proof (induction rule: accepted_induct)
  case Nil
  show ?case by (simp add: replay_init_def)
next
  case (snoc es st en st')
  have iv: "rs_inv st" using snoc.hyps(1) by (rule accepted_inv)
  have "1 \<le> rs_next_mission st'" using snoc.hyps(3) snoc.IH
    by (cases rule: replay_cases) (auto simp: replay_opened_def)
  moreover have "1 \<le> i" if n: "map_of (rs_missions st') i = Some n" for i n
    using snoc.hyps(3) iv n
  proof (cases rule: replay_lookup)
    case (fresh c)
    show ?thesis using snoc.hyps(3)
      by (cases rule: replay_cases) (use fresh snoc.IH in auto)
  qed (use snoc.IH in auto)
  ultimately show ?case by blast
qed

lemma undrafted_silent:
  "accepted X es st \<Longrightarrow> map_of (rs_missions st) i = None \<Longrightarrow> i \<noteq> SESSION \<Longrightarrow> mission_log i es = []"
proof (induction arbitrary: i rule: accepted_induct)
  case (snoc es st en st')
  have iv: "rs_inv st" using snoc.hyps(1) by (rule accepted_inv)
  then have srt: "bt_sorted (rs_missions st)" by (simp add: rs_inv_def)
  show ?case using snoc.hyps(3)
  proof (cases rule: replay_cases)
    case opened
    then show ?thesis using snoc.prems snoc.IH by (simp add: replay_opened_def)
  next
    case closed
    then show ?thesis using snoc.prems snoc.IH by simp
  next
    case (drafted c)
    then show ?thesis using snoc.prems snoc.IH srt by (simp add: map_of_bt_insert split: if_split_asm)
  next
    case (logged m n)
    then show ?thesis using snoc.prems snoc.IH srt by (simp add: map_of_bt_insert split: if_split_asm)
  qed
qed simp

text \<open>How one record of a drafted mission is replayed.\<close>

definition is_draft :: "event \<Rightarrow> bool" where
  "is_draft ev = (case ev of EvDrafted c \<Rightarrow> True | _ \<Rightarrow> False)"

definition is_trigger :: "event \<Rightarrow> bool" where
  "is_trigger ev = (case ev of EvTransition t \<Rightarrow> True | _ \<Rightarrow> False)"

lemma is_trigger_iff: "is_trigger ev \<longleftrightarrow> (\<exists>t. ev = EvTransition t)"
  by (cases ev) (simp_all add: is_trigger_def)

lemma mission_step:
  assumes "replay_mission en m = Inr n"
  obtains
    (mode) "en_event en = EvFileModeSelected" "\<not> m_file_mode m" "m_state m = MsDraft"
      "m_generation m = 0" "n = m\<lparr>m_file_mode := True\<rparr>"
  | (trigger) t u where "en_event en = EvTransition t" "next_state (m_state m) t = Some u"
      "n = take_transition (en_seq en) t u m" "trigger_guard m t = None"
      "m_settlement m \<noteq> None \<Longrightarrow> is_settled t" "m_unsettled m \<noteq> None \<Longrightarrow> while_unsettled t"
      "m_unresolved_file m \<noteq> None \<Longrightarrow> \<not> ends_open_file t"
      "m_held m \<noteq> None \<Longrightarrow> while_held (en_event en)" "m_must_hold m \<Longrightarrow> before_hold (m_state m) (en_event en)"
  | (logged) "en_event en \<noteq> EvFileModeSelected" "\<not> is_trigger (en_event en)" "replay_record en m = Inr n"
      "m_held m \<noteq> None \<Longrightarrow> while_held (en_event en)" "m_must_hold m \<Longrightarrow> before_hold (m_state m) (en_event en)"
      "m_state n = m_state m" "m_consent n = m_consent m" "m_contract_ref n = m_contract_ref m"
      "m_waiting n = m_waiting m" "m_terminal_record n = m_terminal_record m" "m_file_mode n = m_file_mode m"
  using assms
proof (cases rule: replay_mission_cases)
  case file_mode
  then show ?thesis by (rule mode)
next
  case past_gates
  show ?thesis
  proof (cases "is_trigger (en_event en)")
    case True
    then obtain t where t: "en_event en = EvTransition t" by (auto simp: is_trigger_iff)
    have "replay_transition (en_seq en) t m = Inr n" using past_gates(4) t by (simp add: replay_record_def)
    then show ?thesis
      by (rule replay_transitionE) (rule trigger [OF t], (assumption | rule past_gates(2,3))+)
  next
    case False
    then have no: "en_event en \<noteq> EvTransition t" for t by (auto simp: is_trigger_iff)
    show ?thesis
      by (rule logged [OF past_gates(1) False past_gates(4)])
        ((assumption | rule past_gates(2,3) record_frame [OF past_gates(4) no])+)
  qed
qed

text \<open>Induction over the records of one mission; session records reach it only through the end of its
  open calls and the mark that it must be held.\<close>

lemma mission_induct [consumes 2, case_names fresh calls hold own]:
  assumes acc: "accepted X es st" and look: "map_of (rs_missions st) i = Some m"
    and fr: "\<And>c. P [EvDrafted c] (mission_new c None)"
    and ca: "\<And>evs m. P evs m \<Longrightarrow> mission_inv m \<Longrightarrow> P evs (invalidate_calls m)"
    and ho: "\<And>evs m. P evs m \<Longrightarrow> mission_inv m \<Longrightarrow> P evs (mark_must_hold m)"
    and ow: "\<And>evs m en n. P evs m \<Longrightarrow> mission_inv m \<Longrightarrow> replay_mission en m = Inr n \<Longrightarrow> en_mission en = i \<Longrightarrow>
      evidence_ok X (en_event en) \<Longrightarrow> \<not> is_draft (en_event en) \<Longrightarrow> P (evs @ [en_event en]) n"
  shows "P (mission_log i es) m"
  using acc look
proof (induction arbitrary: m rule: accepted_induct)
  case Nil
  then show ?case by (simp add: replay_init_def)
next
  case (snoc es st en st')
  have iv: "rs_inv st" using snoc.hyps(1) by (rule accepted_inv)
  have pos: "1 \<le> i" using accepted_keys [of X "es @ [en]" st'] snoc.hyps snoc.prems by (auto simp: accepted_snoc)
  show ?case using snoc.hyps(3) iv snoc.prems
  proof (cases rule: replay_lookup)
    case (boundary m0)
    have "P (mission_log i es) m0" "mission_inv m0"
      using snoc.IH [OF boundary(1)] accepted_mission_inv [OF snoc.hyps(1) boundary(1)] by simp_all
    then have "P (mission_log i es) m"
      using boundary(4) by (auto intro: ca ho mission_inv_invalidate)
    then show ?thesis using boundary(2) pos by (simp add: SESSION_def)
  next
    case (fresh c)
    have "i \<noteq> SESSION" using pos by (simp add: SESSION_def)
    then have "mission_log i es = []" using undrafted_silent [OF snoc.hyps(1) fresh(3)] by simp
    then show ?thesis using fr [of c] fresh by simp
  next
    case other
    then show ?thesis using snoc.IH by simp
  next
    case (own m0)
    then show ?thesis
      using ow [OF snoc.IH [OF own(1)] accepted_mission_inv [OF snoc.hyps(1) own(1)] own(3,2) snoc.hyps(2)] by (simp add: is_draft_def split: event.split)
  qed
qed

text \<open>A mission of the journal stays in it.\<close>

lemma replay_keeps:
  assumes "replay st en = Inr st'" "rs_inv st" "map_of (rs_missions st) i = Some m"
  shows "map_of (rs_missions st') i \<noteq> None"
  using assms(1)
proof (cases rule: replay_cases)
  case opened
  then show ?thesis using assms(3) by (simp add: replay_opened_def)
next
  case closed
  then show ?thesis using assms(3) by simp
next
  case (drafted c)
  then show ?thesis using assms(2,3) by (auto simp: rs_inv_def map_of_bt_insert)
next
  case (logged k n)
  then show ?thesis using assms(2,3) by (auto simp: rs_inv_def map_of_bt_insert)
qed

text \<open>Only the record of its close leaves a session closed.\<close>

lemma closed_last:
  assumes "accepted X es st" "rs_session st = SnClosed"
  shows "es \<noteq> [] \<and> en_event (last es) = EvSessionClosed"
  using assms
proof (induction rule: accepted_induct)
  case Nil
  then show ?case by (simp add: replay_init_def)
next
  case (snoc es st en st')
  from snoc.hyps(3) snoc.prems show ?case by (cases rule: replay_cases) (auto simp: replay_opened_def)
qed

text \<open>The mission a record of the journal belongs to, as it stood before the record.\<close>

definition is_work :: "event \<Rightarrow> bool" where
  "is_work ev = (case ev of EvLaneInvoked iv r ident inp c b \<Rightarrow> True | EvModelCallCharged iv c \<Rightarrow> True
     | EvEffectDispatched e k rh \<Rightarrow> True | EvApprovalPending e p \<Rightarrow> True
     | EvDeliverableRetained iv e c s b \<Rightarrow> True | EvVerificationRecorded iv e d c \<Rightarrow> True | _ \<Rightarrow> False)"

lemma record_at:
  assumes "accepted X es st" "k < length es" "en_event (es ! k) \<noteq> EvSessionOpened"
    "en_event (es ! k) \<noteq> EvSessionClosed" "\<And>c. en_event (es ! k) \<noteq> EvDrafted c"
  obtains st1 m n where "accepted X (take k es) st1" "map_of (rs_missions st1) (en_mission (es ! k)) = Some m"
    "replay_mission (es ! k) m = Inr n" "mission_inv m"
  using assms(1,2)
proof (rule accepted_at)
  fix st1 st2
  assume st1: "accepted X (take k es) st1" and step: "replay st1 (es ! k) = Inr st2"
  from step show thesis
  proof (cases rule: replay_cases)
    case (logged m n)
    then show ?thesis using that [OF st1] accepted_mission_inv [OF st1] by blast
  qed (use assms(3-5) in auto)
qed


section \<open>A sample journal\<close>

text \<open>A page mission from its draft to its end, with one metered call and one approved File.\<close>

definition sample_digest :: string where
  "sample_digest = replicate 64 (CHR ''0'')"

definition sample_action :: pending_action where
  "sample_action = \<lparr>pa_run = ''run-'' @ replicate 32 (CHR ''0''), pa_commitment = ''cmt-'' @ replicate 32 (CHR ''0''),
     pa_deadline_mono_ms = 9\<rparr>"

definition page_contract :: contract_ref where
  "page_contract = \<lparr>cr_contract_hash = ''c'', cr_content = ''k'', cr_bytes = 0\<rparr>"

definition page_checks :: "(string \<times> string) list" where
  "page_checks = map (\<lambda>c. (CheckId_as_str c, ''pass'')) CheckId_ALL"

definition call_of :: "nat \<Rightarrow> invocation_id" where
  "call_of sq = \<lparr>iv_mission = 1, iv_seq = sq\<rparr>"

definition page_journal :: "entry list" where
  "page_journal = [
     sample_entry 0 0 EvSessionOpened,
     sample_entry 1 1 (EvDrafted page_contract),
     sample_entry 2 1 (EvTransition (TgSubmit ''c'')),
     sample_entry 3 1 (EvTransition (TgConsent ''c'' 5)),
     sample_entry 4 1 (EvTransition TgStart),
     sample_entry 5 1 (EvLaneInvoked (call_of 5) Sentinel sample_digest sample_digest 2 3),
     sample_entry 6 1 (EvModelCallCharged (call_of 5) 1),
     sample_entry 7 1 (EvModelCallCharged (call_of 5) 2),
     sample_entry 8 1 (EvLaneReturned (call_of 5) sample_digest),
     sample_entry 9 1 (EvTransition TgPhaseDone),
     sample_entry 10 1 (EvLaneInvoked (call_of 10) Builder sample_digest sample_digest 0 0),
     sample_entry 11 1 (EvLaneReturned (call_of 10) sample_digest),
     sample_entry 12 1 (EvDeliverableRetained (call_of 10) 0 ''p'' sample_digest 0),
     sample_entry 13 1 (EvEffectDispatched 0 KFile sample_digest),
     sample_entry 14 1 (EvEffectSettled 0 SdAwaitingApproval),
     sample_entry 15 1 (EvApprovalPending 0 sample_action),
     sample_entry 16 1 (EvTransition (TgAwaitApproval 0 \<lparr>rr_content = ''r'', rr_count = 0, rr_bytes = 0\<rparr> [])),
     sample_entry 17 1 (EvTransition (TgActionApproved 0 MsBuilding)),
     sample_entry 18 1 (EvPublicationReceipt 0 sample_action sample_digest 0 (Some sample_digest) False),
     sample_entry 19 1 (EvApprovalClosed 0),
     sample_entry 20 1 (EvTransition TgPhaseDone),
     sample_entry 21 1 (EvLaneInvoked (call_of 21) Verifier sample_digest sample_digest 0 0),
     sample_entry 22 1 (EvLaneReturned (call_of 21) sample_digest),
     sample_entry 23 1 (EvVerificationRecorded (call_of 21) 0 ''h'' page_checks),
     sample_entry 24 1 (EvTransition TgVerifyPass),
     sample_entry 25 1 (EvTransition TgPhaseDone)]"

lemma sample_digest [simp]: "is_digest sample_digest"
  by (simp add: is_digest_def sample_digest_def is_ascii_digit_def list_all_iff)

lemma sample_action [simp]: "is_broker_action (sample_ext es) sample_action"
  by (simp add: is_broker_action_def sample_action_def RunId_parse_def CommitmentId_parse_def opaque_id_def
      sample_ext_def)

lemma page_checks [simp]:
  "length page_checks = length CheckId_ALL" "report_digest (sample_ext es) page_checks = ''h''"
  "list_all (\<lambda>(ident, (nm, code)). nm = CheckId_as_str ident \<and> is_check_result ident code) (zip CheckId_ALL page_checks)"
  "list_all (\<lambda>(nm, code). code = ''pass'') page_checks"
  by (simp_all add: page_checks_def CheckId_ALL_def is_check_result_def report_digest_def sample_ext_def)

lemmas page_steps = replay_def replay_opened_def replay_drafted_def replay_mission_def record_defs
   replay_transition_def trigger_guard_def take_transition_def apply_trigger_def enter_state_def
   trigger_effect_def resolve_waited_file_def invalidate_calls_def transition_def next_state_def state_classes
   mission_new_def while_unsettled_def consented_def dispatched_after_def reserved_def charge_def
   phase_roles_def ends_with_def receipt_linked_def receipt_settling_def receipt_clean_def recorded_def
   MAX_MODEL_CALLS_def MAX_MISSIONS_def MAX_EFFECTS_PER_CALL_def bt_map_def U32_MAX_def call_of_def page_contract_def
   proof_default_def SESSION_def mark_must_hold_def Let_def

lemma page_accepted:
  obtains st m where "accepted (sample_ext []) (page_journal) st"
    "map_of (rs_missions st) 1 = Some m" "m_state m = MsDone"
proof -
  have "\<exists>st m. accepted (sample_ext []) (page_journal) st \<and> map_of (rs_missions st) 1 = Some m \<and> m_state m = MsDone"
    by (simp add: accepted_def page_journal_def sample_entry_def evidence_check_def evidence_ok_def is_size_def replay_init_def page_steps is_settled_def ends_open_file_def)
  then show ?thesis using that by blast
qed

end
