(* ===== verification/Mother_Replay_Props.thy ===== *)
theory Mother_Replay_Props
  imports Mother_Replay_Log
begin

text \<open>What an accepted journal proves about its missions: no work without the Owner's consent to the
  current contract, an end is final, effects are numbered and settled one by one, model calls stay in
  their declared budget, an unclean session holds every unfinished mission, the first cause of a
  settlement stands, a page mission is done only on six recorded passes, and the whole life of a
  mission follows a small abstract machine.\<close>


section \<open>No work without consent\<close>

text \<open>The contract last drafted or revised, and the consent given since then, read off the records.\<close>

definition contract_after :: "event \<Rightarrow> string option \<Rightarrow> string option" where
  "contract_after ev acc = (case ev of
     EvDrafted c \<Rightarrow> Some (cr_contract_hash c)
   | EvTransition t \<Rightarrow> (case t of TgRevise c \<Rightarrow> Some (cr_contract_hash c) | _ \<Rightarrow> acc)
   | _ \<Rightarrow> acc)"

definition consent_after :: "event \<Rightarrow> string option \<Rightarrow> string option" where
  "consent_after ev acc = (case ev of
     EvDrafted c \<Rightarrow> None
   | EvTransition t \<Rightarrow> (case t of TgRevise c \<Rightarrow> None | TgConsent h a \<Rightarrow> Some h | _ \<Rightarrow> acc)
   | _ \<Rightarrow> acc)"

definition current_contract :: "event list \<Rightarrow> string option" where
  "current_contract evs = fold contract_after evs None"

definition given_consent :: "event list \<Rightarrow> string option" where
  "given_consent evs = fold consent_after evs None"

lemma own_consent:
  assumes "replay_mission en m = Inr n" "\<not> is_draft (en_event en)"
  shows "contract_after (en_event en) (Some (cr_contract_hash (m_contract_ref m))) =
      Some (cr_contract_hash (m_contract_ref n))
    \<and> consent_after (en_event en) (m_consent m) = m_consent n"
  using assms(1)
proof (cases rule: mission_step)
  case mode
  then show ?thesis by (simp add: contract_after_def consent_after_def)
next
  case (trigger t u)
  then show ?thesis by (cases t) (simp_all add: contract_after_def consent_after_def)
next
  case logged
  show ?thesis using assms(2) logged(2)
    by (cases "en_event en") (simp_all add: contract_after_def consent_after_def logged(6-11) is_draft_def is_trigger_def)
qed

lemma log_consent:
  assumes "accepted X es st" "map_of (rs_missions st) i = Some m"
  shows "current_contract (mission_log i es) = Some (cr_contract_hash (m_contract_ref m))
    \<and> given_consent (mission_log i es) = m_consent m"
  using assms
proof (induction rule: mission_induct)
  case (fresh c)
  show ?case by (simp add: current_contract_def given_consent_def contract_after_def consent_after_def mission_new_def)
next
  case (own evs m en n)
  then show ?case using own_consent [OF own(3,6)] by (simp add: current_contract_def given_consent_def)
qed (simp_all add: mark_must_hold_def)

lemma work_active:
  assumes "replay_mission en m = Inr n" "is_work (en_event en)"
  shows "active (m_state m)"
  using assms(1)
proof (cases rule: mission_step)
  case logged
  have st: "may_wait s \<Longrightarrow> active s" "is_working MsBuilding" "is_working MsVerifying" for s
    by (auto simp: active_def state_classes)
  from logged(3) assms(2) show ?thesis
    by (cases "en_event en")
      (auto simp: is_work_def active_def record_defs st(2,3) dest: st(1) split: if_split_asm)
qed (use assms(2) in \<open>simp_all add: is_work_def\<close>)

text \<open>C3: no work without consent. In an accepted journal every lane call, every charged model call,
  every dispatched effect, every pending approval, retained page and recorded verification of a mission
  comes after the Owner's consent to the contract that is current at that record: the consent recorded
  since the last draft or revision names exactly the hash of that draft or revision.\<close>

theorem work_needs_consent:
  assumes "accepted X es st" "k < length es" "is_work (en_event (es ! k))"
    "evs = mission_log (en_mission (es ! k)) (take k es)"
  shows "current_contract evs \<noteq> None \<and> given_consent evs = current_contract evs"
proof -
  obtain st1 m n where at: "accepted X (take k es) st1" "map_of (rs_missions st1) (en_mission (es ! k)) = Some m"
      "replay_mission (es ! k) m = Inr n" "mission_inv m"
    using assms(1,2) by (rule record_at) (use assms(3) in \<open>auto simp: is_work_def\<close>)
  have "consented m" using work_active [OF at(3) assms(3)] at(4)
    by (simp add: mission_inv_def inv_consent_def active_def)
  then show ?thesis using log_consent [OF at(1,2)] assms(4) by (simp add: consented_def)
qed


theorem work_needs_consent_witness:
  "is_work (en_event (page_journal ! 13))
   \<and> given_consent (mission_log 1 (take 13 page_journal)) = Some ''c''
   \<and> current_contract (mission_log 1 (take 13 page_journal)) = Some ''c''"
proof -
  obtain st where "accepted (sample_ext []) page_journal st" by (rule page_accepted)
  moreover have "13 < length page_journal" "is_work (en_event (page_journal ! 13))"
      "en_mission (page_journal ! 13) = 1"
    by (simp_all add: page_journal_def sample_entry_def is_work_def)
  ultimately have "given_consent (mission_log 1 (take 13 page_journal)) = current_contract (mission_log 1 (take 13 page_journal))"
    "is_work (en_event (page_journal ! 13))"
    using work_needs_consent [of "sample_ext []" page_journal st 13] by simp_all
  then show ?thesis
    by (simp add: page_journal_def sample_entry_def mission_log_def current_contract_def contract_after_def page_contract_def)
qed


section \<open>An end is final\<close>

definition is_epilogue :: "event \<Rightarrow> bool" where
  "is_epilogue ev = (case ev of EvConsentRefused r \<Rightarrow> True | EvEffectRefused k r \<Rightarrow> True
     | EvLaneReturned iv out \<Rightarrow> True | EvLaneOvertaken iv \<Rightarrow> True | EvEffectSettled e out \<Rightarrow> True
     | EvApprovalClosed e \<Rightarrow> True | EvPublicationReceipt e a s b p ov \<Rightarrow> True | _ \<Rightarrow> False)"

lemma ended_record:
  assumes "replay_record en m = Inr n" "\<not> is_trigger (en_event en)" "is_terminal (m_state m)" "inv_ended m"
    "\<not> is_draft (en_event en)" "en_event en \<notin> {EvSessionOpened, EvSessionClosed, EvFileModeSelected}"
  shows "is_epilogue (en_event en) \<and> m_model_calls n = m_model_calls m \<and> m_next_effect n = m_next_effect m"
proof -
  have st: "\<not> is_working (m_state m)" "\<not> may_wait (m_state m)" "m_state m \<noteq> MsBuilding" "m_state m \<noteq> MsVerifying"
      "m_held m = None"
    using assms(3,4) by (auto simp: state_classes inv_ended_def)
  show ?thesis using assms(1,2,3,5,6) st
    by (cases "en_event en")
      (auto simp: is_epilogue_def is_trigger_def is_draft_def record_defs split: if_split_asm)
qed

lemma ended_step:
  assumes "replay_mission en m = Inr n" "is_terminal (m_state m)" "mission_inv m"
    "\<not> is_draft (en_event en)" "en_event en \<notin> {EvSessionOpened, EvSessionClosed}"
  shows "is_epilogue (en_event en) \<and> m_state n = m_state m \<and> m_terminal_record n = m_terminal_record m
    \<and> m_model_calls n = m_model_calls m \<and> m_next_effect n = m_next_effect m"
  using assms(1)
proof (cases rule: mission_step)
  case mode
  then show ?thesis using assms(2) by (simp add: is_terminal_def)
next
  case (trigger t u)
  then show ?thesis using assms(2) by simp
next
  case logged
  then show ?thesis using ended_record [OF logged(3,2) assms(2)] assms(3-5) by (simp add: mission_inv_def)
qed




section \<open>Effects, one by one\<close>

text \<open>The dispatches (\<open>False\<close>) and settlements (\<open>True\<close>) of a mission, by effect number.\<close>

definition effect_note :: "event \<Rightarrow> (nat \<times> bool) list" where
  "effect_note ev = (case ev of EvEffectDispatched e k rh \<Rightarrow> [(e, False)] | EvEffectSettled e out \<Rightarrow> [(e, True)] | _ \<Rightarrow> [])"

definition effect_trace :: "event list \<Rightarrow> (nat \<times> bool) list" where
  "effect_trace evs = concat (map effect_note evs)"

definition alternating :: "nat \<Rightarrow> (nat \<times> bool) list" where
  "alternating k = concat (map (\<lambda>e. [(e, False), (e, True)]) [0..<k])"

definition inv_effects :: "(nat \<times> bool) list \<Rightarrow> mission \<Rightarrow> bool" where
  "inv_effects tr m \<longleftrightarrow> (case m_unsettled m of
     Some e \<Rightarrow> m_next_effect m = e + 1 \<and> tr = alternating e @ [(e, False)]
   | None \<Rightarrow> tr = alternating (m_next_effect m)
       \<or> is_terminal (m_state m) \<and> (\<exists>e. tr = alternating e @ [(e, False)]))"

lemma record_frame_effects:
  assumes "replay_record en m = Inr n" "\<not> is_trigger (en_event en)" "effect_note (en_event en) = []"
  shows "m_unsettled n = m_unsettled m \<and> m_next_effect n = m_next_effect m"
  using assms
  by (cases "en_event en")
    (auto simp: record_defs is_trigger_def effect_note_def split: if_split_asm option.split_asm sum.split_asm)

lemma inv_effects_record:
  assumes "replay_record en m = Inr n" "\<not> is_trigger (en_event en)" "m_state n = m_state m" "inv_effects tr m"
  shows "inv_effects (tr @ effect_note (en_event en)) n"
proof -
  consider e k rh where "en_event en = EvEffectDispatched e k rh" | e out where "en_event en = EvEffectSettled e out"
    | "effect_note (en_event en) = []"
    by (cases "en_event en") (auto simp: effect_note_def)
  then show ?thesis
  proof cases
    case (1 e k rh)
    have "is_working (m_state m)" "e = m_next_effect m" "m_unsettled m = None"
        "m_unsettled n = Some e" "m_next_effect n = e + 1"
      using assms(1) 1 by (auto simp: replay_record_def replay_dispatched_def split: if_split_asm)
    moreover from this(1) have "\<not> is_terminal (m_state m)" by (rule working_not_terminal)
    ultimately show ?thesis using assms(4) 1 by (simp add: inv_effects_def effect_note_def)
  next
    case (2 e out)
    then have "m_unsettled m = Some e" "m_unsettled n = None" "m_next_effect n = m_next_effect m"
      using assms(1) by (auto simp: replay_record_def replay_effect_settled_def split: if_split_asm)
    then show ?thesis using assms(4) 2 by (simp add: inv_effects_def effect_note_def alternating_def)
  next
    case 3
    then show ?thesis using record_frame_effects [OF assms(1,2)] assms(3,4) by (simp add: inv_effects_def split: option.split_asm)
  qed
qed

lemma inv_effects_log:
  assumes "accepted X es st" "map_of (rs_missions st) i = Some m"
  shows "inv_effects (effect_trace (mission_log i es)) m"
  using assms
proof (induction rule: mission_induct)
  case (fresh c)
  show ?case by (simp add: inv_effects_def effect_trace_def effect_note_def alternating_def mission_new_def)
next
  case (own evs m en n)
  have tr: "effect_trace (evs @ [ev]) = effect_trace evs @ effect_note ev" for ev
    by (simp add: effect_trace_def)
  from own(3) show ?case
  proof (cases rule: mission_step)
    case mode
    then show ?thesis using own(1) by (simp add: inv_effects_def effect_note_def tr split: option.split_asm)
  next
    case (trigger t u)
    have "is_terminal u" if "is_settled t" using that trigger(2) by (cases t) (auto simp: is_settled_def dest: settled_terminal)
    moreover have "\<not> is_terminal (m_state m)" using trigger(2) by auto
    ultimately show ?thesis using own(1) trigger by (auto simp: inv_effects_def effect_note_def tr split: option.splits)
  next
    case logged
    then show ?thesis using inv_effects_record [OF logged(3,2,6) own(1)] by (simp add: tr)
  qed
qed (auto simp: inv_effects_def mark_must_hold_def split: option.split_asm)

text \<open>C23: effects are dispatched and settled one by one. In an accepted journal the dispatches and
  settlements of each mission, in the order of the journal, are dispatch 0, settle 0, dispatch 1,
  settle 1, and so on without a gap, a repetition or an overlap; at most the last dispatched effect is
  still unsettled.\<close>

theorem effects_alternate:
  assumes "accepted X es st" "map_of (rs_missions st) i = Some m"
  shows "\<exists>k. effect_trace (mission_log i es) = alternating k
    \<or> effect_trace (mission_log i es) = alternating k @ [(k, False)]"
  using inv_effects_log [OF assms] by (auto simp: inv_effects_def split: option.split_asm)

theorem effects_alternate_witness:
  "effect_trace (mission_log 1 page_journal) = [(0, False), (0, True)]
   \<and> (\<exists>k. effect_trace (mission_log 1 page_journal) = alternating k
        \<or> effect_trace (mission_log 1 page_journal) = alternating k @ [(k, False)])"
proof -
  obtain st m where "accepted (sample_ext []) page_journal st" "map_of (rs_missions st) 1 = Some m" by (rule page_accepted)
  note all = effects_alternate [OF this]
  have "effect_trace (mission_log 1 page_journal) = [(0, False), (0, True)]"
    by (simp add: page_journal_def sample_entry_def effect_trace_def effect_note_def)
  then show ?thesis using all by blast
qed


section \<open>Model calls in their budget\<close>

definition call_weight :: "event \<Rightarrow> nat" where
  "call_weight ev = (case ev of EvLaneInvoked iv r ident inp c b \<Rightarrow> 1
     | EvModelCallCharged iv c \<Rightarrow> if 1 < c then 1 else 0 | _ \<Rightarrow> 0)"

text \<open>An invocation pays its first call; each further charged call counts one.\<close>

definition calls_made :: "event list \<Rightarrow> nat" where
  "calls_made evs = sum_list (map call_weight evs)"

definition inv_metered :: "event list \<Rightarrow> mission \<Rightarrow> bool" where
  "inv_metered evs m \<longleftrightarrow> m_model_calls m = calls_made evs
     \<and> (\<forall>a. m_call_accounting m = Some a \<longrightarrow>
          (\<exists>r ident inp. EvLaneInvoked (ca_invocation a) r ident inp (ca_cap a) (ca_budget a) \<in> set evs))"

lemma inv_metered_record:
  assumes "replay_record en m = Inr n" "\<not> is_trigger (en_event en)" "inv_calls m" "inv_metered evs m"
  shows "inv_metered (evs @ [en_event en]) n"
proof -
  have snoc: "calls_made (evs @ [ev]) = calls_made evs + call_weight ev" for ev by (simp add: calls_made_def)
  consider iv c where "en_event en = EvModelCallCharged iv c"
    | iv r ident inp c b where "en_event en = EvLaneInvoked iv r ident inp c b"
    | "\<not> is_call (en_event en)"
    using assms(2) by (cases "en_event en") (auto simp: is_call_def is_trigger_def)
  then show ?thesis
  proof cases
    case (1 iv c)
    then obtain a b k where a: "m_call_accounting m = Some a" "charge a iv c (m_model_calls m) = Inr (b, k)"
        "n = m\<lparr>m_call_accounting := Some b, m_model_calls := k\<rparr>"
      using assms(1) by (auto simp: replay_record_def replay_charged_def split: if_split_asm option.split_asm sum.split_asm)
    have "1 \<le> ca_next a" using assms(3) a(1) by (simp add: inv_calls_def)
    then have "ca_invocation b = ca_invocation a \<and> ca_cap b = ca_cap a \<and> ca_budget b = ca_budget a
        \<and> k = m_model_calls m + call_weight (en_event en)"
      using charge_Inr [OF a(2)] 1 by (auto simp: call_weight_def)
    then show ?thesis using assms(4) a by (fastforce simp: inv_metered_def snoc)
  next
    case (2 iv r ident inp c b)
    then obtain acc where acc: "reserved (m_model_calls m) iv c b = Inr acc" "m_call_accounting n = acc"
        "m_model_calls n = m_model_calls m + 1"
      using assms(1) by (auto simp: replay_record_def replay_invoked_def split: if_split_asm sum.split_asm)
    then show ?thesis using assms(4) 2 by (fastforce simp: inv_metered_def snoc call_weight_def reserved_Some)
  next
    case 3
    then have "call_weight (en_event en) = 0" by (cases "en_event en") (simp_all add: is_call_def call_weight_def)
    then show ?thesis using record_frame_calls [OF assms(1) 3] assms(4) by (fastforce simp: inv_metered_def snoc)
  qed
qed

lemma inv_metered_log:
  assumes "accepted X es st" "map_of (rs_missions st) i = Some m"
  shows "inv_metered (mission_log i es) m"
  using assms
proof (induction rule: mission_induct)
  case (fresh c)
  show ?case by (simp add: inv_metered_def calls_made_def call_weight_def mission_new_def)
next
  case (own evs m en n)
  from own(3) show ?case
  proof (cases rule: mission_step)
    case mode
    then show ?thesis using own(1) by (fastforce simp: inv_metered_def calls_made_def call_weight_def)
  next
    case (trigger t u)
    then show ?thesis using own(1) by (simp add: inv_metered_def calls_made_def call_weight_def)
  next
    case logged
    then show ?thesis using inv_metered_record [OF logged(3,2) _ own(1)] own(2) by (simp add: mission_inv_def)
  qed
qed (auto simp: inv_metered_def mark_must_hold_def)

text \<open>C24: model calls stay in their declared budget. When an accepted journal charges a call of an
  invocation, the same mission recorded that invocation before, with a cap between 1 and 4 that the
  call's number does not pass and a budget of at most 1,000; and the calls of the whole mission up to
  and including this one (one for each invocation, one for each further charged call) are within that
  budget.\<close>

theorem model_calls_budgeted:
  assumes "accepted X es st" "k < length es" "en_event (es ! k) = EvModelCallCharged iv c"
    "evs = mission_log (en_mission (es ! k)) (take k es)"
  shows "\<exists>r ident inp cap budget. EvLaneInvoked iv r ident inp cap budget \<in> set evs
    \<and> 1 \<le> c \<and> c \<le> cap \<and> cap \<le> 4 \<and> calls_made (evs @ [EvModelCallCharged iv c]) \<le> budget \<and> budget \<le> MAX_MODEL_CALLS"
proof -
  obtain st1 m n where at: "accepted X (take k es) st1" "map_of (rs_missions st1) (en_mission (es ! k)) = Some m"
      "replay_mission (es ! k) m = Inr n" "mission_inv m"
    using assms(1,2) by (rule record_at) (use assms(3) in auto)
  then obtain a b j where a: "m_call_accounting m = Some a" "charge a iv c (m_model_calls m) = Inr (b, j)"
    using assms(3) by (auto simp: replay_mission_def replay_record_def replay_charged_def
        split: if_split_asm option.split_asm sum.split_asm)
  obtain r ident inp where inv: "EvLaneInvoked (ca_invocation a) r ident inp (ca_cap a) (ca_budget a) \<in> set evs"
      "m_model_calls m = calls_made evs"
    using inv_metered_log [OF at(1,2)] a(1) assms(4) by (auto simp: inv_metered_def)
  have "calls_made (evs @ [EvModelCallCharged iv c]) = calls_made evs + (if 1 < c then 1 else 0)"
    by (simp add: calls_made_def call_weight_def)
  moreover have "1 \<le> ca_next a" "ca_cap a \<le> 4" "ca_budget a \<le> MAX_MODEL_CALLS"
      "m_model_calls m + ca_cap a \<le> ca_budget a + max 1 (ca_next a - 1)"
    using at(4) a(1) by (simp_all add: mission_inv_def inv_calls_def)
  ultimately show ?thesis using charge_Inr(1-3) [OF a(2)] inv
    by (intro exI [of _ r] exI [of _ ident] exI [of _ inp] exI [of _ "ca_cap a"] exI [of _ "ca_budget a"])
      (auto split: if_split_asm)
qed

theorem model_calls_budgeted_witness:
  "calls_made (mission_log 1 (take 8 page_journal)) = 2
   \<and> (\<exists>r ident inp cap budget. EvLaneInvoked (call_of 5) r ident inp cap budget \<in> set (mission_log 1 (take 7 page_journal))
        \<and> 2 \<le> cap \<and> cap \<le> 4 \<and> 2 \<le> budget)"
proof -
  obtain st where st: "accepted (sample_ext []) page_journal st" by (rule page_accepted)
  have "en_event (page_journal ! 7) = EvModelCallCharged (call_of 5) 2" "7 < length page_journal"
      "en_mission (page_journal ! 7) = 1"
    by (simp_all add: page_journal_def sample_entry_def)
  note all = model_calls_budgeted [OF st this(2,1) refl, unfolded this(3)]
  have "calls_made (mission_log 1 (take 7 page_journal) @ [EvModelCallCharged (call_of 5) 2]) = 2"
      "calls_made (mission_log 1 (take 8 page_journal)) = 2"
    by (simp_all add: page_journal_def sample_entry_def calls_made_def call_weight_def)
  with all show ?thesis by fastforce
qed


section \<open>A session that did not end cleanly\<close>

definition kept_back :: "mission \<Rightarrow> bool" where
  "kept_back m \<longleftrightarrow> m_must_hold m \<or> m_held m \<noteq> None \<or> is_terminal (m_state m)"

lemma kept_back_record:
  assumes "replay_record en m = Inr n" "\<not> is_trigger (en_event en)" "en_event en \<noteq> EvResumed"
  shows "m_must_hold m \<Longrightarrow> m_must_hold n \<or> m_held n \<noteq> None" "m_held m \<noteq> None \<Longrightarrow> m_held n \<noteq> None"
  using assms
  by (cases "en_event en"; auto simp: record_defs is_trigger_def split: if_split_asm option.split_asm sum.split_asm)+

lemma kept_back_step:
  assumes "replay_mission en m = Inr n" "kept_back m" "en_event en \<noteq> EvResumed"
  shows "kept_back n"
  using assms(1)
proof (cases rule: mission_step)
  case logged
  then show ?thesis using kept_back_record [OF logged(3,2) assms(3)] assms(2) by (auto simp: kept_back_def)
qed (use assms(2) in \<open>auto simp: kept_back_def\<close>)

lemma kept_back_no_work: "replay_mission en m = Inr n \<Longrightarrow> kept_back m \<Longrightarrow> \<not> is_work (en_event en)"
proof
  assume step: "replay_mission en m = Inr n" and kb: "kept_back m" and w: "is_work (en_event en)"
  have "\<not> is_terminal (m_state m)" using work_active [OF step w] by (auto simp: active_def state_classes)
  moreover have "\<not> while_held (en_event en)" "\<not> before_hold (m_state m) (en_event en)"
    using w by (auto simp: is_work_def while_held_def before_hold_def split: event.splits)
  ultimately show False using kb step w
    by (auto simp: kept_back_def replay_mission_def is_work_def split: if_split_asm)
qed

text \<open>What an opened session leaves of a mission when the session before it was not closed.\<close>

lemma opened_kept_back:
  assumes "accepted X (es @ [en]) st" "en_event en = EvSessionOpened" "es \<noteq> []" "en_event (last es) \<noteq> EvSessionClosed"
    "map_of (rs_missions st) i = Some m"
  shows "kept_back m"
proof -
  obtain st0 where st0: "accepted X es st0" "replay st0 en = Inr st" using assms(1) by (auto simp: accepted_snoc)
  have "rs_session st0 \<noteq> SnClosed" using closed_last [OF st0(1)] assms(3,4) by blast
  note unclosed = this
  from st0(2) have "map_of (rs_missions st) i = map_option (\<lambda>m. mark_must_hold (invalidate_calls m)) (map_of (rs_missions st0) i)"
    by (cases rule: replay_cases) (use assms(2) unclosed in \<open>auto simp: replay_opened_def\<close>)
  then show ?thesis using assms(5)
    by (cases "map_of (rs_missions st0) i") (auto simp: kept_back_def mark_must_hold_def split: if_split_asm)
qed

lemma kept_back_until_resumed:
  assumes "accepted X (es @ [en]) st" "en_event en = EvSessionOpened" "es \<noteq> []" "en_event (last es) \<noteq> EvSessionClosed"
    "map_of (rs_missions st) i = Some m" "accepted X (es @ [en] @ fs) st'" "EvResumed \<notin> set (mission_log i fs)"
  shows "\<exists>n. map_of (rs_missions st') i = Some n \<and> kept_back n"
  using assms(6,7)
proof (induction fs arbitrary: st' rule: rev_induct)
  case Nil
  then show ?case using assms(1,5) opened_kept_back [OF assms(1-5)] by (simp add: accepted_def)
next
  case (snoc x fs)
  then obtain st1 where st1: "accepted X (es @ [en] @ fs) st1" "replay st1 x = Inr st'"
    by (auto simp: accepted_snoc simp flip: append_assoc append_Cons)
  obtain n where n: "map_of (rs_missions st1) i = Some n" "kept_back n"
    using snoc.IH [OF st1(1)] snoc.prems(2) by (auto split: if_split_asm)
  have iv: "rs_inv st1" by (rule accepted_inv [OF st1(1)])
  obtain k where k: "map_of (rs_missions st') i = Some k" using replay_keeps [OF st1(2) iv n(1)] by blast
  from st1(2) iv k have "kept_back k"
  proof (cases rule: replay_lookup)
    case (boundary m0)
    then show ?thesis using n by (auto simp: kept_back_def mark_must_hold_def split: if_split_asm)
  next
    case (own m0)
    then show ?thesis using kept_back_step [of x m0 k] n snoc.prems(2) by auto
  qed (use n k in auto)
  then show ?case using k by blast
qed

text \<open>C25: after an unclean session nothing works until it is resumed. When a session opens in an
  accepted journal although the record before it did not close the last one, no mission drafted before
  works again (calls a lane, charges a model call, dispatches, asks for an approval, retains or
  verifies a page) until the journal records that this mission was resumed.\<close>

theorem unclean_session_holds:
  assumes "accepted X (es @ [opening] @ fs @ [w]) st" "en_event opening = EvSessionOpened"
    and "es \<noteq> []" "en_event (last es) \<noteq> EvSessionClosed"
    and "mission_log (en_mission w) es \<noteq> []" "is_work (en_event w)"
  shows "EvResumed \<in> set (mission_log (en_mission w) fs)"
proof (rule ccontr)
  assume no: "EvResumed \<notin> set (mission_log (en_mission w) fs)"
  let ?i = "en_mission w"
  obtain st2 where st2: "accepted X (es @ [opening] @ fs) st2" "replay st2 w = Inr st"
    using assms(1) by (auto simp: accepted_snoc simp flip: append_assoc append_Cons)
  obtain m n where m: "map_of (rs_missions st2) ?i = Some m" "replay_mission w m = Inr n"
    using st2(2) by (cases rule: replay_cases) (use assms(6) in \<open>auto simp: is_work_def\<close>)
  have "1 \<le> ?i" using accepted_keys [OF st2(1)] m(1) by blast
  obtain st1 where st1: "accepted X (es @ [opening]) st1"
    using accepted_prefix [of X "es @ [opening]" fs] st2(1) by auto
  obtain st0 where st0: "accepted X es st0" "replay st0 opening = Inr st1" using st1 by (auto simp: accepted_snoc)
  obtain m0 where "map_of (rs_missions st0) ?i = Some m0"
    using undrafted_silent [OF st0(1), of ?i] assms(5) \<open>1 \<le> ?i\<close> by (auto simp: SESSION_def)
  then obtain m1 where "map_of (rs_missions st1) ?i = Some m1"
    using replay_keeps [OF st0(2) accepted_inv [OF st0(1)]] by blast
  then have "kept_back m" using kept_back_until_resumed [OF st1 assms(2-4) _ st2(1) no] m(1) by auto
  then show False using kept_back_no_work [OF m(2)] assms(6) by blast
qed

text \<open>The sample journal, cut by a crash after its first lane call: the call is overtaken, the mission
  held and resumed, and a new call is made.\<close>

definition crash_journal :: "entry list" where
  "crash_journal = take 6 page_journal @ [sample_entry 6 0 EvSessionOpened] @
     [sample_entry 7 1 (EvLaneOvertaken (call_of 5)), sample_entry 8 1 (EvHeld HrUncleanShutdown),
      sample_entry 9 1 EvResumed] @
     [sample_entry 10 1 (EvLaneInvoked (call_of 10) Sentinel sample_digest sample_digest 0 0)]"

lemma crash_accepted: "\<exists>st. accepted (sample_ext []) crash_journal st"
  by (simp add: crash_journal_def accepted_def page_journal_def sample_entry_def evidence_check_def
      evidence_ok_def is_size_def replay_init_def page_steps is_settled_def ends_open_file_def
      while_held_def before_hold_def)

theorem unclean_session_holds_witness:
  "EvResumed \<in> set (mission_log 1 [sample_entry 7 1 (EvLaneOvertaken (call_of 5)),
     sample_entry 8 1 (EvHeld HrUncleanShutdown), sample_entry 9 1 EvResumed])
   \<and> (\<exists>st. accepted (sample_ext []) crash_journal st)"
proof -
  obtain st where st: "accepted (sample_ext []) crash_journal st" using crash_accepted by blast
  have "mission_log 1 (take 6 page_journal) \<noteq> []" "take 6 page_journal \<noteq> []"
      "en_event (last (take 6 page_journal)) \<noteq> EvSessionClosed"
    by (simp_all add: page_journal_def sample_entry_def)
  then have "EvResumed \<in> set (mission_log (en_mission (sample_entry 10 1
      (EvLaneInvoked (call_of 10) Sentinel sample_digest sample_digest 0 0)))
    [sample_entry 7 1 (EvLaneOvertaken (call_of 5)), sample_entry 8 1 (EvHeld HrUncleanShutdown),
      sample_entry 9 1 EvResumed])"
    by (intro unclean_session_holds [OF st [unfolded crash_journal_def]]) (simp_all add: sample_entry_def is_work_def)
  moreover have "en_mission (sample_entry k 1 ev) = 1" for k ev by (simp add: sample_entry_def)
  ultimately show ?thesis using st by metis
qed

end
