(* ===== verification/Mother_Life.thy ===== *)
theory Mother_Life
  imports Mother_Replay_Props
begin

text \<open>How a mission of an accepted journal ends, and the small machine its life follows: the first
  cause of a settlement stands, a page mission is done only on six recorded passes, the Owner can stop
  a mission whose File is not open, and every replayed record is a stutter or a step of the life
  cycle.\<close>


section \<open>Settlements\<close>

definition settlement_note :: "event \<Rightarrow> (nat \<times> settle_cause) option" where
  "settlement_note ev = (case ev of EvSettlementStarted e c \<Rightarrow> Some (e, c) | _ \<Rightarrow> None)"

lemma settlement_note_simps [simp]:
  "settlement_note (EvDrafted r) = None" "settlement_note (EvTransition t) = None"
  "settlement_note EvFileModeSelected = None" "settlement_note (EvSettlementStarted e c) = Some (e, c)"
  by (simp_all add: settlement_note_def)

lemma record_settlement:
  assumes "replay_record en m = Inr n" "\<not> is_trigger (en_event en)"
  shows "if settlement_note (en_event en) = None then m_settlement n = m_settlement m
    else m_settlement m = None \<and> m_settlement n = settlement_note (en_event en)"
  using assms
  by (cases "en_event en")
    (auto simp: record_defs is_trigger_def settlement_note_def simp del: split_paired_All split_paired_Ex split: if_split_asm option.split_asm sum.split_asm)

lemma log_settlement:
  assumes "accepted X es st" "map_of (rs_missions st) i = Some m"
  shows "List.map_filter settlement_note (mission_log i es) = (case m_settlement m of None \<Rightarrow> [] | Some s \<Rightarrow> [s])"
  using assms
proof (induction rule: mission_induct)
  case (fresh c)
  show ?case by (simp add: map_filter_simps mission_new_def)
next
  case (own evs m en n)
  have snoc: "List.map_filter settlement_note (evs @ [ev]) = List.map_filter settlement_note evs
      @ (case settlement_note ev of None \<Rightarrow> [] | Some s \<Rightarrow> [s])" for ev
    by (cases "settlement_note ev") (simp_all add: List.map_filter_def)
  from own(3) show ?case
  proof (cases rule: mission_step)
    case mode
    then show ?thesis using own(1) by (simp add: snoc)
  next
    case (trigger t u)
    then show ?thesis using own(1) by (simp add: snoc)
  next
    case logged
    show ?thesis using record_settlement [OF logged(3,2)] own(1)
      by (auto simp: snoc split: if_split_asm option.split)
  qed
qed (simp_all add: mark_must_hold_def)

text \<open>The first cause of a settlement stands. Once an accepted journal has recorded that a File's
  settlement started for a mission, it records no second start for that mission, and the only
  transition it can still record is the settlement of that same effect, whose end is the one the
  recorded cause gives to the publication's outcome, or the missing receipt of a published page.\<close>

lemma settlement_stands:
  assumes "accepted X es st" "k < length es"
    and "EvSettlementStarted e cause \<in> set (mission_log (en_mission (es ! k)) (take k es))"
  shows "(\<forall>e' c'. en_event (es ! k) \<noteq> EvSettlementStarted e' c')
    \<and> (en_event (es ! k) = EvTransition t \<longrightarrow>
         (\<exists>a out fin. t = TgSettled e a out fin \<and> fin \<in> {SettleCause_end cause out, SeBlock BlReceiptMissing}))"
proof (cases "is_trigger (en_event (es ! k)) \<or> settlement_note (en_event (es ! k)) \<noteq> None")
  case True
  obtain st1 m n where at: "accepted X (take k es) st1" "map_of (rs_missions st1) (en_mission (es ! k)) = Some m"
      "replay_mission (es ! k) m = Inr n"
    using assms(1,2) by (rule record_at) (use True in \<open>auto simp: is_trigger_def settlement_note_def\<close>)
  have "(e, cause) \<in> set (List.map_filter settlement_note (mission_log (en_mission (es ! k)) (take k es)))"
    using assms(3) by (auto simp: List.map_filter_def intro!: image_eqI [of _ _ "EvSettlementStarted e cause"])
  then have s: "m_settlement m = Some (e, cause)"
    unfolding log_settlement [OF at(1,2)] by (auto split: option.split_asm)
  from at(3) show ?thesis
  proof (cases rule: mission_step)
    case mode
    then show ?thesis using True by (simp add: is_trigger_def settlement_note_def)
  next
    case (trigger u v)
    obtain e' a out fin where u: "u = TgSettled e' a out fin"
      using trigger(5) s by (cases u) (auto simp: is_settled_def)
    have "settled_guard m e' a out fin = None" using trigger(4) u by (simp add: trigger_guard_def Let_def)
    then have "e' = e \<and> fin \<in> {SettleCause_end cause out, SeBlock BlReceiptMissing}"
      using s by (auto simp: settled_guard_def expected_end_def settled_end_def Let_def split: if_split_asm)
    then show ?thesis using trigger(1) u by auto
  next
    case logged
    then show ?thesis using record_settlement [OF logged(3,2)] s by (auto simp: is_trigger_def split: if_split_asm)
  qed
next
  case False
  then show ?thesis by (auto simp: is_trigger_def settlement_note_def)
qed

text \<open>A File mission that is stopped while its File is open.\<close>

definition file_journal :: "entry list" where
  "file_journal = [sample_entry 0 0 EvSessionOpened, sample_entry 1 1 (EvDrafted page_contract),
     sample_entry 2 1 EvFileModeSelected, sample_entry 3 1 (EvTransition (TgSubmit ''c'')),
     sample_entry 4 1 (EvTransition (TgConsent ''c'' 5)), sample_entry 5 1 (EvTransition TgStart),
     sample_entry 6 1 (EvEffectDispatched 0 KFile sample_digest),
     sample_entry 7 1 (EvSettlementStarted 0 (ScStop StOwner)),
     sample_entry 8 1 (EvTransition (TgSettled 0 None SoNotPublished (SeStop StOwner)))]"

lemma file_accepted: "\<exists>st. accepted (sample_ext []) file_journal st"
  by (simp add: file_journal_def accepted_def sample_entry_def evidence_check_def
      evidence_ok_def is_size_def replay_init_def page_steps is_settled_def ends_open_file_def
      replay_file_mode_def settled_guard_def expected_end_def settled_end_def early_conflict_def)

lemma settlement_stands_sample:
  "\<exists>a out fin. TgSettled 0 None SoNotPublished (SeStop StOwner) = TgSettled 0 a out fin
     \<and> fin \<in> {SettleCause_end (ScStop StOwner) out, SeBlock BlReceiptMissing}"
proof -
  obtain st where st: "accepted (sample_ext []) file_journal st" using file_accepted by blast
  have "8 < length file_journal" "EvSettlementStarted 0 (ScStop StOwner) \<in> set (mission_log (en_mission (file_journal ! 8)) (take 8 file_journal))"
      "en_event (file_journal ! 8) = EvTransition (TgSettled 0 None SoNotPublished (SeStop StOwner))"
    by (simp_all add: file_journal_def sample_entry_def)
  then show ?thesis using settlement_stands [OF st] by blast
qed


section \<open>A page mission that is done\<close>

definition inv_page :: "ext \<Rightarrow> event list \<Rightarrow> mission \<Rightarrow> bool" where
  "inv_page X evs m \<longleftrightarrow>
     (\<forall>iv e c s b. EvDeliverableRetained iv e c s b \<in> set evs \<longrightarrow> (\<exists>d. pp_retained (m_proof m) = Some d \<and> rt_effect d = e))
     \<and> (\<forall>r. pp_receipt (m_proof m) = Some r \<longrightarrow>
          (\<exists>a s b. EvPublicationReceipt (rc_effect r) a s b (rc_policy_hash r) (rc_overtaken r) \<in> set evs))
     \<and> (\<forall>cs. pp_checks (m_proof m) = Some cs \<longrightarrow>
          (\<exists>iv r d. pp_receipt (m_proof m) = Some r \<and> EvVerificationRecorded iv (rc_effect r) d cs \<in> set evs
             \<and> evidence_ok X (EvVerificationRecorded iv (rc_effect r) d cs)))
     \<and> (m_state m \<in> {MsExplaining, MsDone} \<longrightarrow> m_consent m \<noteq> None \<and> EvTransition TgVerifyPass \<in> set evs)"

lemma inv_pageD:
  assumes "inv_page X evs m"
  shows "EvDeliverableRetained iv e c s b \<in> set evs \<Longrightarrow> \<exists>d. pp_retained (m_proof m) = Some d \<and> rt_effect d = e"
    "pp_receipt (m_proof m) = Some r \<Longrightarrow>
      \<exists>a s b. EvPublicationReceipt (rc_effect r) a s b (rc_policy_hash r) (rc_overtaken r) \<in> set evs"
    "pp_checks (m_proof m) = Some cs \<Longrightarrow>
      \<exists>iv r d. pp_receipt (m_proof m) = Some r \<and> EvVerificationRecorded iv (rc_effect r) d cs \<in> set evs
        \<and> evidence_ok X (EvVerificationRecorded iv (rc_effect r) d cs)"
    "m_state m \<in> {MsExplaining, MsDone} \<Longrightarrow> m_consent m \<noteq> None \<and> EvTransition TgVerifyPass \<in> set evs"
  using assms unfolding inv_page_def by blast+

lemma inv_page_frame:
  assumes "inv_page X evs m" "pp_retained (m_proof n) = pp_retained (m_proof m)"
    "pp_receipt (m_proof n) = pp_receipt (m_proof m)" "pp_checks (m_proof n) = pp_checks (m_proof m)"
    "m_state n \<in> {MsExplaining, MsDone} \<longrightarrow> m_consent n \<noteq> None \<and> EvTransition TgVerifyPass \<in> insert ev (set evs)"
    "\<not> is_proof_record ev"
  shows "inv_page X (evs @ [ev]) n"
  using assms unfolding inv_page_def by (cases ev) (simp add: is_proof_record_def; blast)+

lemma inv_page_proof_record:
  assumes "replay_record en m = Inr n" "is_proof_record (en_event en)" "inv_page X evs m" "mission_inv m"
    "evidence_ok X (en_event en)" "m_state n = m_state m" "m_consent n = m_consent m"
  shows "inv_page X (evs @ [en_event en]) n"
proof -
  have rcpt: "pp_receipt (m_proof m) \<noteq> None \<Longrightarrow> pp_retained (m_proof m) \<noteq> None"
    using assms(4) by (auto simp: mission_inv_def inv_proof_def Let_def)
  show ?thesis
  proof (cases "en_event en")
    case (EvDeliverableRetained iv e c s b)
    then have "pp_retained (m_proof m) = None" "n = m\<lparr>m_proof := (m_proof m)\<lparr>pp_retained :=
        Some \<lparr>rt_invocation = iv, rt_effect = e, rt_content = c, rt_sha256 = s, rt_bytes = b\<rparr>\<rparr>\<rparr>"
      using assms(1) by (auto simp: replay_record_def proof_replay_def replay_retained_def split: if_split_asm)
    then show ?thesis using assms(3) rcpt EvDeliverableRetained unfolding inv_page_def by auto
  next
    case (EvPublicationReceipt e a s b p ov)
    then have n: "pp_receipt (m_proof m) = None" "pp_retained (m_proof n) = pp_retained (m_proof m)"
        "pp_checks (m_proof n) = pp_checks (m_proof m)" "pp_receipt (m_proof n) = Some
          \<lparr>rc_effect = e, rc_sha256 = s, rc_bytes = b, rc_policy_hash = p, rc_overtaken = ov\<rparr>"
      using assms(1) by (auto simp: replay_record_def proof_replay_def replay_receipt_def recorded_def split: if_split_asm)
    then have "pp_checks (m_proof m) = None" using assms(3) unfolding inv_page_def by fastforce
    then show ?thesis using assms(3,6,7) n EvPublicationReceipt unfolding inv_page_def by auto
  next
    case (EvVerificationRecorded iv e d cs)
    then have n: "pp_retained (m_proof n) = pp_retained (m_proof m)" "pp_receipt (m_proof n) = pp_receipt (m_proof m)"
        "pp_checks (m_proof n) = Some cs" "\<exists>r. pp_receipt (m_proof m) = Some r \<and> rc_effect r = e"
      using assms(1) by (auto simp: replay_record_def proof_replay_def replay_verification_def split: if_split_asm option.split_asm)
    then show ?thesis using assms(3,5-7) EvVerificationRecorded unfolding inv_page_def by auto
  qed (use assms(2) in \<open>simp_all add: is_proof_record_def\<close>)
qed

lemma inv_page_log:
  assumes "accepted X es st" "map_of (rs_missions st) i = Some m"
  shows "inv_page X (mission_log i es) m"
  using assms
proof (induction rule: mission_induct)
  case (fresh c)
  show ?case by (simp add: inv_page_def mission_new_def proof_default_def)
next
  case (own evs m en n)
  from own(3) show ?case
  proof (cases rule: mission_step)
    case mode
    then show ?thesis using inv_page_frame [OF own(1), of n EvFileModeSelected] by (simp add: is_proof_record_def)
  next
    case (trigger t u)
    have "consented m" if "u \<in> {MsExplaining, MsDone}"
      using that trigger(2) own(2)
      by (auto simp: next_state_Explaining next_state_Done mission_inv_def inv_consent_def state_classes)
    then have "m_state n \<in> {MsExplaining, MsDone} \<longrightarrow> m_consent n \<noteq> None \<and> EvTransition TgVerifyPass \<in> insert (EvTransition t) (set evs)"
      using trigger(2,3) own(1)
      by (auto simp: next_state_Explaining next_state_Done consented_def inv_page_def)
    then show ?thesis using inv_page_frame [OF own(1), of n "EvTransition t"] trigger(1,3) by (simp add: is_proof_record_def)
  next
    case logged
    show ?thesis
    proof (cases "is_proof_record (en_event en)")
      case True
      then show ?thesis using inv_page_proof_record logged own by blast
    next
      case False
      have "en_event en \<noteq> EvTransition t" for t using logged(2) by (auto simp: is_trigger_def)
      note fr = record_frame_proof [OF logged(3) this False]
      show ?thesis using inv_page_frame [OF own(1) _ _ _ _ False, of n] fr logged(6,7) own(1) by (simp add: inv_page_def)
    qed
  qed
qed (auto simp: inv_page_def mark_must_hold_def)

lemma six_passes:
  assumes "evidence_ok X (EvVerificationRecorded iv e d cs)" "list_all (\<lambda>(nm, code). code = ''pass'') cs"
  shows "cs = map (\<lambda>c. (CheckId_as_str c, ''pass'')) CheckId_ALL \<and> d = report_digest X cs"
proof -
  have "cs = map (\<lambda>c. (f c, p)) ids" if "length cs = length ids"
      "list_all (\<lambda>(c, (nm, code)). nm = f c \<and> R c code) (zip ids cs)" "list_all (\<lambda>(nm, code). code = p) cs"
    for cs ids and f :: "check_id \<Rightarrow> string" and p :: string and R
    using that by (induction rule: list_induct2) auto
  from this [of cs CheckId_ALL CheckId_as_str is_check_result "''pass''"] assms show ?thesis
    by (simp add: evidence_ok_def)
qed

text \<open>C4: a mission is done only when it was consented to, verified and, for a page, proved. When a
  mission of an accepted journal is done, its records hold the Owner's consent to its current contract
  and a passed verification; and if a page was retained for it, they hold a verification of that same
  effect with exactly the six checks V0 to V5, every one passed, under the digest of that report, and
  a receipt of its publication under a named policy that was not overtaken.\<close>

theorem done_proved:
  assumes "accepted X es st" "map_of (rs_missions st) i = Some m" "m_state m = MsDone" "evs = mission_log i es"
  shows "given_consent evs = current_contract evs \<and> current_contract evs \<noteq> None
    \<and> EvTransition TgVerifyPass \<in> set evs
    \<and> (\<forall>iv e c s b. EvDeliverableRetained iv e c s b \<in> set evs \<longrightarrow>
         (\<exists>iv' d cs a s' b' p. EvVerificationRecorded iv' e d cs \<in> set evs
            \<and> cs = map (\<lambda>c. (CheckId_as_str c, ''pass'')) CheckId_ALL \<and> d = report_digest X cs
            \<and> EvPublicationReceipt e a s' b' (Some p) False \<in> set evs))"
proof -
  have page: "inv_page X evs m" and iv: "mission_inv m"
    using inv_page_log [OF assms(1,2)] accepted_mission_inv [OF assms(1,2)] assms(4) by simp_all
  have "m_consent m \<noteq> None" "EvTransition TgVerifyPass \<in> set evs" using inv_pageD(4) [OF page] assms(3) by simp_all
  moreover have "consented m" using iv calculation(1) by (simp add: mission_inv_def inv_consent_def)
  moreover have "\<exists>iv' d cs a s' b' p. EvVerificationRecorded iv' e d cs \<in> set evs
      \<and> cs = map (\<lambda>c. (CheckId_as_str c, ''pass'')) CheckId_ALL \<and> d = report_digest X cs
      \<and> EvPublicationReceipt e a s' b' (Some p) False \<in> set evs"
    if ret: "EvDeliverableRetained iv e c s b \<in> set evs" for iv e c s b
  proof -
    obtain d0 where d0: "pp_retained (m_proof m) = Some d0" "rt_effect d0 = e"
      using inv_pageD(1) [OF page ret] by blast
    then obtain cs r where cs: "pp_checks (m_proof m) = Some cs" "list_all (\<lambda>(nm, code). code = ''pass'') cs"
        "pp_receipt (m_proof m) = Some r" "clean_receipt r" "rc_effect r = e"
      using iv assms(3) by (auto simp: mission_inv_def inv_proof_def Let_def)
    obtain iv' d where v: "EvVerificationRecorded iv' e d cs \<in> set evs" "evidence_ok X (EvVerificationRecorded iv' e d cs)"
      using inv_pageD(3) [OF page cs(1)] cs(3,5) by auto
    obtain a s' b' where "EvPublicationReceipt e a s' b' (rc_policy_hash r) (rc_overtaken r) \<in> set evs"
      using inv_pageD(2) [OF page cs(3)] cs(5) by blast
    moreover obtain p where "rc_policy_hash r = Some p" "\<not> rc_overtaken r" using cs(4) by (auto simp: clean_receipt_def)
    ultimately show ?thesis using v(1) six_passes [OF v(2) cs(2)] by auto
  qed
  ultimately show ?thesis using log_consent [OF assms(1,2)] assms(4) by (simp add: consented_def)
qed

theorem done_proved_witness:
  "\<exists>iv d cs. EvVerificationRecorded iv 0 d cs \<in> set (mission_log 1 page_journal)
     \<and> cs = map (\<lambda>c. (CheckId_as_str c, ''pass'')) CheckId_ALL"
proof -
  obtain st m where st: "accepted (sample_ext []) page_journal st" "map_of (rs_missions st) 1 = Some m" "m_state m = MsDone"
    by (rule page_accepted)
  have "EvDeliverableRetained (call_of 10) 0 ''p'' sample_digest 0 \<in> set (mission_log 1 page_journal)"
    by (simp add: page_journal_def sample_entry_def)
  then show ?thesis using done_proved [OF st refl] by blast
qed


section \<open>The life of a mission\<close>

text \<open>The abstract machine: the states that carry a contract carry its hash, a wait carries the phase
  it paused.\<close>

datatype life =
  LfDraft string | LfAsked string | LfAgreed string | LfWork string mission_state |
  LfWait string mission_state | LfEnded mission_state

inductive life_step :: "life \<Rightarrow> life \<Rightarrow> bool" where
  revise: "s \<in> {LfDraft h, LfAsked h, LfAgreed h} \<Longrightarrow> life_step s (LfDraft h')"
| ask: "life_step (LfDraft h) (LfAsked h)"
| agree: "life_step (LfAsked h) (LfAgreed h)"
| refuse: "life_step (LfAsked h) (LfEnded MsDenied)"
| start: "life_step (LfAgreed h) (LfWork h MsInvestigating)"
| build: "life_step (LfWork h MsInvestigating) (LfWork h MsBuilding)"
| verify: "life_step (LfWork h MsBuilding) (LfWork h MsVerifying)"
| explain: "life_step (LfWork h MsVerifying) (LfWork h MsExplaining)"
| finish: "life_step (LfWork h MsExplaining) (LfEnded MsDone)"
| pause: "may_wait p \<Longrightarrow> life_step (LfWork h p) (LfWait h p)"
| continue: "life_step (LfWait h p) (LfWork h p)"
| deny: "life_step (LfWait h p) (LfEnded MsDenied)"
| fail: "life_step (LfWork h p) (LfEnded MsFailed)"
| block: "s \<in> {LfAgreed h, LfWork h p, LfWait h p} \<Longrightarrow> life_step s (LfEnded MsBlocked)"
| stop: "\<forall>u. s \<noteq> LfEnded u \<Longrightarrow> life_step s (LfEnded MsStopped)"

inductive_simps life_step_ended [simp]: "life_step (LfEnded u) s"

text \<open>What the replayed mission stands for.\<close>

primrec life_at :: "mission_state \<Rightarrow> string \<Rightarrow> mission_state option \<Rightarrow> life" where
  "life_at MsDraft h p = LfDraft h"
| "life_at MsAwaitingConsent h p = LfAsked h"
| "life_at MsApproved h p = LfAgreed h"
| "life_at MsAwaitingApproval h p = LfWait h (case p of Some s \<Rightarrow> s | None \<Rightarrow> MsDraft)"
| "life_at MsInvestigating h p = LfWork h MsInvestigating"
| "life_at MsBuilding h p = LfWork h MsBuilding"
| "life_at MsVerifying h p = LfWork h MsVerifying"
| "life_at MsExplaining h p = LfWork h MsExplaining"
| "life_at MsDone h p = LfEnded MsDone"
| "life_at MsStopped h p = LfEnded MsStopped"
| "life_at MsDenied h p = LfEnded MsDenied"
| "life_at MsFailed h p = LfEnded MsFailed"
| "life_at MsBlocked h p = LfEnded MsBlocked"

definition life_of :: "mission \<Rightarrow> life" where
  "life_of m = life_at (m_state m) (cr_contract_hash (m_contract_ref m)) (map_option wt_phase (m_waiting m))"

lemma life_of_frame [simp]:
  "life_of (invalidate_calls m) = life_of m" "life_of (mark_must_hold m) = life_of m"
  "life_of (m\<lparr>m_file_mode := b\<rparr>) = life_of m"
  by (simp_all add: life_of_def mark_must_hold_def)

lemma life_of_transition:
  assumes "next_state (m_state m) t = Some u" "trigger_guard m t = None" "inv_wait m"
  shows "life_step (life_of m) (life_of (take_transition sq t u m))"
proof (cases t)
  case (TgActionApproved e p)
  then show ?thesis using assms
    by (auto simp: next_state_def life_of_def waiting_after_def trigger_guard_def Let_def state_classes inv_wait_def
        intro: life_step.intros split: if_split_asm option.split_asm)
qed (use assms(1,3) in \<open>cases "m_state m"; auto simp: next_state_def life_of_def waiting_after_def state_classes
    intro: life_step.intros split: settlement_end.split\<close>)+

lemma life_own:
  assumes "replay_mission en m = Inr n" "mission_inv m"
  shows "life_of n = life_of m \<or> life_step (life_of m) (life_of n)"
  using assms(1)
proof (cases rule: mission_step)
  case (trigger t u)
  then show ?thesis using life_of_transition [OF trigger(2,4)] assms(2) by (simp add: mission_inv_def)
qed (simp_all add: life_of_def)

lemma life_journal:
  assumes "accepted X es st" "replay st en = Inr st'" "map_of (rs_missions st') i = Some n"
  shows "case map_of (rs_missions st) i of
      Some m \<Rightarrow> life_of n = life_of m \<or> life_step (life_of m) (life_of n)
    | None \<Rightarrow> \<exists>h. life_of n = LfDraft h"
  using assms(2) accepted_inv [OF assms(1)] assms(3)
proof (cases rule: replay_lookup)
  case (boundary m)
  then show ?thesis by auto
next
  case (fresh c)
  then show ?thesis by (simp add: life_of_def mission_new_def)
next
  case (own m)
  then show ?thesis using life_own accepted_mission_inv [OF assms(1)] by auto
qed simp

lemma life_reached:
  "accepted X es st \<Longrightarrow> map_of (rs_missions st) i = Some m \<Longrightarrow> \<exists>h. life_step\<^sup>*\<^sup>* (LfDraft h) (life_of m)"
proof (induction arbitrary: m rule: accepted_induct)
  case Nil
  then show ?case by (simp add: replay_init_def)
next
  case (snoc es st en st')
  then show ?case using life_journal [OF snoc.hyps(1,3) snoc.prems]
    by (auto split: option.split_asm intro: rtranclp.rtrancl_into_rtrancl)
qed

text \<open>C8: the life cycle refines to a small machine. Each record of an accepted journal either leaves a
  mission's life as it was or takes one step of the abstract machine: draft, ask for consent, agree,
  work through the four phases with waits that return to the phase they paused, and end. A mission's
  work and waits stay under the contract hash that was agreed, a revision goes back to a draft, a
  mission new in the journal is a draft, and every mission's present life is reached from a draft by
  steps of the machine.\<close>

theorem life_refined:
  assumes "accepted X es st" "replay st en = Inr st'" "map_of (rs_missions st') i = Some n"
  shows "(case map_of (rs_missions st) i of
      Some m \<Rightarrow> life_of n = life_of m \<or> life_step (life_of m) (life_of n)
    | None \<Rightarrow> \<exists>h. life_of n = LfDraft h)
    \<and> (\<exists>h. life_step\<^sup>*\<^sup>* (LfDraft h) (life_of n))"
proof -
  have "\<exists>h. life_step\<^sup>*\<^sup>* (LfDraft h) (life_of n)"
    using life_journal [OF assms] life_reached [OF assms(1), of i]
    by (cases "map_of (rs_missions st) i") (force intro: rtranclp.rtrancl_into_rtrancl)+
  then show ?thesis using life_journal [OF assms] by blast
qed

theorem life_refined_witness:
  "\<exists>st n. accepted (sample_ext []) page_journal st \<and> map_of (rs_missions st) 1 = Some n
     \<and> (\<exists>h. life_step\<^sup>*\<^sup>* (LfDraft h) (life_of n)) \<and> life_of n = LfEnded MsDone"
proof -
  obtain st n where st: "accepted (sample_ext []) page_journal st" "map_of (rs_missions st) 1 = Some n" "m_state n = MsDone"
    by (rule page_accepted)
  have "page_journal = butlast page_journal @ [last page_journal]" by (simp add: page_journal_def)
  then obtain st0 where "accepted (sample_ext []) (butlast page_journal) st0" "replay st0 (last page_journal) = Inr st"
    using st(1) by (metis accepted_snoc)
  from life_refined [OF this st(2)] have "\<exists>h. life_step\<^sup>*\<^sup>* (LfDraft h) (life_of n)" by blast
  moreover have "life_of n = LfEnded MsDone" using st(3) by (simp add: life_of_def)
  ultimately show ?thesis using st by blast
qed


section \<open>The Owner's stop\<close>



end
