(* ===== verification/Kernel_Stop.thy ===== *)
theory Kernel_Stop
  imports Nexus_Prelude
begin

text \<open>The emergency stop (\<^verbatim>\<open>src/kernel/src/emergency_stop.rs\<close>): the authority with its stop number, the
  watches of admitted work, the one controller that lifts, the bounded halt log with its durable audit,
  and the child processes a stop ends. What runs under the authority's lock is one function; what threads do
  between two locks is a task of a step relation, so that every interleaving of calls is a run. What the audit,
  the operating system and the clock answer is an argument.\<close>


section \<open>Halts\<close>

definition HALT_LOG_CAPACITY :: nat where "HALT_LOG_CAPACITY = 256"

definition CHILD_REAP_BOUND :: nat where "CHILD_REAP_BOUND = 5000"

datatype halt_area = HaCognitiveLoop | HaCoding | HaModelCall

primrec halt_area_as_str :: "halt_area \<Rightarrow> string" where
  "halt_area_as_str HaCognitiveLoop = ''cognitive_loop''"
| "halt_area_as_str HaCoding = ''coding''"
| "halt_area_as_str HaModelCall = ''model_call''"

definition durable :: "halt_area \<Rightarrow> bool" where
  "durable area \<longleftrightarrow> area = HaModelCall"

datatype halt_outcome = HoEnded | HoCleanupFailed string

record halt_record =
  hr_area :: halt_area
  hr_stop_number :: nat
  hr_outcome :: halt_outcome

datatype halt_audited = HdOwnAudit | HdNoAudit | HdRecorded | HdOwed | HdUnrecorded


section \<open>The authority\<close>

record stop_state =
  ss_stopped :: bool
  ss_number :: nat
  ss_halts :: "halt_record list"
  ss_audit :: bool
  ss_unrecorded :: nat

record stop_authority =
  sa_state :: stop_state
  sa_number_now :: nat
  sa_global :: bool
  sa_controlled :: bool

definition stop_authority_new :: stop_authority where
  "stop_authority_new = \<lparr>sa_state = \<lparr>ss_stopped = False, ss_number = 0, ss_halts = [], ss_audit = False, ss_unrecorded = 0\<rparr>,
     sa_number_now = 0, sa_global = False, sa_controlled = False\<rparr>"

definition stop_authority_global :: stop_authority where
  "stop_authority_global = stop_authority_new\<lparr>sa_global := True\<rparr>"

text \<open>The result says whether the caller now holds the controller.\<close>

definition mint_controller :: "stop_authority \<Rightarrow> bool \<times> stop_authority" where
  "mint_controller a = (if sa_controlled a then (False, a) else (True, a\<lparr>sa_controlled := True\<rparr>))"

definition claim_controller :: "stop_authority \<Rightarrow> bool \<times> stop_authority" where
  "claim_controller a = (if sa_global a then (False, a) else mint_controller a)"

definition claim_global_controller :: "stop_authority \<Rightarrow> bool \<times> stop_authority" where
  "claim_global_controller a = mint_controller a"

definition engage :: "stop_authority \<Rightarrow> nat \<times> stop_authority" where
  "engage a =
     (let s = (sa_state a)\<lparr>ss_stopped := True, ss_number := sat_add_u64 (ss_number (sa_state a)) 1\<rparr>
      in (ss_number s, a\<lparr>sa_state := s, sa_number_now := ss_number s\<rparr>))"

text \<open>A watch is the stop number of its admission; \<open>None\<close> is the refusal.\<close>

definition stop_admit :: "stop_authority \<Rightarrow> nat option" where
  "stop_admit a = (if ss_stopped (sa_state a) then None else Some (ss_number (sa_state a)))"

definition halted :: "stop_authority \<Rightarrow> nat \<Rightarrow> bool" where
  "halted a admitted_at \<longleftrightarrow> ss_number (sa_state a) \<noteq> admitted_at"

definition halted_now :: "stop_authority \<Rightarrow> nat \<Rightarrow> bool" where
  "halted_now a admitted_at \<longleftrightarrow> sa_number_now a \<noteq> admitted_at"

definition lift_if :: "nat \<Rightarrow> stop_authority \<Rightarrow> bool \<times> stop_authority" where
  "lift_if number a =
     (if ss_number (sa_state a) = number then (True, a\<lparr>sa_state := (sa_state a)\<lparr>ss_stopped := False\<rparr>\<rparr>) else (False, a))"

definition count_unrecorded :: "nat \<Rightarrow> stop_authority \<Rightarrow> stop_authority" where
  "count_unrecorded halts a = a\<lparr>sa_state := (sa_state a)\<lparr>ss_unrecorded := sat_add_u64 (ss_unrecorded (sa_state a)) halts\<rparr>\<rparr>"

text \<open>The locked part of recording a halt: the record, and whether an audit is attached.\<close>

definition record_locked :: "halt_area \<Rightarrow> halt_outcome \<Rightarrow> nat option \<Rightarrow> stop_authority \<Rightarrow> halt_record \<times> bool \<times> stop_authority" where
  "record_locked area outcome admitted_at a =
     (let s = sa_state a;
          stop_number = (case admitted_at of
              Some admitted \<Rightarrow> if ss_number s \<noteq> admitted then sat_add_u64 admitted 1 else ss_number s
            | None \<Rightarrow> ss_number s);
          r = \<lparr>hr_area = area, hr_stop_number = stop_number, hr_outcome = outcome\<rparr>;
          s = (if length (ss_halts s) = HALT_LOG_CAPACITY
               then s\<lparr>ss_halts := tl (ss_halts s),
                      ss_unrecorded := (if \<not> ss_audit s \<and> durable (hr_area (hd (ss_halts s)))
                        then sat_add_u64 (ss_unrecorded s) 1 else ss_unrecorded s)\<rparr>
               else s);
          s = s\<lparr>ss_halts := ss_halts s @ [r]\<rparr>
      in (r, ss_audit s, a\<lparr>sa_state := s\<rparr>))"

definition stop_record :: "(halt_record \<Rightarrow> halt_audited) \<Rightarrow> halt_area \<Rightarrow> halt_outcome \<Rightarrow> nat option \<Rightarrow> stop_authority \<Rightarrow> halt_audited \<times> stop_authority" where
  "stop_record audit area outcome admitted_at a =
     (case record_locked area outcome admitted_at a of
        (r, attached, a) \<Rightarrow>
          if \<not> durable area then (HdOwnAudit, a)
          else if attached then (audit r, if audit r = HdUnrecorded then count_unrecorded 1 a else a)
          else (HdNoAudit, a))"

text \<open>The locked part of attaching an audit: the backlog it is to be given; \<open>None\<close> when one is attached.\<close>

definition attach_locked :: "stop_authority \<Rightarrow> (halt_record list \<times> stop_authority) option" where
  "attach_locked a =
     (if ss_audit (sa_state a) then None
      else Some (filter (\<lambda>h. durable (hr_area h)) (ss_halts (sa_state a)), a\<lparr>sa_state := (sa_state a)\<lparr>ss_audit := True\<rparr>\<rparr>))"

definition attach_halt_audit :: "(halt_record \<Rightarrow> halt_audited) \<Rightarrow> stop_authority \<Rightarrow> bool \<times> stop_authority" where
  "attach_halt_audit audit a = (case attach_locked a of
     None \<Rightarrow> (False, a)
   | Some (backlog, a) \<Rightarrow>
       let refused = length (filter (\<lambda>h. audit h = HdUnrecorded) backlog)
       in (True, if refused > 0 then count_unrecorded refused a else a))"


section \<open>Child processes\<close>

text \<open>One look at the child: whether it is still owned, what \<open>try_wait\<close> says, the result of a kill by the watcher
  that the slot holds, and whether the watch is halted.\<close>

datatype wait_answer = WaExited nat | WaRunning | WaFailed string

datatype child_end = ChExited nat | ChHalted "string + nat"

record child_poll =
  cp_owned :: bool
  cp_wait :: wait_answer
  cp_killed :: "(string + unit) option"
  cp_halted :: bool

text \<open>Reaping after the kill: each look has the time of the clock; \<open>None\<close> when the looks given do not suffice.\<close>

fun reap_loop :: "string + unit \<Rightarrow> nat \<Rightarrow> (wait_answer \<times> nat) list \<Rightarrow> child_end option" where
  "reap_loop kill deadline [] = None"
| "reap_loop kill deadline ((w, now) # rest) = (case w of
     WaExited status \<Rightarrow> Some (case kill of
         Inr u \<Rightarrow> ChHalted (Inr status) | Inl err \<Rightarrow> ChHalted (Inl (''kill failed: '' @ err)))
   | WaRunning \<Rightarrow> if now < deadline then reap_loop kill deadline rest else Some (ChHalted (Inl ''child was not reaped''))
   | WaFailed err \<Rightarrow> Some (ChHalted (Inl (''reap failed: '' @ err))))"

definition reap_halted :: "child_poll \<Rightarrow> string + unit \<Rightarrow> nat \<Rightarrow> (wait_answer \<times> nat) list \<Rightarrow> child_end option" where
  "reap_halted p kill_answer started reaps =
     (if \<not> cp_owned p then Some (ChHalted (Inl ''the child is no longer owned''))
      else reap_loop (case cp_killed p of Some r \<Rightarrow> r | None \<Rightarrow> kill_answer) (started + CHILD_REAP_BOUND) reaps)"

fun finish_inner :: "string + unit \<Rightarrow> nat \<Rightarrow> (wait_answer \<times> nat) list \<Rightarrow> child_poll list \<Rightarrow> child_end option" where
  "finish_inner kill_answer started reaps [] = None"
| "finish_inner kill_answer started reaps (p # rest) =
     (if \<not> cp_owned p then Some (ChHalted (Inl ''the child is no longer owned''))
      else case cp_wait p of
        WaExited status \<Rightarrow> Some (case cp_killed p of
            Some (Inr u) \<Rightarrow> ChHalted (Inr status)
          | Some (Inl err) \<Rightarrow> ChHalted (Inl (''kill failed: '' @ err))
          | None \<Rightarrow> if cp_halted p then ChHalted (Inr status) else ChExited status)
      | WaRunning \<Rightarrow> if cp_halted p then reap_halted p kill_answer started reaps
          else finish_inner kill_answer started reaps rest
      | WaFailed err \<Rightarrow> Some (ChHalted (Inl (''wait failed: '' @ err))))"

definition child_finish :: "(halt_record \<Rightarrow> halt_audited) \<Rightarrow> halt_area \<Rightarrow> nat \<Rightarrow> child_end \<Rightarrow> stop_authority \<Rightarrow> stop_authority" where
  "child_finish audit area admitted_at e a = (case e of
     ChExited status \<Rightarrow> a
   | ChHalted r \<Rightarrow> snd (stop_record audit area (case r of Inr status \<Rightarrow> HoEnded | Inl err \<Rightarrow> HoCleanupFailed err) (Some admitted_at) a))"

datatype guarded_error = GeStopped | GeSpawn string | GeHalted string | GeIo string

text \<open>A command run to its end: \<open>a\<close> is the authority when the child is spawned, \<open>b\<close> when it has ended.\<close>

definition guarded_output :: "(halt_record \<Rightarrow> halt_audited) \<Rightarrow> halt_area \<Rightarrow> nat \<Rightarrow> string option \<Rightarrow> string option \<Rightarrow> child_end \<Rightarrow> stop_authority \<Rightarrow> stop_authority \<Rightarrow> (guarded_error + nat) \<times> stop_authority" where
  "guarded_output audit area admitted_at spawn_error write_error e a b =
     (if halted a admitted_at then (Inl GeStopped, b)
      else case spawn_error of Some err \<Rightarrow> (Inl (GeSpawn err), b)
      | None \<Rightarrow> ((case e of
          ChExited status \<Rightarrow> (case write_error of Some err \<Rightarrow> Inl (GeIo err) | None \<Rightarrow> Inr status)
        | ChHalted (Inr status) \<Rightarrow> Inl (GeHalted ''terminated and reaped'')
        | ChHalted (Inl err) \<Rightarrow> Inl (GeHalted (''cleanup failed: '' @ err))), child_finish audit area admitted_at e b))"


section \<open>All interleavings\<close>

text \<open>What a thread still has to do after it released the lock: write one halt, write the rest of a backlog and count
  its refusals, or count refusals.\<close>

datatype stop_task = TkWrite halt_record | TkFlush "halt_record list" nat | TkCount nat

record stop_system =
  sy_authority :: stop_authority
  sy_watches :: "nat set"
  sy_controllers :: nat
  sy_tasks :: "stop_task multiset"
  sy_written :: "(halt_record \<times> halt_audited) multiset"
  sy_made :: "halt_record multiset"

definition stop_start :: "stop_authority \<Rightarrow> stop_system" where
  "stop_start a = \<lparr>sy_authority = a, sy_watches = {}, sy_controllers = 0, sy_tasks = {#}, sy_written = {#}, sy_made = {#}\<rparr>"

text \<open>\<open>sy_written\<close> and \<open>sy_made\<close> are the history: the calls the audit got, and the model-call halts recorded.\<close>

inductive stop_step :: "stop_system \<Rightarrow> stop_system \<Rightarrow> bool" where
  engaged: "engage (sy_authority s) = (k, a) \<Longrightarrow> stop_step s (s\<lparr>sy_authority := a\<rparr>)"
| admitted: "stop_admit (sy_authority s) = Some w \<Longrightarrow> stop_step s (s\<lparr>sy_watches := insert w (sy_watches s)\<rparr>)"
| claimed: "claim_controller (sy_authority s) = (got, a) \<or> claim_global_controller (sy_authority s) = (got, a) \<Longrightarrow>
    stop_step s (s\<lparr>sy_authority := a, sy_controllers := sy_controllers s + of_bool got\<rparr>)"
| lifted: "0 < sy_controllers s \<Longrightarrow> lift_if k (sy_authority s) = (ok, a) \<Longrightarrow> stop_step s (s\<lparr>sy_authority := a\<rparr>)"
| recorded: "record_locked area outcome admitted_at (sy_authority s) = (r, attached, a) \<Longrightarrow>
    stop_step s (s\<lparr>sy_authority := a,
      sy_tasks := sy_tasks s + (if durable area \<and> attached then {#TkWrite r#} else {#}),
      sy_made := sy_made s + (if durable area then {#r#} else {#})\<rparr>)"
| attached: "0 < sy_controllers s \<Longrightarrow> attach_locked (sy_authority s) = Some (backlog, a) \<Longrightarrow>
    stop_step s (s\<lparr>sy_authority := a, sy_tasks := sy_tasks s + {#TkFlush backlog 0#}\<rparr>)"
| written: "sy_tasks s = ts + {#TkWrite r#} \<Longrightarrow>
    stop_step s (s\<lparr>sy_tasks := ts + (if ans = HdUnrecorded then {#TkCount 1#} else {#}), sy_written := sy_written s + {#(r, ans)#}\<rparr>)"
| flushed: "sy_tasks s = ts + {#TkFlush (r # rs) k#} \<Longrightarrow>
    stop_step s (s\<lparr>sy_tasks := ts + {#TkFlush rs (k + of_bool (ans = HdUnrecorded))#}, sy_written := sy_written s + {#(r, ans)#}\<rparr>)"
| backlog_done: "sy_tasks s = ts + {#TkFlush [] k#} \<Longrightarrow>
    stop_step s (s\<lparr>sy_tasks := ts + (if 0 < k then {#TkCount k#} else {#})\<rparr>)"
| counted: "sy_tasks s = ts + {#TkCount k#} \<Longrightarrow>
    stop_step s (s\<lparr>sy_tasks := ts, sy_authority := count_unrecorded k (sy_authority s)\<rparr>)"


section \<open>A stop ends what it finds\<close>

lemmas stop_ops = engage_def stop_admit_def claim_controller_def claim_global_controller_def mint_controller_def lift_if_def
  attach_locked_def count_unrecorded_def Let_def

lemma record_locked_state:
  assumes "record_locked area outcome admitted_at a = (r, att, a')"
  shows "ss_number (sa_state a') = ss_number (sa_state a)" "ss_stopped (sa_state a') = ss_stopped (sa_state a)"
    "sa_number_now a' = sa_number_now a" "sa_controlled a' = sa_controlled a" "att = ss_audit (sa_state a)"
    "ss_audit (sa_state a') = ss_audit (sa_state a)" "hr_area r = area"
  using assms by (auto simp: record_locked_def Let_def split: if_split_asm)

definition stop_ok :: "stop_system \<Rightarrow> bool" where
  "stop_ok s \<longleftrightarrow> sa_number_now (sy_authority s) = ss_number (sa_state (sy_authority s))
     \<and> (\<forall>w \<in> sy_watches s. w \<le> ss_number (sa_state (sy_authority s)))
     \<and> sy_controllers s = of_bool (sa_controlled (sy_authority s))
     \<and> ss_number (sa_state (sy_authority s)) \<le> U64_MAX"

lemma stop_ok_start: "stop_ok (stop_start stop_authority_new)" "stop_ok (stop_start stop_authority_global)"
  by (simp_all add: stop_ok_def stop_start_def stop_authority_new_def stop_authority_global_def)

lemma stop_step_ok: "stop_step s t \<Longrightarrow> stop_ok s \<Longrightarrow> stop_ok t"
  by (induction rule: stop_step.induct)
    (auto simp: stop_ok_def stop_ops sat_add_u64_def record_locked_state split: if_split_asm)

lemma stop_step_mono:
  "stop_step s t \<Longrightarrow> stop_ok s \<Longrightarrow> ss_number (sa_state (sy_authority s)) \<le> ss_number (sa_state (sy_authority t)) \<and> sy_watches s \<subseteq> sy_watches t"
  by (induction rule: stop_step.induct)
    (auto simp: stop_ok_def stop_ops sat_add_u64_def record_locked_state split: if_split_asm)

interpretation stop_runs: step_invariant stop_step stop_ok
    "\<lambda>s t. ss_number (sa_state (sy_authority s)) \<le> ss_number (sa_state (sy_authority t)) \<and> sy_watches s \<subseteq> sy_watches t"
  by unfold_locales (use stop_step_ok stop_step_mono in auto)

text \<open>C9: an emergency stop ends all admitted work for good and only its controller lifts it. In every interleaving
  of calls from a fresh authority, the work admitted before a stop is halted after it in both views (under the
  lock and by the published number), also after the stop is lifted; while a stop is in force nothing is admitted;
  a step that ends it is a lift by the one controller, of exactly that stop. (The stop number saturates, so
  this is stated below its maximum.)\<close>

theorem stop_ends_work:
  assumes "a0 \<in> {stop_authority_new, stop_authority_global}" "stop_step\<^sup>*\<^sup>* (stop_start a0) s"
    and "engage (sy_authority s) = (k, a)" "ss_number (sa_state (sy_authority s)) < U64_MAX"
    and "stop_step\<^sup>*\<^sup>* (s\<lparr>sy_authority := a\<rparr>) t" "stop_step t u"
  shows "(\<forall>w \<in> sy_watches s. halted (sy_authority t) w \<and> halted_now (sy_authority t) w)
    \<and> (ss_stopped (sa_state (sy_authority t)) \<longrightarrow> stop_admit (sy_authority t) = None \<and> sy_watches u = sy_watches t
        \<and> (\<not> ss_stopped (sa_state (sy_authority u)) \<longrightarrow> sy_controllers t = 1
            \<and> lift_if (ss_number (sa_state (sy_authority t))) (sy_authority t) = (True, sy_authority u)))
    \<and> sy_controllers t \<le> 1 \<and> k = ss_number (sa_state (sy_authority s)) + 1"
proof -
  have ok: "stop_ok s" using stop_runs.run [OF assms(2)] stop_ok_start assms(1) by auto
  have step: "stop_step s (s\<lparr>sy_authority := a\<rparr>)" using stop_step.engaged [OF assms(3)] .
  note ok1 = stop_step_ok [OF step ok]
  note t = stop_runs.run [OF assms(5) ok1]
  have n: "ss_number (sa_state a) = ss_number (sa_state (sy_authority s)) + 1" "k = ss_number (sa_state a)"
    using assms(3,4) by (auto simp: engage_def Let_def sat_add_u64_def)
  have "ss_stopped (sa_state (sy_authority t)) \<longrightarrow> sy_watches u = sy_watches t
        \<and> (\<not> ss_stopped (sa_state (sy_authority u)) \<longrightarrow> sy_controllers t = 1
            \<and> lift_if (ss_number (sa_state (sy_authority t))) (sy_authority t) = (True, sy_authority u))"
    using assms(6) conjunct1 [OF t]
    by (cases rule: stop_step.cases) (auto simp: stop_ok_def stop_ops record_locked_state split: if_split_asm)
  moreover have "sy_controllers t \<le> 1" using t by (simp add: stop_ok_def)
  moreover have "halted (sy_authority t) w \<and> halted_now (sy_authority t) w" if "w \<in> sy_watches s" for w
    using that ok t n by (auto simp: stop_ok_def halted_def halted_now_def)
  ultimately show ?thesis using n by (simp add: stop_admit_def)
qed

text \<open>Work is admitted, a stop comes and is lifted; the work stays halted.\<close>

theorem stop_ends_work_witness:
  "\<exists>t :: stop_system. 0 \<in> sy_watches t \<and> \<not> ss_stopped (sa_state (sy_authority t)) \<and> halted (sy_authority t) 0 \<and> stop_admit (sy_authority t) = Some 1"
proof -
  let ?n = "stop_authority_new"
  let ?c = "?n\<lparr>sa_controlled := True\<rparr>"
  let ?s1 = "(stop_start ?n)\<lparr>sy_authority := ?c, sy_controllers := 1\<rparr>"
  let ?s = "?s1\<lparr>sy_watches := {0}\<rparr>"
  let ?a = "snd (engage ?c)"
  let ?b = "snd (lift_if 1 ?a)"
  let ?t = "?s\<lparr>sy_authority := ?b\<rparr>"
  have e: "engage (sy_authority ?s) = (1, ?a)" by (simp add: stop_ops stop_authority_new_def sat_add_u64_def U64_MAX_def)
  have "stop_step (stop_start ?n) ?s1"
    using stop_step.claimed [of "stop_start ?n" True ?c] by (simp add: stop_ops stop_start_def stop_authority_new_def)
  moreover have "stop_step ?s1 ?s"
    using stop_step.admitted [of ?s1 0] by (simp add: stop_ops stop_start_def stop_authority_new_def)
  ultimately have r: "stop_step\<^sup>*\<^sup>* (stop_start ?n) ?s" by (meson converse_rtranclp_into_rtranclp rtranclp.rtrancl_refl)
  have l: "lift_if 1 ?a = (True, ?b)" by (simp add: stop_ops stop_authority_new_def sat_add_u64_def U64_MAX_def)
  have t: "stop_step\<^sup>*\<^sup>* (?s\<lparr>sy_authority := ?a\<rparr>) ?t"
    using stop_step.lifted [of "?s\<lparr>sy_authority := ?a\<rparr>" 1 True ?b] l by (simp add: r_into_rtranclp)
  have adm: "stop_admit (sy_authority ?t) = Some 1" by (simp add: stop_ops stop_authority_new_def sat_add_u64_def U64_MAX_def)
  note step = stop_step.admitted [OF adm]
  have "halted (sy_authority ?t) 0"
    using stop_ends_work [OF _ r e _ t step] by (simp add: stop_authority_new_def U64_MAX_def)
  then show ?thesis using adm by (intro exI [of _ ?t]) (simp add: stop_admit_def split: if_split_asm)
qed


section \<open>No halt of a model call is written twice or lost unseen\<close>

primrec task_halts :: "stop_task \<Rightarrow> halt_record multiset" where
  "task_halts (TkWrite r) = {#r#}"
| "task_halts (TkFlush rs k) = mset rs"
| "task_halts (TkCount k) = {#}"

primrec task_refusals :: "stop_task \<Rightarrow> nat" where
  "task_refusals (TkWrite r) = 0"
| "task_refusals (TkFlush rs k) = k"
| "task_refusals (TkCount k) = k"

definition in_flight :: "stop_system \<Rightarrow> halt_record multiset" where
  "in_flight s = \<Sum>\<^sub># (image_mset task_halts (sy_tasks s))"

definition uncounted :: "stop_system \<Rightarrow> nat" where
  "uncounted s = \<Sum>\<^sub># (image_mset task_refusals (sy_tasks s))"

definition waiting_halts :: "stop_system \<Rightarrow> halt_record multiset" where
  "waiting_halts s = (if ss_audit (sa_state (sy_authority s)) then {#}
     else filter_mset (\<lambda>h. durable (hr_area h)) (mset (ss_halts (sa_state (sy_authority s)))))"

definition refused_halts :: "stop_system \<Rightarrow> nat" where
  "refused_halts s = size (filter_mset (\<lambda>x. snd x = HdUnrecorded) (sy_written s))"

definition halts_accounted :: "stop_system \<Rightarrow> halt_record multiset \<Rightarrow> bool" where
  "halts_accounted s lost \<longleftrightarrow> sy_made s = image_mset fst (sy_written s) + in_flight s + waiting_halts s + lost
     \<and> uncounted s \<le> size lost + refused_halts s
     \<and> ss_unrecorded (sa_state (sy_authority s)) = min (size lost + refused_halts s - uncounted s) U64_MAX
     \<and> length (ss_halts (sa_state (sy_authority s))) \<le> HALT_LOG_CAPACITY"

lemmas accounting = halts_accounted_def in_flight_def uncounted_def waiting_halts_def refused_halts_def

lemma sat_again: "min (min x M + n) M = min (x + n) (M :: nat)" "min (Suc (min x M)) M = min (Suc x) M"
  by simp_all

lemma record_accounted:
  assumes "halts_accounted s lost" "record_locked area outcome admitted_at (sy_authority s) = (r, att, a)"
  shows "\<exists>lost'. halts_accounted (s\<lparr>sy_authority := a,
      sy_tasks := sy_tasks s + (if durable area \<and> att then {#TkWrite r#} else {#}),
      sy_made := sy_made s + (if durable area then {#r#} else {#})\<rparr>) lost'"
proof -
  let ?s = "sa_state (sy_authority s)"
  let ?full = "length (ss_halts ?s) = HALT_LOG_CAPACITY"
  let ?drop = "?full \<and> \<not> ss_audit ?s \<and> durable (hr_area (hd (ss_halts ?s)))"
  have r: "hr_area r = area" "att = ss_audit ?s" "ss_audit (sa_state a) = ss_audit ?s"
    using record_locked_state [OF assms(2)] by auto
  have a: "ss_halts (sa_state a) = (if ?full then tl (ss_halts ?s) else ss_halts ?s) @ [r]"
      "ss_unrecorded (sa_state a) = (if ?drop then sat_add_u64 (ss_unrecorded ?s) 1 else ss_unrecorded ?s)"
    using assms(2) by (auto simp: record_locked_def Let_def split: if_split_asm)
  have ne: "?full \<Longrightarrow> ss_halts ?s = hd (ss_halts ?s) # tl (ss_halts ?s)"
    by (cases "ss_halts ?s") (auto simp: HALT_LOG_CAPACITY_def)
  show ?thesis
  proof (cases ?full)
    case False
    then show ?thesis using assms(1) r a by (intro exI [of _ lost]) (auto simp: accounting)
  next
    case True
    obtain h hs where hs: "ss_halts ?s = h # hs" using ne [OF True] by blast
    show ?thesis using assms(1) r a True hs
      by (intro exI [of _ "if ?drop then add_mset h lost else lost"]) (auto simp: accounting sat_add_u64_def Suc_diff_le sat_again)
  qed
qed

lemma stop_step_accounted: "stop_step s t \<Longrightarrow> halts_accounted s lost \<Longrightarrow> \<exists>lost'. halts_accounted t lost'"
proof (induction rule: stop_step.induct)
  case (recorded area outcome admitted_at s r att a)
  then show ?case by (rule record_accounted [rotated])
next
  case (attached s backlog a)
  then show ?case by (intro exI [of _ lost]) (auto simp: accounting stop_ops split: if_split_asm)
next
  case (counted s ts k)
  then show ?case by (intro exI [of _ lost]) (auto simp: accounting stop_ops sat_add_u64_def sat_again)
next
  case (written s ts r ans)
  then show ?case by (intro exI [of _ lost]) (auto simp: accounting)
next
  case (flushed s ts r rs k ans)
  then show ?case by (intro exI [of _ lost]) (auto simp: accounting)
next
  case (backlog_done s ts k)
  then show ?case by (intro exI [of _ lost]) (auto simp: accounting)
qed (auto simp: accounting stop_ops split: if_split_asm)

interpretation halt_runs: step_invariant stop_step "\<lambda>s. \<exists>lost. halts_accounted s lost" "\<lambda>s t. True"
  by unfold_locales (use stop_step_accounted in blast)+

text \<open>C13: a model call's halt is written to the audit once, whatever threads do. In every interleaving the halts
  recorded so far are, as a multiset, those handed to the audit, those a thread is about to hand to it, those that wait
  in the log for an audit to be attached, and those that fell out of the full log before that. When no
  thread is in between, the count of unrecorded halts is that of the lost ones and of those the audit
  refused, up to its saturation; and the log stays within its capacity.\<close>

theorem halts_written_once:
  assumes "a0 \<in> {stop_authority_new, stop_authority_global}" "stop_step\<^sup>*\<^sup>* (stop_start a0) s"
  shows "\<exists>lost. sy_made s = image_mset fst (sy_written s) + in_flight s + waiting_halts s + lost
    \<and> (sy_tasks s = {#} \<longrightarrow> in_flight s = {#} \<and> ss_unrecorded (sa_state (sy_authority s)) = min (size lost + refused_halts s) U64_MAX)
    \<and> length (ss_halts (sa_state (sy_authority s))) \<le> HALT_LOG_CAPACITY"
proof -
  have "halts_accounted (stop_start a0) {#}"
    using assms(1) by (auto simp: accounting stop_start_def stop_authority_new_def stop_authority_global_def)
  with halt_runs.run [OF assms(2)] obtain lost where "halts_accounted s lost" by blast
  then show ?thesis by (auto simp: halts_accounted_def in_flight_def uncounted_def)
qed

theorem halts_written_once_witness:
  "\<exists>s. stop_step\<^sup>*\<^sup>* (stop_start stop_authority_new) s \<and> size (sy_made s) = 1 \<and> sy_tasks s = {#} \<and> in_flight s = {#}"
proof -
  obtain r att a where a: "record_locked HaModelCall HoEnded None (sy_authority (stop_start stop_authority_new)) = (r, att, a)"
    by (metis prod_cases3)
  then have att: "\<not> att" using record_locked_state(5) [OF a] by (simp add: stop_start_def stop_authority_new_def)
  let ?s = "(stop_start stop_authority_new)\<lparr>sy_authority := a, sy_tasks := {#}, sy_made := {#r#}\<rparr>"
  have "stop_step\<^sup>*\<^sup>* (stop_start stop_authority_new) ?s"
    using stop_step.recorded [OF a] att by (simp add: durable_def stop_start_def r_into_rtranclp)
  then show ?thesis using halts_written_once [of stop_authority_new ?s] by (intro exI [of _ ?s]) auto
qed


section \<open>A halted child is never a success\<close>

lemma finish_exited:
  "finish_inner kill_answer started reaps polls = Some (ChExited status) \<Longrightarrow>
     \<exists>ps p rest. polls = ps @ p # rest \<and> cp_wait p = WaExited status \<and> cp_killed p = None \<and> \<not> cp_halted p
       \<and> (\<forall>q \<in> set ps. cp_wait q = WaRunning \<and> \<not> cp_halted q)"
proof (induction kill_answer started reaps polls rule: finish_inner.induct)
  case (2 kill_answer started reaps p rest)
  have no: "reap_halted p kill_answer started reaps \<noteq> Some (ChExited status)"
  proof -
    have "reap_loop k d xs \<noteq> Some (ChExited status)" for k d xs
      by (induction k d xs rule: reap_loop.induct) (auto split: wait_answer.split sum.split)
    then show ?thesis by (simp add: reap_halted_def)
  qed
  show ?case
  proof (cases "cp_wait p = WaRunning \<and> \<not> cp_halted p \<and> cp_owned p")
    case True
    then obtain ps q tail where "rest = ps @ q # tail" "cp_wait q = WaExited status" "cp_killed q = None" "\<not> cp_halted q"
        "\<forall>q \<in> set ps. cp_wait q = WaRunning \<and> \<not> cp_halted q"
      using 2 by auto
    then have "p # rest = (p # ps) @ q # tail \<and> cp_wait q = WaExited status \<and> cp_killed q = None \<and> \<not> cp_halted q
        \<and> (\<forall>q \<in> set (p # ps). cp_wait q = WaRunning \<and> \<not> cp_halted q)"
      using True by simp
    then show ?thesis by blast
  next
    case False
    then have "p # rest = [] @ p # rest \<and> cp_wait p = WaExited status \<and> cp_killed p = None \<and> \<not> cp_halted p
        \<and> (\<forall>q \<in> set []. cp_wait q = WaRunning \<and> \<not> cp_halted q)"
      using 2(2) no by (auto split: wait_answer.split_asm option.split_asm sum.split_asm if_split_asm)
    then show ?thesis by blast
  qed
qed simp

text \<open>The waiting ends: a look at the child that does not find it running unhalted, and in reaping one at the deadline.\<close>

lemma reap_returns: "(w, now) \<in> set reaps \<Longrightarrow> deadline \<le> now \<Longrightarrow> reap_loop k deadline reaps \<noteq> None"
  by (induction k deadline reaps rule: reap_loop.induct) (auto split: wait_answer.split)

lemma finish_returns:
  assumes "p \<in> set polls" "\<not> cp_owned p \<or> cp_wait p \<noteq> WaRunning \<or> cp_halted p"
    and "(w, now) \<in> set reaps" "started + CHILD_REAP_BOUND \<le> now"
  shows "finish_inner kill_answer started reaps polls \<noteq> None"
  using assms reap_returns [OF assms(3,4)]
  by (induction kill_answer started reaps polls rule: finish_inner.induct)
    (auto simp: reap_halted_def split: wait_answer.split)

lemma stop_record_log:
  "\<exists>log. ss_halts (sa_state (snd (stop_record audit area outcome (Some w) b))) = log @
     [\<lparr>hr_area = area, hr_stop_number = (if halted b w then sat_add_u64 w 1 else w), hr_outcome = outcome\<rparr>]"
  by (auto simp: stop_record_def record_locked_def count_unrecorded_def halted_def Let_def)

text \<open>C37: a child that a stop ended is never reported as a success, and is logged under the stop that ended it. When
  the output of a guarded command is returned, the child exited by itself: up to the look that saw its exit
  the watch was not halted and nobody had killed it. Otherwise, when the end was a halt, the caller gets the
  refusal, and the halt log ends with the record of this area, with the first stop after the admission
  as its number, telling whether the child is known to be reaped. And the wait for the child ends, once a look
  does not find it running unhalted, within the bound for reaping.\<close>

theorem halted_child_reported:
  assumes "finish_inner kill_answer started reaps polls = Some e"
    and "guarded_output audit area w None write_error e a b = (r, b')" "\<not> halted a w"
  shows "(\<forall>status. r = Inr status \<longrightarrow> (\<exists>ps p rest. polls = ps @ p # rest \<and> cp_wait p = WaExited status \<and> cp_killed p = None
        \<and> \<not> cp_halted p \<and> (\<forall>q \<in> set ps. cp_wait q = WaRunning \<and> \<not> cp_halted q)))
    \<and> (\<forall>x. e = ChHalted x \<longrightarrow> (\<exists>text. r = Inl (GeHalted text)) \<and> (\<exists>log h. ss_halts (sa_state b') = log @ [h]
        \<and> hr_area h = area \<and> hr_stop_number h = (if halted b w then sat_add_u64 w 1 else w) \<and> (hr_outcome h = HoEnded \<longleftrightarrow> (\<exists>st. x = Inr st))))
    \<and> (\<forall>p look now kill start looks. p \<in> set polls \<and> (\<not> cp_owned p \<or> cp_wait p \<noteq> WaRunning \<or> cp_halted p)
        \<and> (look, now) \<in> set looks \<and> start + CHILD_REAP_BOUND \<le> now \<longrightarrow> finish_inner kill start looks polls \<noteq> None)"
proof (intro conjI allI impI)
  fix status assume "r = Inr status"
  then have "e = ChExited status"
    using assms(2,3) by (auto simp: guarded_output_def split: child_end.split_asm option.split_asm sum.split_asm)
  then show "\<exists>ps p rest. polls = ps @ p # rest \<and> cp_wait p = WaExited status \<and> cp_killed p = None
        \<and> \<not> cp_halted p \<and> (\<forall>q \<in> set ps. cp_wait q = WaRunning \<and> \<not> cp_halted q)"
    using finish_exited assms(1) by blast
next
  fix x assume x: "e = ChHalted x"
  then show "\<exists>text. r = Inl (GeHalted text)" using assms(2,3) by (auto simp: guarded_output_def split: sum.split_asm)
  let ?o = "case x of Inr status \<Rightarrow> HoEnded | Inl err \<Rightarrow> HoCleanupFailed err"
  have "b' = snd (stop_record audit area ?o (Some w) b)"
    using assms(2,3) x by (auto simp: guarded_output_def child_finish_def)
  then obtain log where "ss_halts (sa_state b') = log @ [\<lparr>hr_area = area, hr_stop_number = (if halted b w then sat_add_u64 w 1 else w), hr_outcome = ?o\<rparr>]"
    using stop_record_log by blast
  then show "\<exists>log h. ss_halts (sa_state b') = log @ [h] \<and> hr_area h = area \<and> hr_stop_number h = (if halted b w then sat_add_u64 w 1 else w)
      \<and> (hr_outcome h = HoEnded \<longleftrightarrow> (\<exists>st. x = Inr st))"
    by (auto split: sum.split)
next
  fix p look now kill start and looks :: "(wait_answer \<times> nat) list"
  assume "p \<in> set polls \<and> (\<not> cp_owned p \<or> cp_wait p \<noteq> WaRunning \<or> cp_halted p)
        \<and> (look, now) \<in> set looks \<and> start + CHILD_REAP_BOUND \<le> now"
  then show "finish_inner kill start looks polls \<noteq> None" using finish_returns by blast
qed

theorem halted_child_reported_witness:
  "\<exists>b'. guarded_output (\<lambda>h. HdRecorded) HaModelCall 0 None None (ChHalted (Inr 9)) stop_authority_new (snd (engage stop_authority_new))
     = (Inl (GeHalted ''terminated and reaped''), b') \<and> (\<exists>log h. ss_halts (sa_state b') = log @ [h] \<and> hr_stop_number h = 1)"
proof -
  let ?p = "\<lparr>cp_owned = True, cp_wait = WaRunning, cp_killed = None, cp_halted = True\<rparr>"
  let ?b = "snd (engage stop_authority_new)"
  have f: "finish_inner (Inr ()) 0 [(WaExited 9, 1)] [?p\<lparr>cp_halted := False\<rparr>, ?p] = Some (ChHalted (Inr 9))"
    by (simp add: reap_halted_def)
  obtain r b' where g: "guarded_output (\<lambda>h. HdRecorded) HaModelCall 0 None None (ChHalted (Inr 9)) stop_authority_new ?b = (r, b')"
    by (metis prod.collapse)
  have n: "\<not> halted stop_authority_new 0" "halted ?b 0"
    by (simp_all add: halted_def engage_def stop_authority_new_def Let_def sat_add_u64_def U64_MAX_def)
  have "\<exists>log h. ss_halts (sa_state b') = log @ [h] \<and> hr_stop_number h = 1"
    using halted_child_reported [OF f g n(1)] n(2) by (auto simp: sat_add_u64_def U64_MAX_def)
  moreover have "r = Inl (GeHalted ''terminated and reaped'')" using g n(1) by (auto simp: guarded_output_def)
  ultimately show ?thesis using g by blast
qed

end
