(* ===== verification/Kernel_Merkle.thy ===== *)
theory Kernel_Merkle
  imports Nexus_Prelude
begin

text \<open>The Merkle summaries of archived audit segments: hex, roots, inclusion proofs and their check
  (\<^verbatim>\<open>src/kernel/src/audit/retention.rs\<close>). SHA-256 is the parameter \<open>H\<close>, on byte strings.\<close>


section \<open>Hex\<close>

definition hex_char :: "nat \<Rightarrow> char" where
  "hex_char d = (if d < 10 then char_of (48 + d) else char_of (87 + d))"

text \<open>\<open>hex::encode\<close>: two lower-case digits for each byte.\<close>

definition hex_encode :: "string \<Rightarrow> string" where
  "hex_encode bytes = concat (map (\<lambda>b. [hex_char (of_char b div 16), hex_char (of_char b mod 16)]) bytes)"

definition hex_value :: "char \<Rightarrow> nat option" where
  "hex_value c = (let n = (of_char c :: nat) in
     if 48 \<le> n \<and> n \<le> 57 then Some (n - 48)
     else if 97 \<le> n \<and> n \<le> 102 then Some (n - 87)
     else if 65 \<le> n \<and> n \<le> 70 then Some (n - 55)
     else None)"

text \<open>\<open>u8::from_str_radix\<close> of two characters in base 16, which also takes a plus sign and one digit.\<close>

definition hex_pair :: "char \<Rightarrow> char \<Rightarrow> char option" where
  "hex_pair a b = (case hex_value b of
     None \<Rightarrow> None
   | Some lo \<Rightarrow> if a = CHR ''+'' then Some (char_of lo)
       else (case hex_value a of None \<Rightarrow> None | Some hi \<Rightarrow> Some (char_of (16 * hi + lo))))"

fun hex_decode :: "string \<Rightarrow> string option" where
  "hex_decode [] = Some []"
| "hex_decode [a] = None"
| "hex_decode (a # b # rest) = (case hex_pair a b of
     None \<Rightarrow> None
   | Some c \<Rightarrow> map_option (\<lambda>cs. c # cs) (hex_decode rest))"

definition hex_to_bytes :: "(string \<Rightarrow> string) \<Rightarrow> string \<Rightarrow> string" where
  "hex_to_bytes H s = (case hex_decode s of Some bytes \<Rightarrow> bytes | None \<Rightarrow> H s)"


section \<open>Roots\<close>

text \<open>One level: the hash of each pair, the last node paired with itself.\<close>

fun next_level :: "(string \<Rightarrow> string) \<Rightarrow> string list \<Rightarrow> string list" where
  "next_level H [] = []"
| "next_level H [x] = [H (x @ x)]"
| "next_level H (x # y # rest) = H (x @ y) # next_level H rest"

lemma length_next_level [simp]: "length (next_level H xs) = (length xs + 1) div 2"
  by (induction H xs rule: next_level.induct) auto

function root_loop :: "(string \<Rightarrow> string) \<Rightarrow> string list \<Rightarrow> string list" where
  "root_loop H level = (if length level \<le> 1 then level else root_loop H (next_level H level))"
  by auto
termination by (relation "measure (\<lambda>(H, level). length level)") auto

declare root_loop.simps [simp del]

definition merkle_root :: "(string \<Rightarrow> string) \<Rightarrow> string list \<Rightarrow> string option" where
  "merkle_root H event_hashes = (case root_loop H (map (hex_to_bytes H) event_hashes) of
     [] \<Rightarrow> None | node # rest \<Rightarrow> Some (hex_encode node))"


section \<open>Inclusion proofs\<close>

record merkle_proof_node =
  mp_hash :: string
  mp_is_left_sibling :: bool

definition pad_even :: "string list \<Rightarrow> string list" where
  "pad_even level = (if even (length level) then level else level @ [last level])"

fun pair_hashes :: "(string \<Rightarrow> string) \<Rightarrow> string list \<Rightarrow> string list" where
  "pair_hashes H (x # y # rest) = H (x @ y) # pair_hashes H rest"
| "pair_hashes H xs = []"

lemma length_pair_hashes [simp]: "length (pair_hashes H xs) = length xs div 2"
  by (induction H xs rule: pair_hashes.induct) auto

lemma length_pad_even: "length (pad_even xs) = (length xs + 1) div 2 * 2"
  by (auto simp: pad_even_def elim!: evenE oddE)

function proof_loop :: "(string \<Rightarrow> string) \<Rightarrow> string list \<Rightarrow> nat \<Rightarrow> merkle_proof_node list" where
  "proof_loop H level idx = (if length level \<le> 1 then [] else
     (let level = pad_even level;
          sibling_idx = (if even idx then idx + 1 else idx - 1)
      in \<lparr>mp_hash = hex_encode (level ! sibling_idx), mp_is_left_sibling = odd idx\<rparr>
         # proof_loop H (pair_hashes H level) (idx div 2)))"
  by auto
termination by (relation "measure (\<lambda>(H, level, idx). length level)") (auto simp: length_pad_even)

declare proof_loop.simps [simp del]

definition merkle_proof :: "(string \<Rightarrow> string) \<Rightarrow> string list \<Rightarrow> nat \<Rightarrow> merkle_proof_node list option" where
  "merkle_proof H event_hashes index =
     (if length event_hashes \<le> index \<or> event_hashes = [] then None
      else Some (proof_loop H (map (hex_to_bytes H) event_hashes) index))"

definition proof_step :: "(string \<Rightarrow> string) \<Rightarrow> merkle_proof_node \<Rightarrow> string \<Rightarrow> string" where
  "proof_step H node current = (let sibling = hex_to_bytes H (mp_hash node) in
     if mp_is_left_sibling node then H (sibling @ current) else H (current @ sibling))"

definition verify_merkle_proof :: "(string \<Rightarrow> string) \<Rightarrow> string \<Rightarrow> merkle_proof_node list \<Rightarrow> string \<Rightarrow> bool" where
  "verify_merkle_proof H leaf_hash nodes expected_root \<longleftrightarrow>
     hex_encode (fold (proof_step H) nodes (hex_to_bytes H leaf_hash)) = expected_root"


section \<open>What the summaries promise\<close>

lemma hex_value_char: "d < 16 \<Longrightarrow> hex_value (hex_char d) = Some d"
  by (auto simp: hex_value_def hex_char_def Let_def)

lemma hex_char_plus: "d < 16 \<Longrightarrow> hex_char d \<noteq> CHR ''+''"
proof -
  assume "d < 16"
  then have "hex_value (hex_char d) = Some d" by (rule hex_value_char)
  moreover have "hex_value (CHR ''+'') = None" by (simp add: hex_value_def)
  ultimately show ?thesis by auto
qed

lemma hex_pair_char: "hex_pair (hex_char (of_char b div 16)) (hex_char (of_char b mod 16)) = Some b"
proof -
  have d: "(of_char b :: nat) div 16 < 16" "(of_char b :: nat) mod 16 < 16" "(of_char b :: nat) < 256"
    using nat_of_char_less_256 [of b] by (simp_all add: div_less_iff_less_mult)
  then show ?thesis
    by (simp add: hex_pair_def hex_value_char hex_char_plus)
qed

lemma hex_round_trip [simp]: "hex_decode (hex_encode bytes) = Some bytes" "hex_to_bytes H (hex_encode bytes) = bytes"
proof -
  show "hex_decode (hex_encode bytes) = Some bytes"
    by (induction bytes) (simp_all add: hex_encode_def hex_pair_char)
  then show "hex_to_bytes H (hex_encode bytes) = bytes" by (simp add: hex_to_bytes_def)
qed

lemma hex_encode_inj: "hex_encode xs = hex_encode ys \<Longrightarrow> xs = ys"
  by (metis hex_round_trip(1) option.inject)

lemma pair_hashes_pad: "pair_hashes H (pad_even xs) = next_level H xs"
  by (induction H xs rule: next_level.induct) (auto simp: pad_even_def)

lemma next_level_nth:
  "i < length xs \<Longrightarrow> next_level H xs ! (i div 2) =
     H (pad_even xs ! (2 * (i div 2)) @ pad_even xs ! (2 * (i div 2) + 1))"
proof (induction H xs arbitrary: i rule: next_level.induct)
  case (3 H x y rest)
  show ?case
  proof (cases "i < 2")
    case True
    then show ?thesis by (simp add: pad_even_def)
  next
    case False
    then obtain j where "i = j + 2" using le_Suc_ex [of 2 i] by (auto simp: add.commute)
    moreover have "pad_even (x # y # rest) = x # y # pad_even rest" if "rest \<noteq> []" using that by (simp add: pad_even_def)
    ultimately show ?thesis using 3 by (cases rest) auto
  qed
qed (auto simp: pad_even_def)

lemma proof_complete:
  "idx < length level \<Longrightarrow> root_loop H level = [fold (proof_step H) (proof_loop H level idx) (level ! idx)]"
proof (induction H level idx rule: proof_loop.induct)
  case (1 H level idx)
  show ?case
  proof (cases "length level \<le> 1")
    case True
    with 1(2) obtain x where "level = [x]" "idx = 0" by (cases level) auto
    then show ?thesis by (simp add: root_loop.simps proof_loop.simps)
  next
    case False
    let ?p = "pad_even level" and ?s = "if even idx then idx + 1 else idx - 1"
    have half: "idx div 2 < length (next_level H level)" using 1(2) by simp
    have padded: "?p ! idx = level ! idx" using 1(2) by (simp add: pad_even_def nth_append)
    have "next_level H level ! (idx div 2) = proof_step H \<lparr>mp_hash = hex_encode (?p ! ?s), mp_is_left_sibling = odd idx\<rparr> (level ! idx)"
    proof (cases "even idx")
      case True
      then have "2 * (idx div 2) = idx" by simp
      then show ?thesis using True next_level_nth [OF 1(2), of H] padded by (simp add: proof_step_def)
    next
      case odd: False
      then have "2 * (idx div 2) + 1 = idx" "2 * (idx div 2) = idx - 1" by presburger+
      then show ?thesis using odd next_level_nth [OF 1(2), of H] padded by (simp add: proof_step_def)
    qed
    then show ?thesis
      using 1(1) [OF False refl refl] half False
      by (subst root_loop.simps, subst proof_loop.simps) (simp add: pair_hashes_pad Let_def)
  qed
qed

lemma proof_loop_length:
  "level \<noteq> [] \<Longrightarrow> length level \<le> 2 ^ length (proof_loop H level idx)
     \<and> (proof_loop H level idx = [] \<or> 2 ^ (length (proof_loop H level idx) - 1) < length level)"
proof (induction H level idx rule: proof_loop.induct)
  case (1 H level idx)
  show ?case
  proof (cases "length level \<le> 1")
    case True
    then show ?thesis by (simp add: proof_loop.simps)
  next
    case False
    let ?next = "pair_hashes H (pad_even level)"
    let ?rest = "proof_loop H ?next (idx div 2)"
    have len: "length ?next = (length level + 1) div 2" by (simp add: length_pad_even)
    then have "?next \<noteq> []" using False by (cases ?next) auto
    with 1(1) [OF False refl refl] have ih: "length ?next \<le> 2 ^ length ?rest"
        "?rest = [] \<or> 2 ^ (length ?rest - 1) < length ?next"
      by simp_all
    have n: "length (proof_loop H level idx) = Suc (length ?rest)"
      using False by (subst proof_loop.simps) (simp add: Let_def)
    have up: "length level \<le> 2 ^ Suc (length ?rest)" using ih(1) len by simp
    have "2 ^ length ?rest < length level"
    proof (cases "length ?rest")
      case 0
      then show ?thesis using False by simp
    next
      case (Suc k)
      then have "2 ^ k < (length level + 1) div 2" using ih(2) len by auto
      then have "2 ^ k + 1 \<le> (length level + 1) div 2" by simp
      then have "(2 ^ k + 1) * 2 \<le> length level + 1" by (simp add: less_eq_div_iff_mult_less_eq)
      then show ?thesis using Suc by simp
    qed
    then show ?thesis using up n by auto
  qed
qed

lemma proof_loop_least:
  assumes "level \<noteq> []"
  shows "length (proof_loop H level idx) = (LEAST k. length level \<le> 2 ^ k)"
proof (rule Least_equality [symmetric])
  let ?n = "length (proof_loop H level idx)"
  show "length level \<le> 2 ^ ?n" using proof_loop_length [OF assms] by blast
  fix k assume k: "length level \<le> 2 ^ k"
  show "?n \<le> k"
  proof (rule ccontr)
    assume "\<not> ?n \<le> k"
    then have "k \<le> ?n - 1" "proof_loop H level idx \<noteq> []" by auto
    moreover from this have "2 ^ (?n - 1) < length level" using proof_loop_length [OF assms] by blast
    moreover have "(2::nat) ^ k \<le> 2 ^ (?n - 1)" using calculation(1) by (intro power_increasing) auto
    ultimately show False using k by linarith
  qed
qed

text \<open>C29: inclusion proofs end, are short and verify. For every segment and every index of it the loop
  over the levels stops with a proof, whose number of nodes is the number of halvings of the segment:
  2 to that number reaches the segment's size and no smaller number does. The check accepts the proof
  for that event's hash against the segment's root, at every segment length, odd levels included; and
  an index outside the segment has no proof.\<close>

theorem merkle_proof_complete:
  "(index < length event_hashes \<longrightarrow> (\<exists>nodes root. merkle_proof H event_hashes index = Some nodes
      \<and> length nodes = (LEAST k. length event_hashes \<le> 2 ^ k)
      \<and> merkle_root H event_hashes = Some root \<and> verify_merkle_proof H (event_hashes ! index) nodes root))
   \<and> (length event_hashes \<le> index \<longrightarrow> merkle_proof H event_hashes index = None)"
proof -
  let ?level = "map (hex_to_bytes H) event_hashes"
  have "\<exists>nodes root. merkle_proof H event_hashes index = Some nodes
      \<and> length nodes = (LEAST k. length event_hashes \<le> 2 ^ k)
      \<and> merkle_root H event_hashes = Some root \<and> verify_merkle_proof H (event_hashes ! index) nodes root"
    if i: "index < length event_hashes"
  proof -
    have "root_loop H ?level = [fold (proof_step H) (proof_loop H ?level index) (?level ! index)]"
      using proof_complete [of index ?level H] i by simp
    moreover have "length (proof_loop H ?level index) = (LEAST k. length event_hashes \<le> 2 ^ k)"
      using proof_loop_least [of ?level H index] i by (cases event_hashes) simp_all
    ultimately show ?thesis using i by (auto simp: merkle_proof_def merkle_root_def verify_merkle_proof_def)
  qed
  then show ?thesis by (simp add: merkle_proof_def)
qed

theorem merkle_proof_complete_witness:
  "\<exists>nodes root. merkle_proof (\<lambda>s. s) [''61'', ''62'', ''63''] 2 = Some nodes
     \<and> merkle_root (\<lambda>s. s) [''61'', ''62'', ''63''] = Some root
     \<and> verify_merkle_proof (\<lambda>s. s) ''63'' nodes root \<and> length nodes = 2"
proof -
  have "length (the (merkle_proof (\<lambda>s. s) [''61'', ''62'', ''63''] 2)) = 2"
    by (simp add: merkle_proof_def proof_loop.simps pad_even_def)
  then show ?thesis using merkle_proof_complete [of 2 "[''61'', ''62'', ''63'']" "\<lambda>s. s"] by auto
qed

text \<open>The byte strings hashed on the way to a root.\<close>

fun level_inputs :: "string list \<Rightarrow> string list" where
  "level_inputs [] = []"
| "level_inputs [x] = [x @ x]"
| "level_inputs (x # y # rest) = (x @ y) # level_inputs rest"

function root_inputs :: "(string \<Rightarrow> string) \<Rightarrow> string list \<Rightarrow> string list" where
  "root_inputs H level = (if length level \<le> 1 then [] else level_inputs level @ root_inputs H (next_level H level))"
  by auto
termination by (relation "measure (\<lambda>(H, level). length level)") auto

declare root_inputs.simps [simp del]

lemma length_level_inputs [simp]: "length (level_inputs xs) = (length xs + 1) div 2"
  by (induction xs rule: level_inputs.induct) auto

lemma next_level_map: "next_level H xs = map H (level_inputs xs)"
  by (induction H xs rule: next_level.induct) auto

lemma level_inputs_inj:
  "length xs = length ys \<Longrightarrow> list_all (\<lambda>x. length x = k) xs \<Longrightarrow> list_all (\<lambda>x. length x = k) ys \<Longrightarrow>
     level_inputs xs = level_inputs ys \<Longrightarrow> xs = ys"
proof (induction xs arbitrary: ys rule: level_inputs.induct)
  case (2 x)
  then show ?case by (cases ys rule: level_inputs.cases) (auto simp: append_eq_append_conv)
next
  case (3 x y rest)
  then obtain x' y' rest' where ys: "ys = x' # y' # rest'" by (cases ys rule: level_inputs.cases) auto
  then show ?case using 3 by (auto simp: append_eq_append_conv)
qed simp

lemma map_collision:
  assumes "map H as = map H bs" "as \<noteq> bs"
  shows "collision H (set as) (set bs)"
proof -
  have len: "length as = length bs" using assms(1) by (rule map_eq_imp_length_eq)
  then obtain i where "i < length as" "as ! i \<noteq> bs ! i" using assms(2) by (auto simp: list_eq_iff_nth_eq)
  moreover from this(1) len have "H (as ! i) = H (bs ! i)" using assms(1) by (metis nth_map)
  ultimately show ?thesis using len unfolding collision_def by (metis nth_mem)
qed

lemma root_binding:
  "\<forall>x. length (H x) = k \<Longrightarrow> length xs = length ys \<Longrightarrow> list_all (\<lambda>x. length x = k) xs \<Longrightarrow>
     list_all (\<lambda>x. length x = k) ys \<Longrightarrow> root_loop H xs = root_loop H ys \<Longrightarrow>
     xs = ys \<or> collision H (set (root_inputs H xs)) (set (root_inputs H ys))"
proof (induction H xs arbitrary: ys rule: root_loop.induct)
  case (1 H xs)
  show ?case
  proof (cases "length xs \<le> 1")
    case True
    then show ?thesis using 1(3,6) by (simp add: root_loop.simps [of H])
  next
    case False
    let ?xs = "next_level H xs" and ?ys = "next_level H ys"
    have inputs: "root_inputs H xs = level_inputs xs @ root_inputs H ?xs"
        "root_inputs H ys = level_inputs ys @ root_inputs H ?ys"
      using False 1(3) by (subst root_inputs.simps, simp)+
    have "root_loop H ?xs = root_loop H ?ys"
      using False 1(3,6) by (simp add: root_loop.simps [of H xs] root_loop.simps [of H ys])
    then have "?xs = ?ys \<or> collision H (set (root_inputs H ?xs)) (set (root_inputs H ?ys))"
      using 1(1) [OF False 1(2), of ?ys] 1(2,3) by (simp add: next_level_map list_all_iff)
    moreover have "xs = ys \<or> collision H (set (level_inputs xs)) (set (level_inputs ys))" if "?xs = ?ys"
      using that level_inputs_inj [OF 1(3-5)] map_collision [of H "level_inputs xs" "level_inputs ys"]
      by (auto simp: next_level_map)
    ultimately show ?thesis unfolding inputs by (auto simp: collision_def)
  qed
qed

lemma root_loop_single: "length (root_loop H xs) \<le> 1"
proof (induction H xs rule: root_loop.induct)
  case (1 H xs)
  then show ?case by (subst root_loop.simps) simp
qed

lemma root_loop_Nil: "root_loop H xs = [] \<longleftrightarrow> xs = []"
proof (induction H xs rule: root_loop.induct)
  case (1 H xs)
  moreover have "next_level H xs = [] \<longleftrightarrow> xs = []" by (cases xs rule: level_inputs.cases) simp_all
  ultimately show ?case by (subst root_loop.simps) auto
qed

text \<open>C28: a root commits to its segment. Two segments of the same number of events, with 32-byte
  hashes written in hex, that have the same Merkle root hold the same hashes in the same order, or the
  byte strings hashed on the way to the two roots exhibit a SHA-256 collision.\<close>

theorem merkle_root_binding:
  assumes "\<forall>x. length (H x) = 32" "length bs = length cs"
    and "list_all (\<lambda>b. length b = 32) bs" "list_all (\<lambda>c. length c = 32) cs"
    and "merkle_root H (map hex_encode bs) = merkle_root H (map hex_encode cs)"
  shows "bs = cs \<or> collision H (set (root_inputs H bs)) (set (root_inputs H cs))"
proof -
  note one = root_loop_single and len = root_loop_Nil
  have leaves: "map (hex_to_bytes H) (map hex_encode xs) = xs" for xs by (induction xs) simp_all
  have "root_loop H bs = root_loop H cs"
    using assms(2,5) one [of H bs] one [of H cs] len [of H bs] len [of H cs] leaves [of bs] leaves [of cs]
    unfolding merkle_root_def
    by (cases "root_loop H bs"; cases "root_loop H cs") (auto dest: hex_encode_inj)
  then show ?thesis using root_binding [OF assms(1-4)] by blast
qed

theorem merkle_root_binding_witness:
  "collision (\<lambda>s. replicate 32 CHR ''a'') (set (root_inputs (\<lambda>s. replicate 32 CHR ''a'') [replicate 32 CHR ''b'', replicate 32 CHR ''b'']))
     (set (root_inputs (\<lambda>s. replicate 32 CHR ''a'') [replicate 32 CHR ''c'', replicate 32 CHR ''b'']))"
proof -
  let ?H = "\<lambda>s :: string. replicate 32 CHR ''a''"
  let ?bs = "[replicate 32 CHR ''b'', replicate 32 CHR ''b'']" and ?cs = "[replicate 32 CHR ''c'', replicate 32 CHR ''b'']"
  have "?bs = ?cs \<or> collision ?H (set (root_inputs ?H ?bs)) (set (root_inputs ?H ?cs))"
    by (rule merkle_root_binding) (simp_all add: merkle_root_def root_loop.simps)
  then show ?thesis by (simp add: replicate_eq_replicate)
qed

end
