(* ===== verification/Kernel_Audit.thy ===== *)
theory Kernel_Audit
  imports Kernel_Merkle
begin

text \<open>The kernel's audit trail: the hash chain, bounded retention with archived segments and the batcher
  (\<^verbatim>\<open>src/kernel/src/audit/mod.rs\<close>, \<^verbatim>\<open>retention.rs\<close>). Appending, archiving, verification of the live window
  and of the full history. SHA-256, JSON and gzip are the parameter record \<open>aext\<close>; what the clock, the
  identifier source and the disk answer to a call is its argument.\<close>


section \<open>Events\<close>

datatype json =
  JNull | JBool bool | JInt int | JStr ustr | JArr "json list" | JObj "(string \<times> json) list"

datatype event_type = StateChange | ToolCall | LlmCall | ErrorEvent | UserAction

datatype audit_error = AeBatcherPoisoned | AeSerializationFailed

record audit_event =
  ae_event_id :: string
  ae_timestamp :: nat
  ae_agent_id :: string
  ae_event_type :: event_type
  ae_payload :: json
  ae_previous_hash :: string
  ae_hash :: string

record archived_segment =
  sg_segment_id :: nat
  sg_event_count :: nat
  sg_merkle_root :: string
  sg_first_event_hash :: string
  sg_last_event_hash :: string
  sg_chain_link_hash :: string
  sg_first_timestamp :: nat
  sg_last_timestamp :: nat
  sg_archive_path :: "string \<times> nat"

text \<open>The code outside the program: SHA-256, \<open>serde_json\<close> for an event's canonical data and a segment's
  metadata, and the gzip-compressed JSON of a segment with its reader.\<close>

record aext =
  ax_sha256 :: "string \<Rightarrow> string"
  ax_json :: "string \<times> nat \<times> string \<times> event_type \<times> json \<Rightarrow> string option"
  ax_segment :: "audit_event list \<Rightarrow> string option"
  ax_unsegment :: "string \<Rightarrow> audit_event list option"
  ax_meta :: "archived_segment \<Rightarrow> string option"

definition GENESIS_HASH :: string where
  "GENESIS_HASH = replicate 64 (CHR ''0'')"

definition compute_hash :: "aext \<Rightarrow> string \<Rightarrow> nat \<Rightarrow> string \<Rightarrow> event_type \<Rightarrow> json \<Rightarrow> string \<Rightarrow> audit_error + string" where
  "compute_hash X event_id timestamp agent_id ty payload previous_hash =
     (case ax_json X (event_id, timestamp, agent_id, ty, payload) of
        None \<Rightarrow> Inl AeSerializationFailed
      | Some serialized \<Rightarrow> Inr (hex_encode (ax_sha256 X (previous_hash @ serialized))))"

fun verify_event_chain :: "aext \<Rightarrow> audit_event list \<Rightarrow> string \<Rightarrow> bool" where
  "verify_event_chain X [] expected_previous = True"
| "verify_event_chain X (e # rest) expected_previous =
     (if ae_previous_hash e \<noteq> expected_previous then False
      else case compute_hash X (ae_event_id e) (ae_timestamp e) (ae_agent_id e) (ae_event_type e)
          (ae_payload e) (ae_previous_hash e) of
        Inl err \<Rightarrow> False
      | Inr expected_hash \<Rightarrow>
          if ae_hash e \<noteq> expected_hash then False else verify_event_chain X rest (ae_hash e))"


section \<open>The batcher\<close>

text \<open>What the sink was handed, oldest batch first, stands for the sink.\<close>

record batcher =
  bt_max_events :: nat
  bt_max_age_secs :: nat
  bt_pending :: "audit_event list"
  bt_batch_start :: nat
  bt_sealed :: "audit_event list list"
  bt_sealed_count :: nat
  bt_poisoned :: bool

definition batcher_new :: "nat \<Rightarrow> nat \<Rightarrow> batcher" where
  "batcher_new max_events max_age = \<lparr>bt_max_events = max_events, bt_max_age_secs = max_age, bt_pending = [],
     bt_batch_start = 0, bt_sealed = [], bt_sealed_count = 0, bt_poisoned = False\<rparr>"

definition seal :: "batcher \<Rightarrow> batcher" where
  "seal b = b\<lparr>bt_pending := [], bt_sealed := bt_sealed b @ [bt_pending b], bt_sealed_count := bt_sealed_count b + 1\<rparr>"

definition maybe_seal :: "nat \<Rightarrow> batcher \<Rightarrow> batcher" where
  "maybe_seal now b =
     (if bt_max_events b \<le> length (bt_pending b)
        \<or> (bt_pending b \<noteq> [] \<and> bt_max_age_secs b \<le> now - bt_batch_start b)
      then seal b else b)"

definition batcher_push :: "nat \<Rightarrow> nat \<Rightarrow> audit_event \<Rightarrow> batcher \<Rightarrow> batcher" where
  "batcher_push now now' e b =
     (let b = (if bt_pending b = [] then b\<lparr>bt_batch_start := now\<rparr> else b)
      in maybe_seal now' (b\<lparr>bt_pending := bt_pending b @ [e]\<rparr>))"

text \<open>The shared handle: nothing when no batcher is set, an error when its lock is poisoned.\<close>

definition handle_push :: "nat \<Rightarrow> nat \<Rightarrow> audit_event \<Rightarrow> batcher option \<Rightarrow> (audit_error + unit) \<times> batcher option" where
  "handle_push now now' e h = (case h of
     None \<Rightarrow> (Inr (), None)
   | Some b \<Rightarrow> if bt_poisoned b then (Inl AeBatcherPoisoned, Some b)
               else (Inr (), Some (batcher_push now now' e b)))"

definition handle_flush :: "batcher option \<Rightarrow> (audit_error + unit) \<times> batcher option" where
  "handle_flush h = (case h of
     None \<Rightarrow> (Inr (), None)
   | Some b \<Rightarrow> if bt_poisoned b then (Inl AeBatcherPoisoned, Some b)
               else if bt_pending b \<noteq> [] then (Inr (), Some (seal b)) else (Inr (), Some b))"

definition sealed_count :: "batcher option \<Rightarrow> nat" where
  "sealed_count h = (case h of None \<Rightarrow> 0 | Some b \<Rightarrow> if bt_poisoned b then 0 else bt_sealed_count b)"

definition pending_count :: "batcher option \<Rightarrow> nat" where
  "pending_count h = (case h of None \<Rightarrow> 0 | Some b \<Rightarrow> if bt_poisoned b then 0 else length (bt_pending b))"


section \<open>Segments on disk\<close>

datatype archive_error = ArIo | ArDeserialization

text \<open>A segment's two files are named by the directory and its number.\<close>

record disk =
  dk_segments :: "string \<times> nat \<Rightarrow> string option"
  dk_meta :: "string \<times> nat \<Rightarrow> string option"

text \<open>What the disk answers to the writing of one segment: both files written; the events file not
  created, or left with some of its bytes; or only the metadata file failed.\<close>

datatype disk_outcome = DoWritten | DoNoFile | DoPartial string | DoNoMeta

record retention =
  rb_live :: "audit_event list"
  rb_segments :: "archived_segment list"
  rb_next_segment_id :: nat
  rb_max_live_events :: nat
  rb_segment_size :: nat
  rb_archive_dir :: string
  rb_total_event_count :: nat

definition retention_new :: "nat \<Rightarrow> nat \<Rightarrow> string \<Rightarrow> retention" where
  "retention_new max_live seg_size dir = \<lparr>rb_live = [], rb_segments = [], rb_next_segment_id = 0,
     rb_max_live_events = max_live, rb_segment_size = seg_size, rb_archive_dir = dir, rb_total_event_count = 0\<rparr>"

definition load_events :: "aext \<Rightarrow> disk \<Rightarrow> archived_segment \<Rightarrow> archive_error + audit_event list" where
  "load_events X d s = (case dk_segments d (sg_archive_path s) of
     None \<Rightarrow> Inl ArIo
   | Some compressed \<Rightarrow> (case ax_unsegment X compressed of
       None \<Rightarrow> Inl ArDeserialization
     | Some events \<Rightarrow> Inr events))"

definition verify_merkle :: "aext \<Rightarrow> disk \<Rightarrow> archived_segment \<Rightarrow> archive_error + bool" where
  "verify_merkle X d s = (case load_events X d s of
     Inl err \<Rightarrow> Inl err
   | Inr events \<Rightarrow> Inr (merkle_root (ax_sha256 X) (map ae_hash events) = Some (sg_merkle_root s)))"

definition segment_meta :: "aext \<Rightarrow> audit_event list \<Rightarrow> string \<Rightarrow> nat \<Rightarrow> archived_segment" where
  "segment_meta X events dir segment_id = \<lparr>sg_segment_id = segment_id, sg_event_count = length events,
     sg_merkle_root = (case merkle_root (ax_sha256 X) (map ae_hash events) of Some r \<Rightarrow> r | None \<Rightarrow> GENESIS_HASH),
     sg_first_event_hash = ae_hash (hd events), sg_last_event_hash = ae_hash (last events),
     sg_chain_link_hash = ae_previous_hash (hd events), sg_first_timestamp = ae_timestamp (hd events),
     sg_last_timestamp = ae_timestamp (last events), sg_archive_path = (dir, segment_id)\<rparr>"

definition write_segment :: "aext \<Rightarrow> disk_outcome \<Rightarrow> audit_event list \<Rightarrow> retention \<Rightarrow> disk \<Rightarrow> (archive_error + unit) \<times> retention \<times> disk" where
  "write_segment X out events buf d =
     (if events = [] then (Inr (), buf, d)
      else
       (let segment_id = rb_next_segment_id buf;
            path = (rb_archive_dir buf, segment_id);
            meta = segment_meta X events (rb_archive_dir buf) segment_id;
            buf = buf\<lparr>rb_next_segment_id := segment_id + 1\<rparr>
        in case ax_segment X events of
             None \<Rightarrow> (Inl ArIo, buf, d)
           | Some bytes \<Rightarrow>
               let d' = d\<lparr>dk_segments := (dk_segments d)(path \<mapsto> bytes)\<rparr>
               in case out of
                    DoNoFile \<Rightarrow> (Inl ArIo, buf, d)
                  | DoPartial left \<Rightarrow> (Inl ArIo, buf, d\<lparr>dk_segments := (dk_segments d)(path \<mapsto> left)\<rparr>)
                  | DoNoMeta \<Rightarrow> (Inl ArIo, buf, d')
                  | DoWritten \<Rightarrow> (case ax_meta X meta of
                      None \<Rightarrow> (Inl ArIo, buf, d')
                    | Some m \<Rightarrow> (Inr (), buf\<lparr>rb_segments := rb_segments buf @ [meta]\<rparr>,
                        d'\<lparr>dk_meta := (dk_meta d)(path \<mapsto> m)\<rparr>))))"

definition archive_from_vec :: "aext \<Rightarrow> disk_outcome \<Rightarrow> audit_event list \<Rightarrow> retention \<Rightarrow> disk \<Rightarrow> (archive_error + unit) \<times> audit_event list \<times> retention \<times> disk" where
  "archive_from_vec X out events buf d =
     (let seg_size = min (rb_segment_size buf) (length events)
      in if seg_size = 0 then (Inr (), events, buf, d)
         else case write_segment X out (take seg_size events) buf d of
           (r, buf', d') \<Rightarrow> (r, drop seg_size events, buf', d'))"

definition record_append :: "retention \<Rightarrow> retention" where
  "record_append buf = buf\<lparr>rb_total_event_count := rb_total_event_count buf + 1\<rparr>"

text \<open>The buffer's own live window, archived the same way.\<close>

definition archive_oldest_segment :: "aext \<Rightarrow> disk_outcome \<Rightarrow> retention \<Rightarrow> disk \<Rightarrow> (archive_error + unit) \<times> retention \<times> disk" where
  "archive_oldest_segment X out buf d =
     (let seg_size = min (rb_segment_size buf) (length (rb_live buf))
      in if seg_size = 0 then (Inr (), buf, d)
         else write_segment X out (take seg_size (rb_live buf)) (buf\<lparr>rb_live := drop seg_size (rb_live buf)\<rparr>) d)"

definition retention_push :: "aext \<Rightarrow> disk_outcome \<Rightarrow> audit_event \<Rightarrow> retention \<Rightarrow> disk \<Rightarrow> (archive_error + unit) \<times> retention \<times> disk" where
  "retention_push X out e buf d =
     (let buf = buf\<lparr>rb_live := rb_live buf @ [e], rb_total_event_count := rb_total_event_count buf + 1\<rparr>
      in if rb_max_live_events buf < length (rb_live buf) then archive_oldest_segment X out buf d
         else (Inr (), buf, d))"

fun load_all :: "aext \<Rightarrow> disk \<Rightarrow> archived_segment list \<Rightarrow> archive_error + audit_event list" where
  "load_all X d [] = Inr []"
| "load_all X d (s # rest) = (case load_events X d s of
     Inl err \<Rightarrow> Inl err
   | Inr events \<Rightarrow> (case load_all X d rest of Inl err \<Rightarrow> Inl err | Inr others \<Rightarrow> Inr (events @ others)))"

definition last_anchor :: "retention \<Rightarrow> string" where
  "last_anchor buf = (if rb_segments buf = [] then GENESIS_HASH else sg_last_event_hash (last (rb_segments buf)))"

fun verify_segments :: "aext \<Rightarrow> disk \<Rightarrow> archived_segment list \<Rightarrow> string \<Rightarrow> archive_error + string option" where
  "verify_segments X d [] expected_previous = Inr (Some expected_previous)"
| "verify_segments X d (s # rest) expected_previous =
     (if sg_chain_link_hash s \<noteq> expected_previous then Inr None
      else case load_events X d s of
        Inl err \<Rightarrow> Inl err
      | Inr events \<Rightarrow>
          if \<not> verify_event_chain X events expected_previous then Inr None
          else if merkle_root (ax_sha256 X) (map ae_hash events) \<noteq> Some (sg_merkle_root s) then Inr None
          else verify_segments X d rest (sg_last_event_hash s))"

definition verify_full_chain :: "aext \<Rightarrow> disk \<Rightarrow> archived_segment list \<Rightarrow> audit_event list \<Rightarrow> archive_error + bool" where
  "verify_full_chain X d segments live = (case verify_segments X d segments GENESIS_HASH of
     Inl err \<Rightarrow> Inl err
   | Inr None \<Rightarrow> Inr False
   | Inr (Some expected_previous) \<Rightarrow> Inr (verify_event_chain X live expected_previous))"


text \<open>The checks of a buffer that is used on its own.\<close>

definition verify_live_chain :: "aext \<Rightarrow> retention \<Rightarrow> bool" where
  "verify_live_chain X buf = verify_event_chain X (rb_live buf) (last_anchor buf)"

fun verify_archived_merkle_roots :: "aext \<Rightarrow> disk \<Rightarrow> archived_segment list \<Rightarrow> archive_error + bool" where
  "verify_archived_merkle_roots X d [] = Inr True"
| "verify_archived_merkle_roots X d (s # rest) = (case verify_merkle X d s of
     Inl err \<Rightarrow> Inl err
   | Inr ok \<Rightarrow> if \<not> ok then Inr False else verify_archived_merkle_roots X d rest)"

definition archived_count :: "retention \<Rightarrow> nat" where
  "archived_count buf = sum_list (map sg_event_count (rb_segments buf))"


section \<open>The trail\<close>

record audit_trail =
  at_events :: "audit_event list"
  at_batcher :: "batcher option"
  at_retention :: "retention option"

definition audit_new :: audit_trail where
  "audit_new = \<lparr>at_events = [], at_batcher = None, at_retention = None\<rparr>"

definition enable_retention :: "nat \<Rightarrow> nat \<Rightarrow> string \<Rightarrow> audit_trail \<Rightarrow> audit_trail" where
  "enable_retention max_live seg_size dir t =
     t\<lparr>at_retention := Some ((record_append ^^ length (at_events t)) (retention_new max_live seg_size dir))\<rparr>"

definition enable_distributed_audit :: "nat \<Rightarrow> nat \<Rightarrow> audit_trail \<Rightarrow> audit_trail" where
  "enable_distributed_audit max_events max_age t = t\<lparr>at_batcher := Some (batcher_new max_events max_age)\<rparr>"

definition flush_batcher :: "audit_trail \<Rightarrow> (audit_error + unit) \<times> audit_trail" where
  "flush_batcher t = (case handle_flush (at_batcher t) of (r, h) \<Rightarrow> (r, t\<lparr>at_batcher := h\<rparr>))"

definition window_anchor :: "audit_trail \<Rightarrow> string" where
  "window_anchor t = (case at_retention t of None \<Rightarrow> GENESIS_HASH | Some buf \<Rightarrow> last_anchor buf)"

text \<open>What one append reads from outside: a fresh identifier, the time, the batcher's two clock reads
  and the disk.\<close>

record append_input =
  ai_event_id :: string
  ai_timestamp :: nat
  ai_push_time :: nat
  ai_seal_time :: nat
  ai_disk :: disk_outcome

definition retain :: "aext \<Rightarrow> disk_outcome \<Rightarrow> audit_trail \<Rightarrow> disk \<Rightarrow> (audit_error + unit) \<times> audit_trail \<times> disk" where
  "retain X out t d = (case at_retention t of
     None \<Rightarrow> (Inr (), t, d)
   | Some buf \<Rightarrow>
       let buf = record_append buf
       in if rb_max_live_events buf < length (at_events t)
          then (case archive_from_vec X out (at_events t) buf d of
            (r, events, buf', d') \<Rightarrow>
              ((case r of Inl err \<Rightarrow> Inl AeSerializationFailed | Inr u \<Rightarrow> Inr ()),
               t\<lparr>at_events := events, at_retention := Some buf'\<rparr>, d'))
          else (Inr (), t\<lparr>at_retention := Some buf\<rparr>, d))"

definition append_event :: "aext \<Rightarrow> append_input \<Rightarrow> string \<Rightarrow> event_type \<Rightarrow> json \<Rightarrow> audit_trail \<Rightarrow> disk \<Rightarrow> (audit_error + string) \<times> audit_trail \<times> disk" where
  "append_event X io agent_id ty payload t d =
     (let event_id = ai_event_id io;
          previous_hash = (if at_events t = [] then window_anchor t else ae_hash (last (at_events t)))
      in case compute_hash X event_id (ai_timestamp io) agent_id ty payload previous_hash of
           Inl err \<Rightarrow> (Inl err, t, d)
         | Inr h \<Rightarrow>
             let e = \<lparr>ae_event_id = event_id, ae_timestamp = ai_timestamp io, ae_agent_id = agent_id,
                   ae_event_type = ty, ae_payload = payload, ae_previous_hash = previous_hash, ae_hash = h\<rparr>
             in case retain X (ai_disk io) (t\<lparr>at_events := at_events t @ [e]\<rparr>) d of
                  (Inl err, t', d') \<Rightarrow> (Inl err, t', d')
                | (Inr u, t', d') \<Rightarrow>
                    (case handle_push (ai_push_time io) (ai_seal_time io) e (at_batcher t') of
                       (Inl err, b) \<Rightarrow> (Inl err, t'\<lparr>at_batcher := b\<rparr>, d')
                     | (Inr v, b) \<Rightarrow> (Inr event_id, t'\<lparr>at_batcher := b\<rparr>, d')))"

definition verify_integrity :: "aext \<Rightarrow> audit_trail \<Rightarrow> bool" where
  "verify_integrity X t = verify_event_chain X (at_events t) (window_anchor t)"

definition verify_full_integrity :: "aext \<Rightarrow> disk \<Rightarrow> audit_trail \<Rightarrow> archive_error + bool" where
  "verify_full_integrity X d t = (case at_retention t of
     None \<Rightarrow> Inr (verify_integrity X t)
   | Some buf \<Rightarrow> verify_full_chain X d (rb_segments buf) (at_events t))"

definition load_archived_events :: "aext \<Rightarrow> disk \<Rightarrow> audit_trail \<Rightarrow> archive_error + audit_event list" where
  "load_archived_events X d t = (case at_retention t of None \<Rightarrow> Inr [] | Some buf \<Rightarrow> load_all X d (rb_segments buf))"

definition total_event_count :: "audit_trail \<Rightarrow> nat" where
  "total_event_count t = (case at_retention t of None \<Rightarrow> length (at_events t) | Some buf \<Rightarrow> rb_total_event_count buf)"


section \<open>The history of a trail\<close>

definition end_hash :: "string \<Rightarrow> audit_event list \<Rightarrow> string" where
  "end_hash anchor es = (if es = [] then anchor else ae_hash (last es))"

lemma end_hash_simps [simp]:
  "end_hash p [] = p" "end_hash p (e # es) = end_hash (ae_hash e) es" "end_hash p (xs @ ys) = end_hash (end_hash p xs) ys"
  by (auto simp: end_hash_def)

lemma verify_event_chain_Cons:
  "verify_event_chain X (e # es) p \<longleftrightarrow> ae_previous_hash e = p
     \<and> compute_hash X (ae_event_id e) (ae_timestamp e) (ae_agent_id e) (ae_event_type e) (ae_payload e) p = Inr (ae_hash e)
     \<and> verify_event_chain X es (ae_hash e)"
  by (auto split: sum.split)

declare verify_event_chain.simps(2) [simp del] verify_event_chain_Cons [simp]

lemma verify_event_chain_append [simp]:
  "verify_event_chain X (xs @ ys) p \<longleftrightarrow> verify_event_chain X xs p \<and> verify_event_chain X ys (end_hash p xs)"
  by (induction xs arbitrary: p) auto

text \<open>A segment holds the piece of history it was written for.\<close>

definition seg_ok :: "aext \<Rightarrow> disk \<Rightarrow> archived_segment \<Rightarrow> audit_event list \<Rightarrow> bool" where
  "seg_ok X d s p \<longleftrightarrow> p \<noteq> [] \<and> load_events X d s = Inr p \<and> s = segment_meta X p (fst (sg_archive_path s)) (snd (sg_archive_path s))"

definition buf_ok :: "aext \<Rightarrow> disk \<Rightarrow> retention \<Rightarrow> audit_event list list \<Rightarrow> bool" where
  "buf_ok X d buf pieces \<longleftrightarrow> list_all2 (seg_ok X d) (rb_segments buf) pieces
     \<and> list_all (\<lambda>s. fst (sg_archive_path s) = rb_archive_dir buf \<and> snd (sg_archive_path s) < rb_next_segment_id buf) (rb_segments buf)"

definition trail_ok :: "aext \<Rightarrow> disk \<Rightarrow> audit_trail \<Rightarrow> audit_event list \<Rightarrow> bool" where
  "trail_ok X d t hist \<longleftrightarrow> verify_event_chain X hist GENESIS_HASH \<and> total_event_count t = length hist
     \<and> (case at_retention t of
          None \<Rightarrow> at_events t = hist
        | Some buf \<Rightarrow> \<exists>pieces. buf_ok X d buf pieces \<and> hist = concat pieces @ at_events t)"

lemma seg_ok_meta:
  assumes "seg_ok X d s p"
  shows "sg_last_event_hash s = ae_hash (last p)" "sg_chain_link_hash s = ae_previous_hash (hd p)"
    "merkle_root (ax_sha256 X) (map ae_hash p) = Some (sg_merkle_root s)" "load_events X d s = Inr p" "p \<noteq> []"
proof -
  have "merkle_root (ax_sha256 X) (map ae_hash p) \<noteq> None"
    using assms root_loop_Nil [of "ax_sha256 X" "map (hex_to_bytes (ax_sha256 X)) (map ae_hash p)"]
    by (auto simp: seg_ok_def merkle_root_def split: list.split)
  then show "merkle_root (ax_sha256 X) (map ae_hash p) = Some (sg_merkle_root s)"
    using assms unfolding seg_ok_def segment_meta_def by (metis archived_segment.select_convs(3) option.case_eq_if option.collapse)
qed (use assms in \<open>auto simp: seg_ok_def segment_meta_def dest: arg_cong [of s _ sg_last_event_hash] arg_cong [of s _ sg_chain_link_hash]\<close>)

lemma verify_segments_ok:
  "list_all2 (seg_ok X d) ss pieces \<Longrightarrow> verify_event_chain X (concat pieces) p \<Longrightarrow>
     verify_segments X d ss p = Inr (Some (end_hash p (concat pieces)))"
proof (induction ss pieces arbitrary: p rule: list_all2_induct)
  case (Cons s ss q qs)
  note m = seg_ok_meta [OF Cons(1)]
  have "ae_previous_hash (hd q) = p" using Cons.prems m(5) by (cases q) (auto split: if_split_asm)
  moreover have "end_hash p q = ae_hash (last q)" using m(5) by (simp add: end_hash_def)
  ultimately show ?case using Cons m by simp
qed simp

lemma load_all_ok: "list_all2 (seg_ok X d) ss pieces \<Longrightarrow> load_all X d ss = Inr (concat pieces)"
  by (induction ss pieces rule: list_all2_induct) (simp_all add: seg_ok_meta(4))

lemma last_anchor_ok: "buf_ok X d buf pieces \<Longrightarrow> last_anchor buf = end_hash GENESIS_HASH (concat pieces)"
proof -
  assume ok: "buf_ok X d buf pieces"
  have "ss \<noteq> [] \<Longrightarrow> sg_last_event_hash (last ss) = end_hash p (concat pieces)"
    if "list_all2 (seg_ok X d) ss pieces" for ss p
    using that
  proof (induction ss pieces arbitrary: p rule: list_all2_induct)
    case (Cons s ss q qs)
    have "end_hash p q = sg_last_event_hash s" using seg_ok_meta(1,5) [OF Cons(1)] by (simp add: end_hash_def)
    then show ?case using Cons(2) Cons.IH [of "end_hash p q"] by (cases ss) auto
  qed simp
  with ok show ?thesis by (auto simp: buf_ok_def last_anchor_def)
qed

lemma trail_ok_anchor:
  assumes "trail_ok X d t hist"
  obtains pre where "hist = pre @ at_events t" "window_anchor t = end_hash GENESIS_HASH pre"
    "load_archived_events X d t = Inr pre" "verify_full_integrity X d t = Inr (verify_event_chain X hist GENESIS_HASH)"
proof (cases "at_retention t")
  case None
  then show ?thesis using assms that [of "[]"]
    by (simp add: trail_ok_def window_anchor_def load_archived_events_def verify_full_integrity_def verify_integrity_def)
next
  case (Some buf)
  then obtain pieces where p: "buf_ok X d buf pieces" "hist = concat pieces @ at_events t" "verify_event_chain X hist GENESIS_HASH"
    using assms by (auto simp: trail_ok_def)
  then have "list_all2 (seg_ok X d) (rb_segments buf) pieces" "verify_event_chain X (concat pieces) GENESIS_HASH"
    by (simp_all add: buf_ok_def)
  note s = load_all_ok [OF this(1)] verify_segments_ok [OF this]
  show ?thesis using that [of "concat pieces"] p Some last_anchor_ok [OF p(1)] s
    by (simp add: window_anchor_def load_archived_events_def verify_full_integrity_def verify_full_chain_def)
qed

lemma trail_ok_facts:
  assumes "trail_ok X d t hist"
  shows "verify_integrity X t" "verify_full_integrity X d t = Inr True"
    "\<exists>archived. load_archived_events X d t = Inr archived \<and> archived @ at_events t = hist"
    "total_event_count t = length hist"
    "(if at_events t = [] then window_anchor t else ae_hash (last (at_events t))) = end_hash GENESIS_HASH hist"
proof -
  have v: "verify_event_chain X hist GENESIS_HASH" "total_event_count t = length hist"
    using assms by (simp_all add: trail_ok_def)
  obtain pre where p: "hist = pre @ at_events t" "window_anchor t = end_hash GENESIS_HASH pre"
      "load_archived_events X d t = Inr pre" "verify_full_integrity X d t = Inr (verify_event_chain X hist GENESIS_HASH)"
    using assms by (rule trail_ok_anchor)
  show "verify_integrity X t" using v(1) p by (simp add: verify_integrity_def)
  show "verify_full_integrity X d t = Inr True" using v(1) p(4) by simp
  show "\<exists>archived. load_archived_events X d t = Inr archived \<and> archived @ at_events t = hist" using p by simp
  show "total_event_count t = length hist" by (rule v(2))
  show "(if at_events t = [] then window_anchor t else ae_hash (last (at_events t))) = end_hash GENESIS_HASH hist"
    using p by (auto simp: end_hash_def [of _ "at_events t"])
qed

lemma write_segment_ok:
  assumes "write_segment X out es buf d = (Inr u, buf', d')" "es \<noteq> []" "buf_ok X d buf pieces"
    and rt: "\<forall>es b. ax_segment X es = Some b \<longrightarrow> ax_unsegment X b = Some es"
  shows "buf_ok X d' buf' (pieces @ [es])" "rb_total_event_count buf' = rb_total_event_count buf"
proof -
  let ?path = "(rb_archive_dir buf, rb_next_segment_id buf)"
  let ?meta = "segment_meta X es (rb_archive_dir buf) (rb_next_segment_id buf)"
  obtain b m where b: "ax_segment X es = Some b" "buf' = buf\<lparr>rb_next_segment_id := rb_next_segment_id buf + 1,
        rb_segments := rb_segments buf @ [?meta]\<rparr>"
      "d' = d\<lparr>dk_segments := (dk_segments d)(?path \<mapsto> b), dk_meta := (dk_meta d)(?path \<mapsto> m)\<rparr>"
    using assms(1,2) by (auto simp: write_segment_def Let_def split: option.split_asm disk_outcome.split_asm)
  have new: "seg_ok X d' ?meta es" using assms(2) b rt
    by (simp add: seg_ok_def load_events_def segment_meta_def)
  have old: "seg_ok X d' s p" if "seg_ok X d s p" "s \<in> set (rb_segments buf)" for s p
  proof -
    have "sg_archive_path s \<noteq> ?path" using that(2) assms(3) by (auto simp: buf_ok_def list_all_iff)
    then show ?thesis using that(1) b(3) by (simp add: seg_ok_def load_events_def)
  qed
  have "list_all2 (seg_ok X d) (rb_segments buf) pieces" using assms(3) by (simp add: buf_ok_def)
  then have "list_all2 (seg_ok X d') (rb_segments buf) pieces" by (rule list.rel_mono_strong) (rule old)
  then have "list_all2 (seg_ok X d') (rb_segments buf') (pieces @ [es])" using new b(2) by (simp add: list_all2_appendI)
  moreover have "fst (sg_archive_path ?meta) = rb_archive_dir buf" "snd (sg_archive_path ?meta) = rb_next_segment_id buf"
    by (simp_all add: segment_meta_def)
  ultimately show "buf_ok X d' buf' (pieces @ [es])" using assms(3) b(2) by (auto simp: buf_ok_def list_all_iff)
  show "rb_total_event_count buf' = rb_total_event_count buf" using b(2) by simp
qed

lemma retain_ok:
  assumes "retain X out t d = (Inr u, t', d')" "verify_event_chain X (hist @ [e]) GENESIS_HASH"
    and "trail_ok X d (t\<lparr>at_events := es\<rparr>) hist" "at_events t = es @ [e]"
    and rt: "\<forall>es b. ax_segment X es = Some b \<longrightarrow> ax_unsegment X b = Some es"
  shows "trail_ok X d' t' (hist @ [e])"
proof (cases "at_retention t")
  case None
  then show ?thesis using assms(1-4) by (auto simp: retain_def trail_ok_def total_event_count_def)
next
  case (Some buf)
  then obtain pieces where p: "buf_ok X d buf pieces" "hist = concat pieces @ es" "rb_total_event_count buf = length hist"
    using assms(3) by (auto simp: trail_ok_def total_event_count_def)
  let ?buf = "record_append buf"
  have b: "buf_ok X d ?buf pieces" "rb_total_event_count ?buf = length hist + 1"
    using p by (simp_all add: buf_ok_def record_append_def)
  show ?thesis
  proof (cases "rb_max_live_events ?buf < length (at_events t) \<and> rb_segment_size ?buf \<noteq> 0")
    case True
    let ?k = "min (rb_segment_size ?buf) (length (at_events t))"
    have k: "?k \<noteq> 0" using True assms(4) by simp
    obtain r buf' where w: "write_segment X out (take ?k (at_events t)) ?buf d = (r, buf', d')"
        "t' = t\<lparr>at_events := drop ?k (at_events t), at_retention := Some buf'\<rparr>" "r = Inr ()"
      using assms(1) True Some k
      by (auto simp: retain_def archive_from_vec_def Let_def split: prod.split_asm sum.split_asm)
    have ne: "take ?k (at_events t) \<noteq> []" using k assms(4) by auto
    note ok = write_segment_ok [OF w(1) [unfolded w(3)] ne b(1) rt]
    have "hist @ [e] = concat pieces @ at_events t" using p(2) assms(4) by simp
    also have "\<dots> = concat (pieces @ [take ?k (at_events t)]) @ drop ?k (at_events t)" by simp
    finally have hx: "hist @ [e] = concat (pieces @ [take ?k (at_events t)]) @ drop ?k (at_events t)" .
    have "\<exists>ps. buf_ok X d' buf' ps \<and> hist @ [e] = concat ps @ at_events t'"
      using ok(1) hx w(2) by (metis audit_trail.select_convs(1) audit_trail.surjective audit_trail.update_convs(1,3))
    moreover have "total_event_count t' = length (hist @ [e])" using ok(2) w(2) b(2) by (simp add: total_event_count_def)
    moreover have "at_retention t' = Some buf'" using w(2) by simp
    ultimately show ?thesis unfolding trail_ok_def using assms(2) by simp
  next
    case False
    then have "t' = t\<lparr>at_retention := Some ?buf\<rparr>" "d' = d"
      using assms(1) Some by (auto simp: retain_def archive_from_vec_def Let_def split: if_split_asm)
    then show ?thesis using b p assms(2,4) by (auto simp: trail_ok_def total_event_count_def)
  qed
qed

lemma trail_ok_batcher [simp]: "trail_ok X d (t\<lparr>at_batcher := b\<rparr>) hist = trail_ok X d t hist"
  by (simp add: trail_ok_def total_event_count_def split: option.split)

lemma trail_ok_new: "trail_ok X d audit_new []"
  by (simp add: trail_ok_def audit_new_def total_event_count_def)

lemma trail_ok_enable:
  assumes "trail_ok X d t hist" "at_retention t = None"
  shows "trail_ok X d (enable_retention max_live seg_size dir t) hist"
proof -
  have "rb_segments ((record_append ^^ k) b) = rb_segments b"
      "rb_total_event_count ((record_append ^^ k) b) = rb_total_event_count b + k" for k b
    by (induction k) (simp_all add: record_append_def)
  then show ?thesis using assms
    by (auto simp: trail_ok_def enable_retention_def total_event_count_def buf_ok_def retention_new_def intro!: exI [of _ "[]"])
qed

text \<open>C27: the trail keeps its whole history. Starting from an empty trail, and from any trail when
  retention or the batcher is switched on, every successful append, with as many archivings as it
  causes, leaves a trail whose archived events followed by its live ones are the old history with the
  new event at its end, whose count is that history's length, and which both checks accept: the live
  window from its anchor, and the full chain from the genesis hash through every segment and its
  Merkle root. What is assumed of gzip and JSON is that a written segment reads back.\<close>

theorem audit_append:
  assumes "trail_ok X d t hist" "append_event X io agent ty payload t d = (Inr ident, t', d')"
    and "\<forall>es b. ax_segment X es = Some b \<longrightarrow> ax_unsegment X b = Some es"
  shows "\<exists>e archived. ae_event_id e = ident \<and> ae_agent_id e = agent \<and> ae_event_type e = ty \<and> ae_payload e = payload
    \<and> trail_ok X d' t' (hist @ [e]) \<and> load_archived_events X d' t' = Inr archived
    \<and> archived @ at_events t' = hist @ [e] \<and> total_event_count t' = length hist + 1
    \<and> verify_integrity X t' \<and> verify_full_integrity X d' t' = Inr True"
proof -
  let ?prev = "end_hash GENESIS_HASH hist"
  have prev: "(if at_events t = [] then window_anchor t else ae_hash (last (at_events t))) = ?prev"
    by (rule trail_ok_facts(5) [OF assms(1)])
  obtain h where h: "compute_hash X (ai_event_id io) (ai_timestamp io) agent ty payload ?prev = Inr h"
    using assms(2) prev by (auto simp: append_event_def Let_def split: sum.split_asm)
  let ?e = "\<lparr>ae_event_id = ai_event_id io, ae_timestamp = ai_timestamp io, ae_agent_id = agent,
    ae_event_type = ty, ae_payload = payload, ae_previous_hash = ?prev, ae_hash = h\<rparr>"
  let ?t = "t\<lparr>at_events := at_events t @ [?e]\<rparr>"
  obtain u t1 b where r: "retain X (ai_disk io) ?t d = (Inr u, t1, d')" "t' = t1\<lparr>at_batcher := b\<rparr>" "ident = ai_event_id io"
    using assms(2) h unfolding append_event_def Let_def prev
    by (auto split: prod.split_asm sum.split_asm)
  have "verify_event_chain X (hist @ [?e]) GENESIS_HASH" using assms(1) h by (simp add: trail_ok_def)
  moreover have "trail_ok X d (?t\<lparr>at_events := at_events t\<rparr>) hist" using assms(1) by simp
  ultimately have ok: "trail_ok X d' t' (hist @ [?e])" using retain_ok [OF r(1) _ _ _ assms(3)] r(2) by simp
  show ?thesis using trail_ok_facts [OF ok] ok r(3) by (intro exI [of _ ?e]) auto
qed

text \<open>A trail that archives its first event at once.\<close>

definition sample_audit_event :: audit_event where
  "sample_audit_event = \<lparr>ae_event_id = ''i'', ae_timestamp = 7, ae_agent_id = ''a'', ae_event_type = UserAction,
     ae_payload = JNull, ae_previous_hash = GENESIS_HASH, ae_hash = []\<rparr>"

definition sample_aext :: aext where
  "sample_aext = \<lparr>ax_sha256 = (\<lambda>s. []), ax_json = (\<lambda>c. Some ''j''),
     ax_segment = (\<lambda>es. if es = [sample_audit_event] then Some ''s'' else None),
     ax_unsegment = (\<lambda>b. if b = ''s'' then Some [sample_audit_event] else None), ax_meta = (\<lambda>m. Some ''m'')\<rparr>"

definition sample_input :: "disk_outcome \<Rightarrow> append_input" where
  "sample_input out = \<lparr>ai_event_id = ''i'', ai_timestamp = 7, ai_push_time = 7, ai_seal_time = 7, ai_disk = out\<rparr>"

definition empty_disk :: disk where
  "empty_disk = \<lparr>dk_segments = Map.empty, dk_meta = Map.empty\<rparr>"

lemmas sample_audit = append_event_def retain_def archive_from_vec_def write_segment_def enable_retention_def
  retention_new_def audit_new_def record_append_def window_anchor_def last_anchor_def compute_hash_def
  handle_push_def sample_aext_def sample_input_def Let_def hex_encode_def

lemma sample_append:
  obtains t' d' where "append_event sample_aext (sample_input DoWritten) ''a'' UserAction JNull
      (enable_retention 0 1 ''dir'' audit_new) empty_disk = (Inr ''i'', t', d')" "at_events t' = []"
  by (simp add: sample_audit sample_audit_event_def)

theorem audit_append_witness:
  "\<exists>t' d'. append_event sample_aext (sample_input DoWritten) ''a'' UserAction JNull
       (enable_retention 0 1 ''dir'' audit_new) empty_disk = (Inr ''i'', t', d')
     \<and> verify_full_integrity sample_aext d' t' = Inr True \<and> total_event_count t' = 1 \<and> at_events t' = []"
proof -
  let ?t = "enable_retention 0 1 ''dir'' audit_new"
  obtain t' d' where a: "append_event sample_aext (sample_input DoWritten) ''a'' UserAction JNull ?t empty_disk = (Inr ''i'', t', d')"
      "at_events t' = []"
    by (rule sample_append)
  have "trail_ok sample_aext empty_disk ?t []" by (rule trail_ok_enable [OF trail_ok_new]) (simp add: audit_new_def)
  moreover have "\<forall>es b. ax_segment sample_aext es = Some b \<longrightarrow> ax_unsegment sample_aext b = Some es"
    by (simp add: sample_aext_def)
  ultimately show ?thesis using audit_append [OF _ a(1)] a by force
qed

text \<open>C30: a segment that cannot be written is lost. When an append has to archive and the disk refuses
  the segment's file, the append reports an error, but the oldest events have already left the live
  window and reach no segment: what the archive and the window still hold is fewer events than the
  trail counts. The module's promise that no event is ever lost does not hold on this path.\<close>

theorem archive_failure_loses:
  assumes "trail_ok X d t hist" "at_retention t = Some buf"
    and "rb_max_live_events buf \<le> length (at_events t)" "rb_segment_size buf \<noteq> 0" "ai_disk io = DoNoFile"
    and "ax_json X (ai_event_id io, ai_timestamp io, agent, ty, payload) = Some s"
  shows "\<exists>t' archived. append_event X io agent ty payload t d = (Inl AeSerializationFailed, t', d)
    \<and> load_archived_events X d t' = Inr archived
    \<and> length (archived @ at_events t') < total_event_count t' \<and> total_event_count t' = length hist + 1"
proof -
  have tot: "rb_total_event_count buf = length hist" using assms(1,2) by (simp add: trail_ok_def total_event_count_def)
  obtain archived where a: "load_all X d (rb_segments buf) = Inr archived" "archived @ at_events t = hist"
    using trail_ok_facts(3) [OF assms(1)] assms(2) by (auto simp: load_archived_events_def)
  let ?k = "min (rb_segment_size buf) (length (at_events t) + 1)"
  have lost: "length (archived @ drop ?k (at_events t @ [e])) < length hist + 1" for e
    using a(2) assms(4) by (auto simp: min_def)
  have "\<exists>e. append_event X io agent ty payload t d = (Inl AeSerializationFailed,
      t\<lparr>at_events := drop ?k (at_events t @ [e]), at_retention := Some (buf\<lparr>rb_total_event_count := length hist + 1,
        rb_next_segment_id := rb_next_segment_id buf + 1\<rparr>)\<rparr>, d)"
    using assms(2-6) tot
    by (auto simp: append_event_def compute_hash_def retain_def archive_from_vec_def write_segment_def record_append_def
        Let_def split: option.split)
  then obtain e where e: "append_event X io agent ty payload t d = (Inl AeSerializationFailed,
      t\<lparr>at_events := drop ?k (at_events t @ [e]), at_retention := Some (buf\<lparr>rb_total_event_count := length hist + 1,
        rb_next_segment_id := rb_next_segment_id buf + 1\<rparr>)\<rparr>, d)" (is "_ = (_, ?t, _)") by blast
  have "load_archived_events X d ?t = Inr archived" using a(1) by (simp add: load_archived_events_def)
  moreover have "total_event_count ?t = length hist + 1" by (simp add: total_event_count_def)
  moreover have "length (archived @ at_events ?t) < total_event_count ?t" using lost [of e] by (simp add: total_event_count_def)
  ultimately show ?thesis using e by blast
qed

theorem archive_failure_loses_witness:
  "\<exists>t' archived. append_event sample_aext (sample_input DoNoFile) ''a'' UserAction JNull
       (enable_retention 0 1 ''dir'' audit_new) empty_disk = (Inl AeSerializationFailed, t', empty_disk)
     \<and> load_archived_events sample_aext empty_disk t' = Inr archived
     \<and> length (archived @ at_events t') < total_event_count t' \<and> total_event_count t' = 1"
proof -
  let ?t = "enable_retention 0 1 ''dir'' audit_new"
  have ok: "trail_ok sample_aext empty_disk ?t []"
    by (rule trail_ok_enable [OF trail_ok_new]) (simp add: audit_new_def)
  have "at_retention ?t = Some (retention_new 0 1 ''dir'')" by (simp add: enable_retention_def audit_new_def)
  from archive_failure_loses [OF ok this, of "sample_input DoNoFile" "''a''" UserAction JNull "''j''"] show ?thesis
    by (simp add: retention_new_def sample_input_def sample_aext_def enable_retention_def audit_new_def)
qed

end
