(* ===== verification/Kernel_Fuel.thy ===== *)
theory Kernel_Fuel
  imports Kernel_Audit "HOL-Library.List_Lexorder" "HOL-Library.AList"
begin

text \<open>The kernel's fuel accounting (\<^verbatim>\<open>src/kernel/src/fuel_hardening.rs\<close>): monthly budgets with their alerts,
  token costs, the burn detector, the ledger of an agent with its audit records, and the two-phase fuel
  context. Units are \<open>u64\<close>, with the saturating operations written out.\<close>

definition sat_mul_u64 :: "nat \<Rightarrow> nat \<Rightarrow> nat" where
  "sat_mul_u64 a b = min (a * b) U64_MAX"


section \<open>Budgets\<close>

definition ALERT_THRESHOLDS :: "nat list" where
  "ALERT_THRESHOLDS = [70, 100, 120]"

text \<open>\<open>char::is_whitespace\<close> and \<open>str::trim\<close>.\<close>

definition is_whitespace :: "uchar \<Rightarrow> bool" where
  "is_whitespace c \<longleftrightarrow> 9 \<le> c \<and> c \<le> 13 \<or> c \<in> {32, 0x85, 0xA0, 0x1680, 0x2028, 0x2029, 0x202F, 0x205F, 0x3000}
     \<or> 0x2000 \<le> c \<and> c \<le> 0x200A"

definition trim :: "ustr \<Rightarrow> ustr" where
  "trim s = rev (dropWhile is_whitespace (rev (dropWhile is_whitespace s)))"

definition BudgetPeriodId_new :: "ustr \<Rightarrow> ustr" where
  "BudgetPeriodId_new raw = (let trimmed = trim raw in if trimmed = [] then asc ''period.default'' else trimmed)"

record monthly_budget =
  mb_cap_units :: nat
  mb_spent_units :: nat
  mb_period :: ustr
  mb_alerts_emitted :: "nat list"

definition budget_new :: "nat \<Rightarrow> ustr \<Rightarrow> monthly_budget" where
  "budget_new cap_units period = \<lparr>mb_cap_units = max cap_units 1, mb_spent_units = 0, mb_period = period, mb_alerts_emitted = []\<rparr>"

definition budget_set_period :: "ustr \<Rightarrow> monthly_budget \<Rightarrow> bool \<times> monthly_budget" where
  "budget_set_period period b = (if mb_period b = period then (False, b)
     else (True, b\<lparr>mb_period := period, mb_spent_units := 0, mb_alerts_emitted := []\<rparr>))"

definition percent_ceiling :: "nat \<Rightarrow> nat \<Rightarrow> nat" where
  "percent_ceiling v percent = sat_add_u64 (sat_mul_u64 v percent) 99 div 100"

fun alert_loop :: "nat list \<Rightarrow> monthly_budget \<Rightarrow> nat list \<Rightarrow> nat list \<times> monthly_budget" where
  "alert_loop [] b crossed = (crossed, b)"
| "alert_loop (threshold # rest) b crossed =
     (if threshold \<in> set (mb_alerts_emitted b) then alert_loop rest b crossed
      else if percent_ceiling (mb_cap_units b) threshold \<le> mb_spent_units b
      then alert_loop rest (b\<lparr>mb_alerts_emitted := mb_alerts_emitted b @ [threshold]\<rparr>) (crossed @ [threshold])
      else alert_loop rest b crossed)"

definition record_spend :: "nat \<Rightarrow> monthly_budget \<Rightarrow> nat list \<times> monthly_budget" where
  "record_spend units b = alert_loop ALERT_THRESHOLDS (b\<lparr>mb_spent_units := sat_add_u64 (mb_spent_units b) units\<rparr>) []"

definition exceeds_cap :: "monthly_budget \<Rightarrow> bool" where
  "exceeds_cap b \<longleftrightarrow> mb_cap_units b < mb_spent_units b"


section \<open>Token costs\<close>

record model_cost =
  mc_cost_per_1k_input :: nat
  mc_cost_per_1k_output :: nat

definition round_up_per_1000 :: "nat \<Rightarrow> nat \<Rightarrow> nat" where
  "round_up_per_1000 tokens cost_per_1k = (if tokens = 0 \<or> cost_per_1k = 0 then 0
     else sat_add_u64 (sat_mul_u64 tokens cost_per_1k) 999 div 1000)"

definition simulate_cost_units :: "model_cost \<Rightarrow> nat \<Rightarrow> nat \<Rightarrow> nat" where
  "simulate_cost_units cost input_tokens output_tokens =
     sat_add_u64 (round_up_per_1000 input_tokens (mc_cost_per_1k_input cost))
       (round_up_per_1000 output_tokens (mc_cost_per_1k_output cost))"

type_synonym cost_models = "ustr \<rightharpoonup> model_cost"

definition models_with_defaults :: cost_models where
  "models_with_defaults = [
     asc ''mock-1'' \<mapsto> \<lparr>mc_cost_per_1k_input = 0, mc_cost_per_1k_output = 0\<rparr>,
     asc ''deepseek-chat'' \<mapsto> \<lparr>mc_cost_per_1k_input = 140, mc_cost_per_1k_output = 280\<rparr>,
     asc ''claude-sonnet-4-5'' \<mapsto> \<lparr>mc_cost_per_1k_input = 3000, mc_cost_per_1k_output = 15000\<rparr>,
     asc ''ollama/llama3'' \<mapsto> \<lparr>mc_cost_per_1k_input = 0, mc_cost_per_1k_output = 0\<rparr>]"

definition models_insert :: "ustr \<Rightarrow> model_cost \<Rightarrow> cost_models \<Rightarrow> cost_models" where
  "models_insert model cost models = models(model \<mapsto> cost)"

definition simulate_cost :: "cost_models \<Rightarrow> ustr \<Rightarrow> nat \<Rightarrow> nat \<Rightarrow> nat" where
  "simulate_cost models model input_tokens output_tokens = (case models model of
     Some cost \<Rightarrow> simulate_cost_units cost input_tokens output_tokens
   | None \<Rightarrow> 0)"

definition simulate_cost_with_fallback :: "cost_models \<Rightarrow> ustr \<Rightarrow> nat \<Rightarrow> nat \<Rightarrow> model_cost \<Rightarrow> nat" where
  "simulate_cost_with_fallback models model input_tokens output_tokens fallback =
     simulate_cost_units (case models model of Some cost \<Rightarrow> cost | None \<Rightarrow> fallback) input_tokens output_tokens"


section \<open>The burn detector\<close>

datatype anomaly_kind = Spike | Slope

record anomaly_event =
  an_kind :: anomaly_kind
  an_cost_units :: nat
  an_baseline_cost_per_call :: nat
  an_spike_factor_x100 :: nat
  an_window_total_units :: nat
  an_window_calls :: nat

record detector =
  dt_baseline_cost_per_call :: nat
  dt_spike_factor_x100 :: nat
  dt_slope_threshold :: nat
  dt_window_calls :: nat
  dt_history :: "nat list"

definition detector_new :: "nat \<Rightarrow> nat \<Rightarrow> nat \<Rightarrow> nat \<Rightarrow> detector" where
  "detector_new baseline spike slope window = \<lparr>dt_baseline_cost_per_call = baseline, dt_spike_factor_x100 = spike,
     dt_slope_threshold = slope, dt_window_calls = window, dt_history = []\<rparr>"

definition detector_default :: detector where
  "detector_default = detector_new 100 500 1200 4"

text \<open>Popping from the front until at most \<open>k\<close> observations are left.\<close>

fun pop_to :: "nat \<Rightarrow> nat list \<Rightarrow> nat list" where
  "pop_to k [] = []"
| "pop_to k (x # xs) = (if k < length (x # xs) then pop_to k xs else x # xs)"

definition observe :: "nat \<Rightarrow> detector \<Rightarrow> anomaly_event option \<times> detector" where
  "observe cost_units d =
     (let history = pop_to (dt_window_calls d) (dt_history d @ [cost_units]);
          d = d\<lparr>dt_history := history\<rparr>;
          window_total = fold (\<lambda>v acc. sat_add_u64 acc v) history 0;
          spike = (0 < dt_baseline_cost_per_call d \<and> 0 < dt_spike_factor_x100 d
            \<and> sat_mul_u64 (dt_baseline_cost_per_call d) (dt_spike_factor_x100 d) \<le> sat_mul_u64 cost_units 100);
          slope = (0 < dt_window_calls d \<and> length history = dt_window_calls d \<and> dt_slope_threshold d \<le> window_total);
          event = (\<lambda>kind. \<lparr>an_kind = kind, an_cost_units = cost_units,
            an_baseline_cost_per_call = dt_baseline_cost_per_call d, an_spike_factor_x100 = dt_spike_factor_x100 d,
            an_window_total_units = window_total, an_window_calls = length history\<rparr>)
      in (if spike then Some (event Spike) else if slope then Some (event Slope) else None, d))"

definition update_baseline :: "nat \<Rightarrow> detector \<Rightarrow> detector" where
  "update_baseline actual_cost d =
     (let old = dt_baseline_cost_per_call d;
          k = min (max (length (dt_history d)) 1) 20
      in if old = 0 then d\<lparr>dt_baseline_cost_per_call := actual_cost\<rparr>
         else if old \<le> actual_cost then d\<lparr>dt_baseline_cost_per_call := old + (actual_cost - old) div k\<rparr>
         else d\<lparr>dt_baseline_cost_per_call := old - (old - actual_cost) div k\<rparr>)"


section \<open>The ledger of an agent\<close>

datatype fuel_violation = OverMonthlyCap | AnomalyDetected | ProviderTokenMismatch

record model_spend =
  ms_model :: ustr
  ms_input_tokens :: nat
  ms_output_tokens :: nat
  ms_spent_units :: nat
  ms_calls :: nat

record fuel_report =
  fr_agent_id :: string
  fr_period :: ustr
  fr_cap_units :: nat
  fr_spent_units :: nat
  fr_anomalies :: "anomaly_event list"
  fr_halts :: nat
  fr_model_breakdown :: "model_spend list"

record fuel_ledger =
  fl_budget :: monthly_budget
  fl_detector :: detector
  fl_anomalies :: "anomaly_event list"
  fl_halts :: nat
  fl_model_breakdown :: "(ustr \<times> model_spend) list"

definition ledger_new :: "ustr \<Rightarrow> nat \<Rightarrow> detector \<Rightarrow> fuel_ledger" where
  "ledger_new period cap_units d = \<lparr>fl_budget = budget_new cap_units period, fl_detector = d, fl_anomalies = [],
     fl_halts = 0, fl_model_breakdown = []\<rparr>"

definition from_report :: "fuel_report \<Rightarrow> fuel_ledger" where
  "from_report report = \<lparr>
     fl_budget = \<lparr>mb_cap_units = max (fr_cap_units report) 1, mb_spent_units = fr_spent_units report,
       mb_period = fr_period report,
       mb_alerts_emitted = filter (\<lambda>threshold.
         percent_ceiling (max (fr_cap_units report) 1) threshold \<le> fr_spent_units report) ALERT_THRESHOLDS\<rparr>,
     fl_detector = detector_default, fl_anomalies = fr_anomalies report, fl_halts = fr_halts report,
     fl_model_breakdown = fold (\<lambda>entry. AList.update (ms_model entry) entry) (fr_model_breakdown report) []\<rparr>"

definition snapshot :: "string \<Rightarrow> fuel_ledger \<Rightarrow> fuel_report" where
  "snapshot agent_id l = \<lparr>fr_agent_id = agent_id, fr_period = mb_period (fl_budget l),
     fr_cap_units = mb_cap_units (fl_budget l), fr_spent_units = mb_spent_units (fl_budget l),
     fr_anomalies = fl_anomalies l, fr_halts = fl_halts l,
     fr_model_breakdown = sort_key ms_model (map snd (fl_model_breakdown l))\<rparr>"

text \<open>The audit trail a ledger writes to, with the answers its appends get. A failed append is printed
  and otherwise ignored.\<close>

record audit_env =
  av_trail :: audit_trail
  av_disk :: disk
  av_inputs :: "nat \<Rightarrow> append_input"
  av_next :: nat

definition audit_note :: "aext \<Rightarrow> string \<Rightarrow> event_type \<Rightarrow> (string \<times> json) list \<Rightarrow> audit_env \<Rightarrow> audit_env" where
  "audit_note X agent_id ty kvs env =
     (case append_event X (av_inputs env (av_next env)) agent_id ty (JObj kvs) (av_trail env) (av_disk env) of
        (r, t, d) \<Rightarrow> env\<lparr>av_trail := t, av_disk := d, av_next := av_next env + 1\<rparr>)"

definition utf8 :: "uchar \<Rightarrow> string" where
  "utf8 c = map char_of (if c < 0x80 then [c]
     else if c < 0x800 then [0xC0 + c div 64, 0x80 + c mod 64]
     else if c < 0x10000 then [0xE0 + c div 4096, 0x80 + c div 64 mod 64, 0x80 + c mod 64]
     else [0xF0 + c div 262144, 0x80 + c div 4096 mod 64, 0x80 + c div 64 mod 64, 0x80 + c mod 64])"

definition hash_evidence :: "aext \<Rightarrow> string \<Rightarrow> ustr \<Rightarrow> ustr \<Rightarrow> nat \<Rightarrow> nat \<Rightarrow> string" where
  "hash_evidence X agent_id period model_or_reason primary_units secondary_units =
     hex_encode (ax_sha256 X (agent_id @ concat (map utf8 period) @ concat (map utf8 model_or_reason)
       @ rev (be64 primary_units) @ rev (be64 secondary_units)))"

definition jnat :: "nat \<Rightarrow> json" where
  "jnat k = JInt (int k)"

definition jtext :: "string \<Rightarrow> json" where
  "jtext s = JStr (asc s)"

definition anomaly_json :: "anomaly_event \<Rightarrow> json" where
  "anomaly_json a = JObj [(''kind'', jtext (case an_kind a of Spike \<Rightarrow> ''Spike'' | Slope \<Rightarrow> ''Slope'')),
     (''cost_units'', jnat (an_cost_units a)), (''baseline_cost_per_call'', jnat (an_baseline_cost_per_call a)),
     (''spike_factor_x100'', jnat (an_spike_factor_x100 a)), (''window_total_units'', jnat (an_window_total_units a)),
     (''window_calls'', jnat (an_window_calls a))]"

definition violation_json :: "fuel_violation \<Rightarrow> json" where
  "violation_json v = jtext (case v of OverMonthlyCap \<Rightarrow> ''OverMonthlyCap'' | AnomalyDetected \<Rightarrow> ''AnomalyDetected''
     | ProviderTokenMismatch \<Rightarrow> ''ProviderTokenMismatch'')"

definition units_json :: "monthly_budget \<Rightarrow> (string \<times> json) list" where
  "units_json b = [(''spent_units'', jnat (mb_spent_units b)), (''cap_units'', jnat (mb_cap_units b))]"

definition ledger_set_period :: "aext \<Rightarrow> string \<Rightarrow> ustr \<Rightarrow> fuel_ledger \<Rightarrow> audit_env \<Rightarrow> bool \<times> fuel_ledger \<times> audit_env" where
  "ledger_set_period X agent_id period l env =
     (let previous = mb_period (fl_budget l)
      in case budget_set_period period (fl_budget l) of (changed, b) \<Rightarrow>
        if changed
        then (True, l\<lparr>fl_budget := b, fl_anomalies := [], fl_halts := 0, fl_model_breakdown := []\<rparr>,
          audit_note X agent_id StateChange [(''event_kind'', jtext ''fuel.period_set''), (''agent_id'', jtext agent_id),
            (''previous_period'', JStr previous), (''period'', JStr period), (''cap_units'', jnat (mb_cap_units b)),
            (''spent_units'', jnat (mb_spent_units b))] env)
        else (False, l\<lparr>fl_budget := b\<rparr>, env))"

definition set_cap_units :: "aext \<Rightarrow> string \<Rightarrow> nat \<Rightarrow> fuel_ledger \<Rightarrow> audit_env \<Rightarrow> fuel_ledger \<times> audit_env" where
  "set_cap_units X agent_id cap_units l env =
     (let b = (fl_budget l)\<lparr>mb_cap_units := max cap_units 1\<rparr>
      in (l\<lparr>fl_budget := b\<rparr>,
          audit_note X agent_id UserAction [(''event_kind'', jtext ''fuel.period_set''), (''agent_id'', jtext agent_id),
            (''period'', JStr (mb_period b)), (''cap_units'', jnat (mb_cap_units b)),
            (''spent_units'', jnat (mb_spent_units b))] env))"

definition spend_entry :: "ustr \<Rightarrow> nat \<Rightarrow> nat \<Rightarrow> nat \<Rightarrow> (ustr \<times> model_spend) list \<Rightarrow> (ustr \<times> model_spend) list" where
  "spend_entry model input_tokens output_tokens cost_units breakdown =
     (let entry = (case map_of breakdown model of
        Some e \<Rightarrow> e
      | None \<Rightarrow> \<lparr>ms_model = model, ms_input_tokens = 0, ms_output_tokens = 0, ms_spent_units = 0, ms_calls = 0\<rparr>)
      in AList.update model (entry\<lparr>ms_input_tokens := sat_add_u64 (ms_input_tokens entry) input_tokens,
           ms_output_tokens := sat_add_u64 (ms_output_tokens entry) output_tokens,
           ms_spent_units := sat_add_u64 (ms_spent_units entry) cost_units,
           ms_calls := sat_add_u64 (ms_calls entry) 1\<rparr>) breakdown)"

fun alert_notes :: "aext \<Rightarrow> string \<Rightarrow> monthly_budget \<Rightarrow> nat list \<Rightarrow> audit_env \<Rightarrow> audit_env" where
  "alert_notes X agent_id b [] env = env"
| "alert_notes X agent_id b (threshold # rest) env = alert_notes X agent_id b rest
     (audit_note X agent_id UserAction ([(''event_kind'', jtext ''fuel.alert_threshold_crossed''),
       (''agent_id'', jtext agent_id), (''period'', JStr (mb_period b)),
       (''threshold_percent'', jnat threshold)] @ units_json b) env)"

definition record_llm_spend :: "aext \<Rightarrow> string \<Rightarrow> ustr \<Rightarrow> nat \<Rightarrow> nat \<Rightarrow> nat \<Rightarrow> fuel_ledger \<Rightarrow> audit_env \<Rightarrow> (fuel_violation + unit) \<times> fuel_ledger \<times> audit_env" where
  "record_llm_spend X agent_id model input_tokens output_tokens cost_units l env =
     (case record_spend cost_units (fl_budget l) of (crossed, b) \<Rightarrow>
      let l = l\<lparr>fl_budget := b,
            fl_model_breakdown := spend_entry model input_tokens output_tokens cost_units (fl_model_breakdown l)\<rparr>;
          env = audit_note X agent_id LlmCall ([(''event_kind'', jtext ''fuel.spend_recorded''),
            (''agent_id'', jtext agent_id), (''period'', JStr (mb_period b)), (''model'', JStr model),
            (''input_tokens'', jnat input_tokens), (''output_tokens'', jnat output_tokens),
            (''cost_units'', jnat cost_units)] @ units_json b) env;
          env = alert_notes X agent_id b crossed env;
          evidence_hash = hash_evidence X agent_id (mb_period b) model cost_units (mb_spent_units b)
      in (case observe cost_units (fl_detector l) of
           (Some anomaly, d) \<Rightarrow>
             (Inl AnomalyDetected,
              l\<lparr>fl_detector := d, fl_anomalies := fl_anomalies l @ [anomaly], fl_halts := sat_add_u32 (fl_halts l) 1\<rparr>,
              audit_note X agent_id ErrorEvent ([(''event_kind'', jtext ''fuel.anomaly_detected''),
                (''agent_id'', jtext agent_id), (''period'', JStr (mb_period b)), (''model'', JStr model),
                (''cost_units'', jnat cost_units)] @ units_json b @ [(''anomaly'', anomaly_json anomaly),
                (''evidence_hash'', jtext evidence_hash)]) env)
         | (None, d) \<Rightarrow>
             let l = l\<lparr>fl_detector := d\<rparr>
             in if exceeds_cap b
                then (Inl OverMonthlyCap, l\<lparr>fl_halts := sat_add_u32 (fl_halts l) 1\<rparr>,
                  audit_note X agent_id ErrorEvent ([(''event_kind'', jtext ''fuel.exhausted_halt''),
                    (''agent_id'', jtext agent_id), (''period'', JStr (mb_period b)), (''model'', JStr model),
                    (''cost_units'', jnat cost_units)] @ units_json b @ [(''violation'', jtext ''OverMonthlyCap''),
                    (''evidence_hash'', jtext evidence_hash)]) env)
                else (Inr (), l, env)))"

definition register_violation :: "aext \<Rightarrow> string \<Rightarrow> fuel_violation \<Rightarrow> ustr \<Rightarrow> fuel_ledger \<Rightarrow> audit_env \<Rightarrow> fuel_ledger \<times> audit_env" where
  "register_violation X agent_id violation reason l env =
     (let b = fl_budget l;
          event_kind = (case violation of AnomalyDetected \<Rightarrow> ''fuel.anomaly_detected'' | _ \<Rightarrow> ''fuel.exhausted_halt'');
          evidence_hash = hash_evidence X agent_id (mb_period b) reason (mb_spent_units b) (mb_cap_units b)
      in (l\<lparr>fl_halts := sat_add_u32 (fl_halts l) 1\<rparr>,
          audit_note X agent_id ErrorEvent ([(''event_kind'', jtext event_kind), (''agent_id'', jtext agent_id),
            (''period'', JStr (mb_period b)), (''reason'', JStr reason)] @ units_json b @
            [(''violation'', violation_json violation), (''evidence_hash'', jtext evidence_hash)]) env))"


section \<open>The fuel context\<close>

datatype fuel_error = FuelExhausted

record fuel_context =
  fx_remaining :: nat

record fuel_reservation =
  rv_amount :: nat
  rv_committed :: bool

definition context_new :: "nat \<Rightarrow> fuel_context" where
  "context_new initial_fuel = \<lparr>fx_remaining = initial_fuel\<rparr>"

definition deduct_fuel :: "nat \<Rightarrow> fuel_context \<Rightarrow> fuel_error + fuel_context" where
  "deduct_fuel amount c = (if fx_remaining c < amount then Inl FuelExhausted
     else Inr (c\<lparr>fx_remaining := fx_remaining c - amount\<rparr>))"

definition reserve_fuel :: "nat \<Rightarrow> fuel_context \<Rightarrow> fuel_error + fuel_reservation \<times> fuel_context" where
  "reserve_fuel amount c = (if fx_remaining c < amount then Inl FuelExhausted
     else Inr (\<lparr>rv_amount = amount, rv_committed = False\<rparr>, c\<lparr>fx_remaining := fx_remaining c - amount\<rparr>))"

text \<open>The end of a reservation's life returns its fuel unless it was committed.\<close>

definition drop_reservation :: "fuel_reservation \<Rightarrow> fuel_context \<Rightarrow> fuel_context" where
  "drop_reservation r c = (if \<not> rv_committed r then c\<lparr>fx_remaining := fx_remaining c + rv_amount r\<rparr> else c)"

text \<open>\<open>commit\<close> and \<open>cancel\<close> take the reservation, so its life ends with the call.\<close>

definition commit_reservation :: "fuel_reservation \<Rightarrow> fuel_context \<Rightarrow> fuel_context" where
  "commit_reservation r c = drop_reservation (r\<lparr>rv_committed := True\<rparr>) c"

definition cancel_reservation :: "fuel_reservation \<Rightarrow> fuel_context \<Rightarrow> fuel_context" where
  "cancel_reservation r c =
     (if \<not> rv_committed r
      then drop_reservation (r\<lparr>rv_committed := True\<rparr>) (c\<lparr>fx_remaining := fx_remaining c + rv_amount r\<rparr>)
      else drop_reservation r c)"

text \<open>A context shared by any number of holders: each call is one step under the lock. The fuel consumed
  so far is what was deducted and what was committed.\<close>

record fuel_system =
  fs_context :: fuel_context
  fs_open :: "fuel_reservation list"
  fs_consumed :: nat

inductive fuel_step :: "fuel_system \<Rightarrow> fuel_system \<Rightarrow> bool" where
  deduct: "deduct_fuel amount (fs_context s) = Inr c \<Longrightarrow>
    fuel_step s (s\<lparr>fs_context := c, fs_consumed := fs_consumed s + amount\<rparr>)"
| refused: "deduct_fuel amount (fs_context s) = Inl err \<or> reserve_fuel amount (fs_context s) = Inl err \<Longrightarrow> fuel_step s s"
| reserve: "reserve_fuel amount (fs_context s) = Inr (r, c) \<Longrightarrow> fuel_step s (s\<lparr>fs_context := c, fs_open := r # fs_open s\<rparr>)"
| commit: "r \<in> set (fs_open s) \<Longrightarrow> fuel_step s (s\<lparr>fs_context := commit_reservation r (fs_context s),
    fs_open := remove1 r (fs_open s), fs_consumed := fs_consumed s + rv_amount r\<rparr>)"
| cancel: "r \<in> set (fs_open s) \<Longrightarrow> fuel_step s (s\<lparr>fs_context := cancel_reservation r (fs_context s),
    fs_open := remove1 r (fs_open s)\<rparr>)"
| drop: "r \<in> set (fs_open s) \<Longrightarrow> fuel_step s (s\<lparr>fs_context := drop_reservation r (fs_context s),
    fs_open := remove1 r (fs_open s)\<rparr>)"

definition fuel_init :: "nat \<Rightarrow> fuel_system" where
  "fuel_init initial_fuel = \<lparr>fs_context = context_new initial_fuel, fs_open = [], fs_consumed = 0\<rparr>"

definition fuel_balance :: "fuel_system \<Rightarrow> nat" where
  "fuel_balance s = fx_remaining (fs_context s) + sum_list (map rv_amount (fs_open s)) + fs_consumed s"

lemma fuel_step_inv:
  assumes "fuel_step s s'" "list_all (\<lambda>r. \<not> rv_committed r) (fs_open s)"
  shows "fuel_balance s' = fuel_balance s \<and> list_all (\<lambda>r. \<not> rv_committed r) (fs_open s')"
proof -
  have take: "sum_list (map rv_amount (fs_open s)) = rv_amount r + sum_list (map rv_amount (remove1 r (fs_open s)))"
      "list_all (\<lambda>r. \<not> rv_committed r) (remove1 r (fs_open s))" "\<not> rv_committed r"
    if "r \<in> set (fs_open s)" for r
    using that assms(2) by (auto simp: sum_list_map_remove1 list_all_iff dest: notin_set_remove1)
  from assms(1) show ?thesis
  proof cases
    case (deduct amount c)
    then show ?thesis using assms(2) by (auto simp: deduct_fuel_def fuel_balance_def split: if_split_asm)
  next
    case (reserve amount r c)
    then show ?thesis using assms(2) by (auto simp: reserve_fuel_def fuel_balance_def split: if_split_asm)
  qed (use assms(2) take in \<open>auto simp: commit_reservation_def cancel_reservation_def drop_reservation_def fuel_balance_def\<close>)
qed

interpretation fuel_runs: step_invariant fuel_step "\<lambda>s. list_all (\<lambda>r. \<not> rv_committed r) (fs_open s)" "\<lambda>s t. fuel_balance t = fuel_balance s"
  by unfold_locales (use fuel_step_inv in auto)

text \<open>C31: fuel is neither made nor lost. However many holders deduct, reserve, commit, cancel or drop in
  whatever order, the remaining fuel, the open reservations and what was consumed add up to the initial
  budget. So the consumed fuel never passes it, no return can overflow, and once every reservation is
  settled the remaining fuel is exactly the initial budget less the consumption.\<close>

theorem fuel_conserved:
  assumes "fuel_step\<^sup>*\<^sup>* (fuel_init initial_fuel) s"
  shows "fx_remaining (fs_context s) + sum_list (map rv_amount (fs_open s)) + fs_consumed s = initial_fuel
    \<and> fs_consumed s \<le> initial_fuel
    \<and> (\<forall>r \<in> set (fs_open s). fx_remaining (fs_context s) + rv_amount r \<le> initial_fuel)
    \<and> (fs_open s = [] \<longrightarrow> fx_remaining (fs_context s) = initial_fuel - fs_consumed s)"
proof -
  have "fuel_balance s = initial_fuel \<and> list_all (\<lambda>r. \<not> rv_committed r) (fs_open s)"
    using fuel_runs.run [OF assms] by (simp add: fuel_init_def fuel_balance_def context_new_def)
  moreover have "rv_amount r \<le> sum_list (map rv_amount (fs_open s))" if "r \<in> set (fs_open s)" for r
    using that by (simp add: member_le_sum_list)
  ultimately show ?thesis by (fastforce simp: fuel_balance_def)
qed

theorem fuel_conserved_witness:
  "\<exists>s. fuel_step\<^sup>*\<^sup>* (fuel_init 10) s \<and> fs_consumed s = 4 \<and> fs_open s = [] \<and> fx_remaining (fs_context s) = 6"
proof -
  let ?r = "\<lparr>rv_amount = 4, rv_committed = False\<rparr>"
  let ?s1 = "\<lparr>fs_context = \<lparr>fx_remaining = 6\<rparr>, fs_open = [?r], fs_consumed = 0\<rparr>"
  let ?s2 = "\<lparr>fs_context = \<lparr>fx_remaining = 6\<rparr>, fs_open = [], fs_consumed = 4\<rparr>"
  have "fuel_step (fuel_init 10) ?s1"
    using fuel_step.reserve [of 4 "fuel_init 10" ?r "\<lparr>fx_remaining = 6\<rparr>"]
    by (simp add: fuel_init_def context_new_def reserve_fuel_def)
  moreover have "fuel_step ?s1 ?s2"
    using fuel_step.commit [of ?r ?s1] by (simp add: commit_reservation_def drop_reservation_def)
  ultimately have r: "fuel_step\<^sup>*\<^sup>* (fuel_init 10) ?s2" by (meson converse_rtranclp_into_rtranclp rtranclp.rtrancl_refl)
  then show ?thesis using fuel_conserved [OF r] by (intro exI [of _ ?s2]) simp
qed


section \<open>Alerts, outcomes and restored ledgers\<close>

definition reached :: "monthly_budget \<Rightarrow> nat \<Rightarrow> bool" where
  "reached b threshold \<longleftrightarrow> percent_ceiling (mb_cap_units b) threshold \<le> mb_spent_units b"

definition alerts_ok :: "monthly_budget \<Rightarrow> bool" where
  "alerts_ok b \<longleftrightarrow> mb_spent_units b \<le> U64_MAX \<and> mb_alerts_emitted b = filter (reached b) ALERT_THRESHOLDS"

lemma percent_ceiling_mono: "p \<le> q \<Longrightarrow> percent_ceiling v p \<le> percent_ceiling v q"
  unfolding percent_ceiling_def sat_add_u64_def sat_mul_u64_def
  by (intro div_le_mono min.mono add_mono mult_le_mono order.refl)

lemma percent_ceiling_exact:
  "v * p + 99 \<le> U64_MAX \<Longrightarrow> percent_ceiling v p \<le> spent \<longleftrightarrow> v * p \<le> 100 * spent"
  by (auto simp: percent_ceiling_def sat_add_u64_def sat_mul_u64_def min_def)

lemma record_spend_alerts:
  assumes "record_spend units b = (crossed, b')" "alerts_ok b"
  shows "alerts_ok b'" "crossed = filter (\<lambda>p. reached b' p \<and> \<not> reached b p) ALERT_THRESHOLDS"
    "mb_spent_units b' = sat_add_u64 (mb_spent_units b) units" "mb_cap_units b' = mb_cap_units b" "mb_period b' = mb_period b"
proof -
  let ?p = "percent_ceiling (mb_cap_units b)" and ?s = "mb_spent_units b" and ?s' = "sat_add_u64 (mb_spent_units b) units"
  have mono: "?p 70 \<le> ?p 100" "?p 100 \<le> ?p 120" by (simp_all add: percent_ceiling_mono)
  have em: "mb_alerts_emitted b = filter (\<lambda>q. ?p q \<le> ?s) [70, 100, 120]"
    using assms(2) by (simp add: alerts_ok_def reached_def ALERT_THRESHOLDS_def)
  have up: "?s \<le> ?s'" "?s' \<le> U64_MAX" using assms(2) by (simp_all add: alerts_ok_def sat_add_u64_def)
  note facts = up mono em
  show "alerts_ok b'" "crossed = filter (\<lambda>p. reached b' p \<and> \<not> reached b p) ALERT_THRESHOLDS"
    "mb_spent_units b' = ?s'" "mb_cap_units b' = mb_cap_units b" "mb_period b' = mb_period b"
    using assms(1) facts
    by (auto simp: record_spend_def ALERT_THRESHOLDS_def alerts_ok_def reached_def split: if_split_asm)
qed

definition ledger_ok :: "fuel_ledger \<Rightarrow> bool" where
  "ledger_ok l \<longleftrightarrow> alerts_ok (fl_budget l) \<and> 1 \<le> mb_cap_units (fl_budget l)
     \<and> distinct (map fst (fl_model_breakdown l)) \<and> list_all (\<lambda>(k, e). ms_model e = k) (fl_model_breakdown l)"

lemma alerts_ok_fresh: "1 \<le> cap \<Longrightarrow> alerts_ok \<lparr>mb_cap_units = cap, mb_spent_units = 0, mb_period = p, mb_alerts_emitted = []\<rparr>"
proof -
  assume cap: "1 \<le> cap"
  have "1 \<le> percent_ceiling cap q" if "1 \<le> q" for q
  proof -
    have "1 * 1 \<le> cap * q" using cap that by (intro mult_le_mono) simp_all
    then have "100 \<le> sat_add_u64 (sat_mul_u64 cap q) 99" by (simp add: sat_add_u64_def sat_mul_u64_def U64_MAX_def)
    then show ?thesis by (simp add: percent_ceiling_def)
  qed
  from this [of 70] this [of 100] this [of 120] show ?thesis by (simp add: alerts_ok_def reached_def ALERT_THRESHOLDS_def)
qed

lemma ledger_ok_new: "ledger_ok (ledger_new period cap d)"
  using alerts_ok_fresh [of "max cap 1" period] by (simp add: ledger_ok_def ledger_new_def budget_new_def)

lemma ledger_ok_set_period:
  assumes "ledger_ok l" "ledger_set_period X agent period l env = (changed, l', env')"
  shows "ledger_ok l'"
  using assms alerts_ok_fresh [of "mb_cap_units (fl_budget l)" period]
  by (cases "fl_budget l")
    (auto simp: ledger_set_period_def budget_set_period_def ledger_ok_def Let_def split: if_split_asm)

lemma ledger_ok_violation: "ledger_ok l \<Longrightarrow> ledger_ok (fst (register_violation X agent v reason l env))"
  by (simp add: register_violation_def ledger_ok_def Let_def)

lemma spend_entry_ok:
  assumes "distinct (map fst bd)" "list_all (\<lambda>(k, e). ms_model e = k) bd"
  shows "distinct (map fst (spend_entry model i out cost bd))"
    "list_all (\<lambda>(k, e). ms_model e = k) (spend_entry model i out cost bd)"
proof -
  have ent: "ms_model (case map_of bd model of Some e \<Rightarrow> e
      | None \<Rightarrow> \<lparr>ms_model = model, ms_input_tokens = 0, ms_output_tokens = 0, ms_spent_units = 0, ms_calls = 0\<rparr>) = model"
    using assms(2) by (auto simp: list_all_iff dest: map_of_SomeD split: option.split)
  have upd: "list_all (\<lambda>(k, e). ms_model e = k) (AList.update model v xs)"
    if "list_all (\<lambda>(k, e). ms_model e = k) xs" "ms_model v = model" for v xs
    using that by (induction xs) auto
  show "distinct (map fst (spend_entry model i out cost bd))" using assms(1) by (simp add: spend_entry_def Let_def distinct_update)
  show "list_all (\<lambda>(k, e). ms_model e = k) (spend_entry model i out cost bd)"
    unfolding spend_entry_def Let_def by (rule upd) (use assms(2) ent in simp_all)
qed

lemma spend_ledger:
  assumes "ledger_ok l" "record_llm_spend X agent model i out cost l env = (r, l', env')"
  shows "ledger_ok l'" "mb_spent_units (fl_budget l') = sat_add_u64 (mb_spent_units (fl_budget l)) cost"
    "mb_cap_units (fl_budget l') = mb_cap_units (fl_budget l)"
proof -
  obtain crossed b where b: "record_spend cost (fl_budget l) = (crossed, b)" by fastforce
  have ok: "alerts_ok (fl_budget l)" using assms(1) by (simp add: ledger_ok_def)
  have l': "fl_budget l' = b" "fl_model_breakdown l' = spend_entry model i out cost (fl_model_breakdown l)"
    using assms(2) b by (auto simp: record_llm_spend_def Let_def split: option.split_asm if_split_asm prod.split_asm)
  note rs = record_spend_alerts [OF b ok]
  show "mb_spent_units (fl_budget l') = sat_add_u64 (mb_spent_units (fl_budget l)) cost"
    "mb_cap_units (fl_budget l') = mb_cap_units (fl_budget l)" using l' rs by simp_all
  show "ledger_ok l'" using assms(1) l' rs(1,4) spend_entry_ok by (simp add: ledger_ok_def)
qed


definition sample_ledger :: fuel_ledger where
  "sample_ledger = ledger_new (asc ''m'') 100 detector_default"

definition sample_env :: audit_env where
  "sample_env = \<lparr>av_trail = audit_new, av_disk = empty_disk, av_inputs = (\<lambda>k. sample_input DoWritten), av_next = 0\<rparr>"


lemma fold_update_lookup:
  "map_of (fold (\<lambda>e. AList.update (f e) e) es al) k =
     (case find (\<lambda>e. f e = k) (rev es) of Some e \<Rightarrow> Some e | None \<Rightarrow> map_of al k)"
proof (induction es arbitrary: al)
  case (Cons e es)
  have "find P (xs @ [y]) = (case find P xs of None \<Rightarrow> if P y then Some y else None | Some z \<Rightarrow> Some z)" for P xs and y :: 'a
    by (induction xs) auto
  then show ?case using Cons by (simp add: update_conv' split: option.split)
qed simp

text \<open>A ledger is restored from its report. The ledger rebuilt from the snapshot of a well-formed
  ledger has the same budget, with the same alerts already raised, the same anomalies and halts, and
  the same spend for every model; only the detector starts afresh.\<close>

lemma ledger_restores:
  assumes "ledger_ok l"
  shows "fl_budget (from_report (snapshot agent l)) = fl_budget l
    \<and> fl_anomalies (from_report (snapshot agent l)) = fl_anomalies l
    \<and> fl_halts (from_report (snapshot agent l)) = fl_halts l
    \<and> map_of (fl_model_breakdown (from_report (snapshot agent l))) = map_of (fl_model_breakdown l)"
proof -
  let ?es = "sort_key ms_model (map snd (fl_model_breakdown l))"
  have al: "alerts_ok (fl_budget l)" "max (mb_cap_units (fl_budget l)) 1 = mb_cap_units (fl_budget l)"
    using assms by (simp_all add: ledger_ok_def max_def)
  have "fl_budget (from_report (snapshot agent l)) = fl_budget l"
    using al by (cases "fl_budget l") (simp add: from_report_def snapshot_def alerts_ok_def reached_def [abs_def])
  moreover have "map_of (fl_model_breakdown (from_report (snapshot agent l))) k = map_of (fl_model_breakdown l) k" for k
  proof -
    have d: "distinct (map fst (fl_model_breakdown l))" and m: "\<forall>(k, e) \<in> set (fl_model_breakdown l). ms_model e = k"
      using assms by (auto simp: ledger_ok_def list_all_iff)
    have "find (\<lambda>e. ms_model e = k) (rev ?es) = map_of (fl_model_breakdown l) k"
    proof (cases "map_of (fl_model_breakdown l) k")
      case None
      then have "find (\<lambda>e. ms_model e = k) (rev ?es) = None" using m by (force simp: find_None_iff map_of_eq_None_iff)
      then show ?thesis using None by simp
    next
      case (Some e)
      have e: "e \<in> set (rev ?es)" "ms_model e = k" using map_of_SomeD [OF Some] m by force+
      then obtain e' where e': "find (\<lambda>e. ms_model e = k) (rev ?es) = Some e'"
        by (cases "find (\<lambda>e. ms_model e = k) (rev ?es)") (auto simp: find_None_iff)
      then have "(k, e') \<in> set (fl_model_breakdown l)" using find_SomeD [OF e'] m by auto
      then show ?thesis using e' d Some by simp
    qed
    then show ?thesis by (simp add: from_report_def snapshot_def fold_update_lookup split: option.split)
  qed
  ultimately show ?thesis by (simp add: from_report_def snapshot_def fun_eq_iff)
qed

lemma ledger_restores_sample:
  "ledger_ok sample_ledger \<and> fl_budget (from_report (snapshot ''a'' sample_ledger)) = fl_budget sample_ledger"
proof -
  have ok: "ledger_ok sample_ledger" unfolding sample_ledger_def by (rule ledger_ok_new)
  then show ?thesis using ledger_restores [OF ok, of "''a''"] by blast
qed

end
