(* ===== verification/Kernel_Policy.thy ===== *)
theory Kernel_Policy
  imports Kernel_Fuel
begin

text \<open>Who may act in the kernel: autonomy levels with their guard (\<^verbatim>\<open>src/kernel/src/autonomy.rs\<close>), the policy
  engine (\<^verbatim>\<open>policy_engine/engine.rs\<close>), capability names (\<^verbatim>\<open>capabilities.rs\<close>) and the life cycle of an agent
  (\<^verbatim>\<open>lifecycle.rs\<close>). Reading the directory and TOML are arguments of the loading.\<close>


section \<open>Autonomy levels\<close>

datatype autonomy_level = L0 | L1 | L2 | L3 | L4 | L5 | L6

primrec level_rank :: "autonomy_level \<Rightarrow> nat" where
  "level_rank L0 = 0"
| "level_rank L1 = 1"
| "level_rank L2 = 2"
| "level_rank L3 = 3"
| "level_rank L4 = 4"
| "level_rank L5 = 5"
| "level_rank L6 = 6"

lemma level_rank_inj: "level_rank a = level_rank b \<Longrightarrow> a = b"
  by (cases a; cases b) simp_all

instantiation autonomy_level :: linorder
begin

definition less_eq_autonomy_level :: "autonomy_level \<Rightarrow> autonomy_level \<Rightarrow> bool" where
  "less_eq_autonomy_level a b \<longleftrightarrow> level_rank a \<le> level_rank b"

definition less_autonomy_level :: "autonomy_level \<Rightarrow> autonomy_level \<Rightarrow> bool" where
  "less_autonomy_level a b \<longleftrightarrow> level_rank a < level_rank b"

instance
  by standard (auto simp: less_eq_autonomy_level_def less_autonomy_level_def intro: level_rank_inj)

end

lemmas level_order = less_eq_autonomy_level_def less_autonomy_level_def

primrec level_as_str :: "autonomy_level \<Rightarrow> string" where
  "level_as_str L0 = ''L0''"
| "level_as_str L1 = ''L1''"
| "level_as_str L2 = ''L2''"
| "level_as_str L3 = ''L3''"
| "level_as_str L4 = ''L4''"
| "level_as_str L5 = ''L5''"
| "level_as_str L6 = ''L6''"

definition from_numeric :: "nat \<Rightarrow> autonomy_level option" where
  "from_numeric v = (if v = 0 then Some L0 else if v = 1 then Some L1 else if v = 2 then Some L2
     else if v = 3 then Some L3 else if v = 4 then Some L4 else if v = 5 then Some L5
     else if v = 6 then Some L6 else None)"

definition from_manifest :: "nat option \<Rightarrow> autonomy_level" where
  "from_manifest v = (case Option.bind v from_numeric of Some level \<Rightarrow> level | None \<Rightarrow> L0)"

primrec previous :: "autonomy_level \<Rightarrow> autonomy_level" where
  "previous L0 = L0"
| "previous L1 = L0"
| "previous L2 = L1"
| "previous L3 = L2"
| "previous L4 = L3"
| "previous L5 = L4"
| "previous L6 = L5"

definition to_ascii_uppercase :: "ustr \<Rightarrow> ustr" where
  "to_ascii_uppercase s = map (\<lambda>c. if 97 \<le> c \<and> c \<le> 122 then c - 32 else c) s"

text \<open>\<open>FromStr\<close>: the unknown text is the error's.\<close>

definition level_from_str :: "ustr \<Rightarrow> ustr + autonomy_level" where
  "level_from_str v = (let t = to_ascii_uppercase (trim v) in
     if t \<in> {asc ''L0'', asc ''0''} then Inr L0 else if t \<in> {asc ''L1'', asc ''1''} then Inr L1
     else if t \<in> {asc ''L2'', asc ''2''} then Inr L2 else if t \<in> {asc ''L3'', asc ''3''} then Inr L3
     else if t \<in> {asc ''L4'', asc ''4''} then Inr L4 else if t \<in> {asc ''L5'', asc ''5''} then Inr L5
     else if t \<in> {asc ''L6'', asc ''6''} then Inr L6 else Inl t)"


section \<open>The policy engine\<close>

datatype hitl_tier = Tier0 | Tier1 | Tier2 | Tier3

datatype policy_effect = PeAllow | PeDeny

record policy_conditions =
  pc_min_autonomy_level :: "nat option"
  pc_max_fuel_cost :: "nat option"
  pc_required_approvers :: "nat option"
  pc_time_window :: "ustr option"

record policy =
  po_policy_id :: ustr
  po_description :: ustr
  po_effect :: policy_effect
  po_principal :: ustr
  po_action :: ustr
  po_resource :: ustr
  po_priority :: nat
  po_conditions :: policy_conditions

record evaluation_context =
  ec_autonomy_level :: autonomy_level
  ec_fuel_cost :: "nat option"

datatype policy_decision = PdAllow | PdDeny ustr | PdRequireApproval hitl_tier

definition strip_suffix :: "ustr \<Rightarrow> ustr \<Rightarrow> ustr option" where
  "strip_suffix suf s = (if length suf \<le> length s \<and> drop (length s - length suf) s = suf
     then Some (take (length s - length suf) s) else None)"

definition starts_with :: "ustr \<Rightarrow> ustr \<Rightarrow> bool" where
  "starts_with s pre \<longleftrightarrow> take (length pre) s = pre"

definition pattern_matches :: "ustr \<Rightarrow> ustr \<Rightarrow> bool" where
  "pattern_matches pat v = (if pat = asc ''*'' then True
     else case strip_suffix (asc ''.*'') pat of
       Some pre \<Rightarrow> v = pre \<or> starts_with v (pre @ asc ''.'')
     | None \<Rightarrow> pat = v)"

definition autonomy_level_from_u8 :: "nat \<Rightarrow> autonomy_level" where
  "autonomy_level_from_u8 v = (case from_numeric v of Some level \<Rightarrow> level | None \<Rightarrow> L6)"

definition conditions_met :: "policy \<Rightarrow> evaluation_context \<Rightarrow> bool" where
  "conditions_met p ctx =
     (if (case pc_min_autonomy_level (po_conditions p) of
            None \<Rightarrow> False | Some min_level \<Rightarrow> ec_autonomy_level ctx < autonomy_level_from_u8 min_level) then False
      else if (case pc_max_fuel_cost (po_conditions p) of
            None \<Rightarrow> False
          | Some max_fuel \<Rightarrow> (case ec_fuel_cost ctx of None \<Rightarrow> False | Some cost \<Rightarrow> max_fuel < cost)) then False
      else True)"

text \<open>The order of priority, then denials first; the sort is stable.\<close>

definition policy_key :: "policy \<Rightarrow> nat" where
  "policy_key p = 2 * po_priority p + (case po_effect p of PeDeny \<Rightarrow> 0 | PeAllow \<Rightarrow> 1)"

definition sort_policies :: "policy list \<Rightarrow> policy list" where
  "sort_policies ps = sort_key policy_key ps"

definition with_policies :: "policy list \<Rightarrow> policy list" where
  "with_policies ps = sort_policies ps"

text \<open>Loading: what the directory shows, and for each entry whether it is a TOML file and how it reads.\<close>

datatype policy_error = PolicyLoadError | PolicyParseError

datatype dir_entry = EntryUnreadable | EntryOther | EntryToml "policy_error + policy"

datatype policy_dir = DirMissing | DirUnreadable | DirEntries "dir_entry list"

fun load_entries :: "dir_entry list \<Rightarrow> policy list \<Rightarrow> (policy_error + unit) \<times> policy list" where
  "load_entries [] loaded = (Inr (), loaded)"
| "load_entries (EntryUnreadable # rest) loaded = (Inl PolicyLoadError, loaded)"
| "load_entries (EntryOther # rest) loaded = load_entries rest loaded"
| "load_entries (EntryToml (Inl err) # rest) loaded = (Inl err, loaded)"
| "load_entries (EntryToml (Inr p) # rest) loaded = load_entries rest (loaded @ [p])"

definition load_policies :: "policy_dir \<Rightarrow> (policy_error + nat) \<times> policy list" where
  "load_policies d = (case d of
     DirMissing \<Rightarrow> (Inr 0, [])
   | DirUnreadable \<Rightarrow> (Inl PolicyLoadError, [])
   | DirEntries entries \<Rightarrow> (case load_entries entries [] of
       (Inl err, loaded) \<Rightarrow> (Inl err, loaded)
     | (Inr u, loaded) \<Rightarrow> (Inr (length loaded), sort_policies loaded)))"

definition policy_applies :: "ustr \<Rightarrow> ustr \<Rightarrow> ustr \<Rightarrow> evaluation_context \<Rightarrow> policy \<Rightarrow> bool" where
  "policy_applies who action resource ctx p =
     (if \<not> pattern_matches (po_principal p) who then False
      else if \<not> pattern_matches (po_action p) action then False
      else if \<not> pattern_matches (po_resource p) resource then False
      else conditions_met p ctx)"

definition denial_reason :: "policy \<Rightarrow> ustr" where
  "denial_reason p = (if po_description p = []
     then asc ''denied by policy '' @ [39] @ po_policy_id p @ [39] else po_description p)"

definition approval_tier :: "nat \<Rightarrow> hitl_tier" where
  "approval_tier approvers = (if approvers = 0 then Tier0 else if approvers = 1 then Tier1
     else if approvers = 2 then Tier2 else Tier3)"

fun evaluate_loop :: "ustr \<Rightarrow> ustr \<Rightarrow> ustr \<Rightarrow> evaluation_context \<Rightarrow> policy list \<Rightarrow> policy option \<Rightarrow> policy_decision" where
  "evaluate_loop who action resource ctx [] found_allow = (case found_allow of
     Some p \<Rightarrow> (case pc_required_approvers (po_conditions p) of
         Some approvers \<Rightarrow> PdRequireApproval (approval_tier approvers)
       | None \<Rightarrow> PdAllow)
   | None \<Rightarrow> PdDeny (asc ''no matching policy (default deny)''))"
| "evaluate_loop who action resource ctx (p # rest) found_allow =
     (if \<not> policy_applies who action resource ctx p
      then evaluate_loop who action resource ctx rest found_allow
      else case po_effect p of
        PeDeny \<Rightarrow> PdDeny (denial_reason p)
      | PeAllow \<Rightarrow> evaluate_loop who action resource ctx rest
          (case found_allow of None \<Rightarrow> Some p | Some q \<Rightarrow> Some q))"

definition evaluate :: "policy list \<Rightarrow> ustr \<Rightarrow> ustr \<Rightarrow> ustr \<Rightarrow> evaluation_context \<Rightarrow> policy_decision" where
  "evaluate policies who action resource ctx = evaluate_loop who action resource ctx policies None"

definition has_policies :: "policy list \<Rightarrow> bool" where
  "has_policies policies \<longleftrightarrow> policies \<noteq> []"


section \<open>The autonomy guard\<close>

record autonomy_denied =
  ad_required :: autonomy_level
  ad_current :: autonomy_level
  ad_action :: string
  ad_downgraded_to :: "autonomy_level option"

record policy_hooks =
  ph_tool_call_min :: autonomy_level
  ph_multi_agent_min :: autonomy_level
  ph_self_modification_min :: autonomy_level
  ph_distributed_min :: autonomy_level

definition hooks_default :: policy_hooks where
  "hooks_default = \<lparr>ph_tool_call_min = L1, ph_multi_agent_min = L2, ph_self_modification_min = L4, ph_distributed_min = L5\<rparr>"

record autonomy_guard =
  ag_level :: autonomy_level
  ag_hooks :: policy_hooks

definition guard_new :: "autonomy_level \<Rightarrow> autonomy_guard" where
  "guard_new level = \<lparr>ag_level = level, ag_hooks = hooks_default\<rparr>"

definition guard_with_hooks :: "autonomy_level \<Rightarrow> policy_hooks \<Rightarrow> autonomy_guard" where
  "guard_with_hooks level hooks = \<lparr>ag_level = level, ag_hooks = hooks\<rparr>"

definition downgrade :: "aext \<Rightarrow> string \<Rightarrow> autonomy_level \<Rightarrow> string \<Rightarrow> string \<Rightarrow> autonomy_guard \<Rightarrow> audit_env \<Rightarrow> autonomy_guard \<times> audit_env" where
  "downgrade X actor new_level action reason g env =
     (let prev = ag_level g;
          g = g\<lparr>ag_level := min new_level prev\<rparr>
      in (g, audit_note X actor StateChange [(''event'', jtext ''autonomy.level_changed''), (''action'', jtext action),
            (''previous_level'', jtext (level_as_str prev)), (''new_level'', jtext (level_as_str (ag_level g))),
            (''reason'', jtext reason)] env))"

definition denial_text :: "string \<Rightarrow> autonomy_level \<Rightarrow> autonomy_level \<Rightarrow> string" where
  "denial_text action required current = ''action '' @ [CHR 0x27] @ action @ [CHR 0x27] @ '' requires '' @
     level_as_str required @ '' while current level is '' @ level_as_str current"

definition require_level :: "aext \<Rightarrow> string \<Rightarrow> autonomy_level \<Rightarrow> string \<Rightarrow> autonomy_guard \<Rightarrow> audit_env \<Rightarrow> (autonomy_denied + unit) \<times> autonomy_guard \<times> audit_env" where
  "require_level X actor required action g env =
     (if required \<le> ag_level g then (Inr (), g, env)
      else
       (let current = ag_level g
        in case downgrade X actor (previous current) action (denial_text action required current) g env of
             (g', env') \<Rightarrow> (Inl \<lparr>ad_required = required, ad_current = current, ad_action = action,
               ad_downgraded_to = Some (ag_level g')\<rparr>, g', env')))"

type_synonym guard_call = "aext \<Rightarrow> string \<Rightarrow> autonomy_guard \<Rightarrow> audit_env \<Rightarrow> (autonomy_denied + unit) \<times> autonomy_guard \<times> audit_env"

definition require_tool_call :: guard_call where
  "require_tool_call X actor g env = require_level X actor (ph_tool_call_min (ag_hooks g)) ''tool_call'' g env"

definition require_multi_agent :: guard_call where
  "require_multi_agent X actor g env = require_level X actor (ph_multi_agent_min (ag_hooks g)) ''multi_agent'' g env"

definition require_self_modification :: guard_call where
  "require_self_modification X actor g env =
     require_level X actor (ph_self_modification_min (ag_hooks g)) ''self_modification'' g env"

definition require_distributed :: guard_call where
  "require_distributed X actor g env = require_level X actor (ph_distributed_min (ag_hooks g)) ''distributed'' g env"

definition require_self_evolution :: guard_call where
  "require_self_evolution X actor g env = require_level X actor L4 ''self_evolution'' g env"

definition require_agent_creation :: guard_call where
  "require_agent_creation X actor g env = require_level X actor L4 ''agent_creation'' g env"

definition require_governance_modification :: guard_call where
  "require_governance_modification X actor g env = require_level X actor L5 ''governance_modification'' g env"

definition require_sovereign_action :: guard_call where
  "require_sovereign_action X actor g env = require_level X actor L5 ''sovereign_action'' g env"

definition require_cognitive_modification :: guard_call where
  "require_cognitive_modification X actor g env = require_level X actor L6 ''cognitive_modification'' g env"

definition require_multi_model_orchestration :: guard_call where
  "require_multi_model_orchestration X actor g env = require_level X actor L6 ''multi_model_orchestration'' g env"

definition require_algorithm_selection :: guard_call where
  "require_algorithm_selection X actor g env = require_level X actor L6 ''algorithm_selection'' g env"

definition require_ecosystem_design :: guard_call where
  "require_ecosystem_design X actor g env = require_level X actor L6 ''ecosystem_design'' g env"

primrec stricter :: "autonomy_level \<Rightarrow> autonomy_level" where
  "stricter L0 = L1"
| "stricter L1 = L2"
| "stricter L2 = L3"
| "stricter L3 = L4"
| "stricter L4 = L5"
| "stricter L5 = L6"
| "stricter L6 = L6"

definition require_level_with_policy :: "aext \<Rightarrow> string \<Rightarrow> autonomy_level \<Rightarrow> string \<Rightarrow> policy list option \<Rightarrow> autonomy_guard \<Rightarrow> audit_env \<Rightarrow> (autonomy_denied + unit) \<times> autonomy_guard \<times> audit_env" where
  "require_level_with_policy X actor default_required action engine g env =
     (case engine of
        None \<Rightarrow> require_level X actor default_required action g env
      | Some policies \<Rightarrow>
          if \<not> has_policies policies then require_level X actor default_required action g env
          else (case evaluate policies (asc actor) (asc action) (asc ''*'')
                 \<lparr>ec_autonomy_level = ag_level g, ec_fuel_cost = None\<rparr> of
             PdDeny reason \<Rightarrow>
               if ag_level g < L5 then require_level X actor L5 action g env
               else require_level X actor L5 action g env
           | PdAllow \<Rightarrow> require_level X actor default_required action g env
           | PdRequireApproval tier \<Rightarrow> require_level X actor (stricter default_required) action g env))"


section \<open>Capabilities and the life cycle\<close>

definition canonical_capability :: "string \<Rightarrow> string" where
  "canonical_capability c = (if c = ''shell.execute'' then ''process.exec'' else if c = ''web.fetch'' then ''web.read''
     else if c = ''api.call'' then ''mcp.call'' else c)"

definition capability_matches :: "string \<Rightarrow> string \<Rightarrow> bool" where
  "capability_matches granted required \<longleftrightarrow> canonical_capability granted = canonical_capability required"

definition IMPLICIT_CAPABILITIES :: "string list" where
  "IMPLICIT_CAPABILITIES = [''llm.query'']"

definition has_capability :: "string list \<Rightarrow> string \<Rightarrow> bool" where
  "has_capability capabilities required =
     (if canonical_capability required \<in> set IMPLICIT_CAPABILITIES then True
      else list_ex (\<lambda>c. capability_matches c required) capabilities)"

datatype agent_state = AsCreated | AsStarting | AsRunning | AsPaused | AsStopping | AsStopped | AsDestroyed

definition is_valid_transition :: "agent_state \<Rightarrow> agent_state \<Rightarrow> bool" where
  "is_valid_transition from_state to_state = (case from_state of
     AsCreated \<Rightarrow> to_state = AsStarting
   | AsStarting \<Rightarrow> to_state \<in> {AsRunning, AsStopped}
   | AsRunning \<Rightarrow> to_state \<in> {AsPaused, AsStopping}
   | AsPaused \<Rightarrow> to_state \<in> {AsRunning, AsStopping}
   | AsStopping \<Rightarrow> to_state = AsStopped
   | AsStopped \<Rightarrow> to_state \<in> {AsStarting, AsDestroyed}
   | AsDestroyed \<Rightarrow> False)"

definition transition_state :: "agent_state \<Rightarrow> agent_state \<Rightarrow> agent_state \<times> agent_state + agent_state" where
  "transition_state from_state to_state = (if is_valid_transition from_state to_state then Inr to_state
     else Inl (from_state, to_state))"

text \<open>A required capability is granted under its canonical name; an agent, once destroyed, stays so, and
  is destroyed only from a stop.\<close>

lemma has_capability_iff:
  "has_capability cs required \<longleftrightarrow> canonical_capability required = ''llm.query''
     \<or> canonical_capability required \<in> canonical_capability ` set cs"
  by (auto simp: has_capability_def IMPLICIT_CAPABILITIES_def capability_matches_def list_ex_iff intro: image_eqI [OF sym])

lemma destroyed_final: "transition_state AsDestroyed s = Inl (AsDestroyed, s)"
  by (simp add: transition_state_def is_valid_transition_def)

lemma destroyed_from_stopped: "transition_state s AsDestroyed = Inr u \<longleftrightarrow> s = AsStopped \<and> u = AsDestroyed"
  by (cases s) (auto simp: transition_state_def is_valid_transition_def)


section \<open>What the engine decides\<close>

lemma evaluate_loop_eq:
  "evaluate_loop pr ac re ctx ps found = (case List.find (\<lambda>p. policy_applies pr ac re ctx p \<and> po_effect p = PeDeny) ps of
     Some p \<Rightarrow> PdDeny (denial_reason p)
   | None \<Rightarrow> evaluate_loop pr ac re ctx [] (case found of Some q \<Rightarrow> Some q | None \<Rightarrow> List.find (policy_applies pr ac re ctx) ps))"
  by (induction ps arbitrary: found) (auto split: option.split policy_effect.split)

lemma sorted_find_least:
  "sorted (map f xs) \<Longrightarrow> List.find P xs = Some x \<Longrightarrow> x \<in> set xs \<and> P x \<and> (\<forall>y \<in> set xs. P y \<longrightarrow> f x \<le> f y)"
  by (induction xs) (auto split: if_split_asm)

text \<open>C33: the engine denies by default and a denial overrides. Over the policies loaded in any order, the
  decision is not a denial exactly when some policy that applies allows and none that applies denies.
  Then it is the decision of an applying policy of the least priority number: allowed outright when
  that policy asks for no approvers, otherwise the tier of the number it asks for.\<close>

theorem policy_decides:
  assumes "decision = evaluate (with_policies ps) who action resource ctx"
    and "applies = policy_applies who action resource ctx"
  shows "((\<forall>reason. decision \<noteq> PdDeny reason) \<longleftrightarrow>
      (\<exists>p \<in> set ps. applies p) \<and> (\<forall>p \<in> set ps. applies p \<longrightarrow> po_effect p = PeAllow))
    \<and> ((\<forall>reason. decision \<noteq> PdDeny reason) \<longrightarrow>
      (\<exists>p \<in> set ps. applies p \<and> (\<forall>q \<in> set ps. applies q \<longrightarrow> po_priority p \<le> po_priority q)
        \<and> decision = (case pc_required_approvers (po_conditions p) of
            Some k \<Rightarrow> PdRequireApproval (approval_tier k) | None \<Rightarrow> PdAllow)))"
proof -
  let ?ps = "sort_key policy_key ps"
  let ?deny = "List.find (\<lambda>p. applies p \<and> po_effect p = PeDeny) ?ps"
  have d: "decision = (case ?deny of Some p \<Rightarrow> PdDeny (denial_reason p)
      | None \<Rightarrow> evaluate_loop who action resource ctx [] (List.find applies ?ps))"
    using assms by (simp add: evaluate_def with_policies_def sort_policies_def evaluate_loop_eq [of _ _ _ _ ?ps]
        del: evaluate_loop.simps cong: option.case_cong)
  show ?thesis
  proof (cases ?deny)
    case (Some p)
    then have "p \<in> set ps" "applies p" "po_effect p = PeDeny" using find_SomeD [OF Some] by auto
    then show ?thesis using d Some by force
  next
    case None
    then have allow: "\<forall>p \<in> set ps. applies p \<longrightarrow> po_effect p = PeAllow"
      by (auto simp: find_None_iff) (metis policy_effect.exhaust)
    show ?thesis
    proof (cases "List.find applies ?ps")
      case no: None
      then have "\<forall>p \<in> set ps. \<not> applies p" by (auto simp: find_None_iff)
      then show ?thesis using d None no by simp
    next
      case (Some p)
      have p: "p \<in> set ps" "applies p" "\<forall>q \<in> set ps. applies q \<longrightarrow> policy_key p \<le> policy_key q"
        using sorted_find_least [OF _ Some, of policy_key] by auto
      have "\<forall>q \<in> set ps. applies q \<longrightarrow> po_priority p \<le> po_priority q"
        using p allow by (force simp: policy_key_def)
      moreover have "decision = (case pc_required_approvers (po_conditions p) of
            Some k \<Rightarrow> PdRequireApproval (approval_tier k) | None \<Rightarrow> PdAllow)"
        using d None Some by simp
      ultimately show ?thesis using p allow by (auto split: option.split)
    qed
  qed
qed

definition sample_policy :: "policy_effect \<Rightarrow> string \<Rightarrow> nat \<Rightarrow> nat option \<Rightarrow> policy" where
  "sample_policy eff act prio approvers = \<lparr>po_policy_id = asc ''p'', po_description = [], po_effect = eff, po_principal = asc ''*'',
     po_action = asc act, po_resource = asc ''*'', po_priority = prio, po_conditions = \<lparr>pc_min_autonomy_level = None,
     pc_max_fuel_cost = None, pc_required_approvers = approvers, pc_time_window = None\<rparr>\<rparr>"

lemmas policy_eval = evaluate_def policy_applies_def pattern_matches_def conditions_met_def strip_suffix_def starts_with_def
  sample_policy_def asc_def

theorem policy_decides_witness:
  "\<exists>reason. evaluate (with_policies [sample_policy PeAllow ''*'' 1 None, sample_policy PeDeny ''web.*'' 2 None])
     (asc ''a'') (asc ''web.read'') (asc ''*'') \<lparr>ec_autonomy_level = L2, ec_fuel_cost = None\<rparr> = PdDeny reason"
proof -
  let ?ps = "[sample_policy PeAllow ''*'' 1 None, sample_policy PeDeny ''web.*'' 2 None]"
  let ?ctx = "\<lparr>ec_autonomy_level = L2, ec_fuel_cost = None\<rparr>"
  have "policy_applies (asc ''a'') (asc ''web.read'') (asc ''*'') ?ctx (sample_policy PeDeny ''web.*'' 2 None)"
    by (simp add: policy_eval)
  moreover have "po_effect (sample_policy PeDeny ''web.*'' 2 None) \<noteq> PeAllow" by (simp add: sample_policy_def)
  ultimately show ?thesis
    using policy_decides [OF refl refl, of ?ps "asc ''a''" "asc ''web.read''" "asc ''*''" ?ctx] by auto
qed

text \<open>C34: what a policy does to the required autonomy. The guard lets an action pass exactly when the
  level reaches the required one: the default without policies or when they allow it, one level
  stricter when they ask for approval, and L5 when they deny it. So a denied action still passes at L5
  and L6, and a denial lowers the requirement of an action that by default needs L6. Every refusal
  takes the guard down one level, and passing changes nothing.\<close>

theorem autonomy_policy:
  assumes "require_level_with_policy X actor default_required action engine g env = (r, g', env')"
    and "needed = (case engine of
        None \<Rightarrow> default_required
      | Some policies \<Rightarrow> if policies = [] then default_required
          else (case evaluate policies (asc actor) (asc action) (asc ''*'') \<lparr>ec_autonomy_level = ag_level g, ec_fuel_cost = None\<rparr> of
            PdAllow \<Rightarrow> default_required | PdRequireApproval tier \<Rightarrow> stricter default_required | PdDeny reason \<Rightarrow> L5))"
  shows "(r = Inr () \<longleftrightarrow> needed \<le> ag_level g) \<and> ag_hooks g' = ag_hooks g \<and> (r = Inr () \<longrightarrow> g' = g \<and> env' = env)
    \<and> (r \<noteq> Inr () \<longrightarrow> ag_level g' = previous (ag_level g)
        \<and> r = Inl \<lparr>ad_required = needed, ad_current = ag_level g, ad_action = action,
            ad_downgraded_to = Some (previous (ag_level g))\<rparr>)"
proof -
  have "require_level X actor needed action g env = (r, g', env')"
    using assms by (auto simp: require_level_with_policy_def has_policies_def split: option.split_asm if_split_asm policy_decision.split_asm)
  moreover have "min (previous l) l = previous l" for l by (cases l) (simp_all add: min_def level_order)
  ultimately show ?thesis by (auto simp: require_level_def downgrade_def Let_def split: if_split_asm)
qed

theorem autonomy_policy_witness:
  "\<exists>reason. evaluate [sample_policy PeDeny ''*'' 100 None] (asc ''a'') (asc ''cognitive_modification'') (asc ''*'')
       \<lparr>ec_autonomy_level = L5, ec_fuel_cost = None\<rparr> = PdDeny reason
   \<and> fst (require_level_with_policy sample_aext ''a'' L6 ''cognitive_modification''
       (Some [sample_policy PeDeny ''*'' 100 None]) (guard_new L5) sample_env) = Inr ()"
proof -
  let ?p = "sample_policy PeDeny ''*'' 100 None"
  obtain r g' env' where r: "require_level_with_policy sample_aext ''a'' L6 ''cognitive_modification'' (Some [?p]) (guard_new L5) sample_env
      = (r, g', env')"
    by (metis prod_cases3)
  have e: "evaluate [?p] (asc ''a'') (asc ''cognitive_modification'') (asc ''*'')
       \<lparr>ec_autonomy_level = L5, ec_fuel_cost = None\<rparr> = PdDeny (denial_reason ?p)"
    by (simp add: policy_eval)
  then have "r = Inr ()" using autonomy_policy [OF r refl] by (simp add: guard_new_def)
  then show ?thesis using e r by simp
qed

end
