(* ===== verification/Kernel_Consent.thy ===== *)
theory Kernel_Consent
  imports Kernel_Policy "HOL-Library.Char_ord" "HOL-Library.List_Lexorder"
begin

text \<open>Human consent to governed operations (\<^verbatim>\<open>src/kernel/src/consent.rs\<close>): tiers, the consent policies, the
  approval queue and the runtime that enforces an operation. SHA-256 and \<open>serde_json\<close>, the parser of
  identifiers and the debug text of a path are the parameter record \<open>cext\<close>; the clock and the outcome of writing the queue's
  file are answers the environment gives to a call.\<close>


section \<open>Operations and policies\<close>

instantiation hitl_tier :: linorder
begin

definition tier_rank :: "hitl_tier \<Rightarrow> nat" where
  "tier_rank t = (case t of Tier0 \<Rightarrow> 0 | Tier1 \<Rightarrow> 1 | Tier2 \<Rightarrow> 2 | Tier3 \<Rightarrow> 3)"

definition less_eq_hitl_tier :: "hitl_tier \<Rightarrow> hitl_tier \<Rightarrow> bool" where
  "less_eq_hitl_tier a b \<longleftrightarrow> tier_rank a \<le> tier_rank b"

definition less_hitl_tier :: "hitl_tier \<Rightarrow> hitl_tier \<Rightarrow> bool" where
  "less_hitl_tier a b \<longleftrightarrow> tier_rank a < tier_rank b"

instance
  by standard (auto simp: less_eq_hitl_tier_def less_hitl_tier_def tier_rank_def split: hitl_tier.splits)

end

lemmas tier_order = less_eq_hitl_tier_def less_hitl_tier_def tier_rank_def

primrec tier_as_str :: "hitl_tier \<Rightarrow> string" where
  "tier_as_str Tier0 = ''tier0''"
| "tier_as_str Tier1 = ''tier1''"
| "tier_as_str Tier2 = ''tier2''"
| "tier_as_str Tier3 = ''tier3''"

primrec approvals_required :: "hitl_tier \<Rightarrow> bool \<Rightarrow> nat" where
  "approvals_required Tier0 auto_approve_tier1 = 0"
| "approvals_required Tier1 auto_approve_tier1 = (if auto_approve_tier1 then 0 else 1)"
| "approvals_required Tier2 auto_approve_tier1 = 1"
| "approvals_required Tier3 auto_approve_tier1 = 2"

datatype governed_operation =
  GoToolCall | GoTerminalCommand | GoSocialPostPublish | GoSelfMutationApply | GoMultiAgentOrchestrate
| GoDistributedEnable | GoTimeMachineUndo | GoSelfEvolution | GoAgentLifecycleManage | GoGovernancePolicyModify
| GoEcosystemFuelAllocate | GoSovereignPromotion | GoTranscendentCreation | GoA2aDelegation
| GoMcpExternalToolCall | GoIntegrationSend

primrec operation_as_str :: "governed_operation \<Rightarrow> string" where
  "operation_as_str GoToolCall = ''tool_call''"
| "operation_as_str GoTerminalCommand = ''terminal_command''"
| "operation_as_str GoSocialPostPublish = ''social_post_publish''"
| "operation_as_str GoSelfMutationApply = ''self_mutation_apply''"
| "operation_as_str GoMultiAgentOrchestrate = ''multi_agent_orchestrate''"
| "operation_as_str GoDistributedEnable = ''distributed_enable''"
| "operation_as_str GoTimeMachineUndo = ''time_machine_undo''"
| "operation_as_str GoSelfEvolution = ''self_evolution''"
| "operation_as_str GoAgentLifecycleManage = ''agent_lifecycle_manage''"
| "operation_as_str GoGovernancePolicyModify = ''governance_policy_modify''"
| "operation_as_str GoEcosystemFuelAllocate = ''ecosystem_fuel_allocate''"
| "operation_as_str GoSovereignPromotion = ''sovereign_promotion''"
| "operation_as_str GoTranscendentCreation = ''transcendent_creation''"
| "operation_as_str GoA2aDelegation = ''a2a_delegation''"
| "operation_as_str GoMcpExternalToolCall = ''mcp_external_tool_call''"
| "operation_as_str GoIntegrationSend = ''integration_send''"

record operation_consent_policy =
  oc_required_tier :: hitl_tier
  oc_allowed_approvers :: "string list"

type_synonym consent_policies = "governed_operation \<rightharpoonup> operation_consent_policy"

definition default_tier :: "governed_operation \<Rightarrow> hitl_tier" where
  "default_tier op = (if op \<in> {GoToolCall, GoTimeMachineUndo, GoIntegrationSend} then Tier1
     else if op \<in> {GoSelfMutationApply, GoDistributedEnable, GoGovernancePolicyModify, GoSovereignPromotion,
       GoTranscendentCreation} then Tier3 else Tier2)"

definition consent_default :: consent_policies where
  "consent_default = (\<lambda>op. Some \<lparr>oc_required_tier = default_tier op, oc_allowed_approvers = []\<rparr>)"

text \<open>\<open>from_policy_key\<close> reads the texts of \<open>operation_as_str\<close>.\<close>

definition operations :: "governed_operation list" where
  "operations = [GoToolCall, GoTerminalCommand, GoSocialPostPublish, GoSelfMutationApply, GoMultiAgentOrchestrate,
     GoDistributedEnable, GoTimeMachineUndo, GoSelfEvolution, GoAgentLifecycleManage, GoGovernancePolicyModify,
     GoEcosystemFuelAllocate, GoSovereignPromotion, GoTranscendentCreation, GoA2aDelegation, GoMcpExternalToolCall,
     GoIntegrationSend]"

definition from_policy_key :: "string \<Rightarrow> governed_operation option" where
  "from_policy_key key = List.find (\<lambda>op. operation_as_str op = key) operations"

definition normalized :: "operation_consent_policy \<Rightarrow> operation_consent_policy" where
  "normalized p = p\<lparr>oc_allowed_approvers := remdups_adj (sort (oc_allowed_approvers p))\<rparr>"

definition set_policy :: "governed_operation \<Rightarrow> hitl_tier \<Rightarrow> string list \<Rightarrow> consent_policies \<Rightarrow> consent_policies" where
  "set_policy op tier approvers ps = ps(op \<mapsto> normalized \<lparr>oc_required_tier = tier, oc_allowed_approvers = approvers\<rparr>)"

text \<open>Loading the operations of a policy file in the order of their keys; \<open>None\<close> for an unknown operation.\<close>

fun load_operations :: "(string \<times> hitl_tier option \<times> string list) list \<Rightarrow> consent_policies \<Rightarrow> consent_policies option" where
  "load_operations [] ps = Some ps"
| "load_operations ((key, tier, approvers) # rest) ps = (case from_policy_key key of
     None \<Rightarrow> None
   | Some op \<Rightarrow>
       (let current = (case ps op of Some p \<Rightarrow> p | None \<Rightarrow> \<lparr>oc_required_tier = Tier2, oc_allowed_approvers = []\<rparr>)
        in load_operations rest (ps(op \<mapsto> normalized \<lparr>
             oc_required_tier = (case tier of Some t \<Rightarrow> t | None \<Rightarrow> oc_required_tier current),
             oc_allowed_approvers = (if approvers = [] then oc_allowed_approvers current else approvers)\<rparr>))))"

definition load_consent_policies :: "(string \<times> hitl_tier option \<times> string list) list \<Rightarrow> consent_policies option" where
  "load_consent_policies ops = load_operations ops consent_default"

definition required_tier :: "consent_policies \<Rightarrow> governed_operation \<Rightarrow> hitl_tier" where
  "required_tier ps op = (case ps op of Some p \<Rightarrow> oc_required_tier p | None \<Rightarrow> Tier2)"

definition allowed_approvers :: "consent_policies \<Rightarrow> governed_operation \<Rightarrow> string list" where
  "allowed_approvers ps op = (case ps op of Some p \<Rightarrow> oc_allowed_approvers p | None \<Rightarrow> [])"


section \<open>The approval queue\<close>

record approval_request =
  rq_id :: string
  rq_operation :: governed_operation
  rq_agent_id :: string
  rq_payload_hash :: string
  rq_requested_by :: string
  rq_required_tier :: hitl_tier
  rq_created_seq :: nat
  rq_min_review_seconds :: "nat option"

datatype approval_verdict = VdApprove | VdDeny

record approval_decision =
  dc_id :: string
  dc_approver_id :: string
  dc_decision :: approval_verdict
  dc_signature :: "string option"
  dc_decision_seq :: nat

record approval_record =
  ar_request :: approval_request
  ar_approvals :: "string list"
  ar_denials :: "string list"
  ar_decisions :: "approval_decision list"
  ar_executed :: bool
  ar_fingerprint :: string
  ar_created_at_unix :: nat

datatype consent_error =
  CeApprovalRequired string governed_operation hitl_tier
| CeRequestDenied string
| CeRequestNotFound string
| CeDuplicateApprover string string
| CeApproverNotAllowed string string
| CeSelfApprovalRejected string string
| CeQueueStorage
| CePolicyDenied ustr
| CeAuditFailed
| CeNoApproversConfigured string
| CePayloadIntegrityFailed string

datatype approval_state = StPending | StApproved | StDenied

record approval_queue =
  aq_records :: "string \<rightharpoonup> approval_record"
  aq_fingerprint_index :: "string \<rightharpoonup> string"
  aq_storage_path :: "string option"
  aq_auto_approve_tier1 :: bool
  aq_approval_timeout_secs :: nat

definition queue_in_memory :: approval_queue where
  "queue_in_memory = \<lparr>aq_records = Map.empty, aq_fingerprint_index = Map.empty, aq_storage_path = None,
     aq_auto_approve_tier1 = True, aq_approval_timeout_secs = 86400\<rparr>"

text \<open>The queue read back from its file: the records in the order of the file.\<close>

definition queue_file_backed :: "string \<Rightarrow> approval_record list option \<Rightarrow> approval_queue" where
  "queue_file_backed path stored = (case stored of
     None \<Rightarrow> queue_in_memory\<lparr>aq_storage_path := Some path\<rparr>
   | Some rcds \<Rightarrow> fold (\<lambda>rcd q. q\<lparr>
         aq_fingerprint_index := (if ar_executed rcd then aq_fingerprint_index q
           else (aq_fingerprint_index q)(ar_fingerprint rcd \<mapsto> rq_id (ar_request rcd))),
         aq_records := (aq_records q)(rq_id (ar_request rcd) \<mapsto> rcd)\<rparr>)
       rcds (queue_in_memory\<lparr>aq_storage_path := Some path\<rparr>))"

text \<open>The code outside the program, and the answers of the environment to one call: the clock in seconds,
  whether the queue's file can be written, and the signature a signer gives.\<close>

record cext =
  cx_audit :: aext
  cx_json :: "json \<Rightarrow> string"
  cx_parse_uuid :: "string \<Rightarrow> string"
  cx_path_debug :: "string \<Rightarrow> string"

record consent_input =
  ci_now :: nat
  ci_stored :: bool
  ci_signature :: "string option"

definition canonical_hash :: "cext \<Rightarrow> json \<Rightarrow> string" where
  "canonical_hash C j = ax_sha256 (cx_audit C) (cx_json C j)"

definition request_fields :: "governed_operation \<Rightarrow> string \<Rightarrow> string \<Rightarrow> string \<Rightarrow> hitl_tier \<Rightarrow> (string \<times> json) list" where
  "request_fields op agent payload_hash requested_by tier = [(''operation'', jtext (operation_as_str op)),
     (''agent_id'', jtext agent), (''payload_hash'', jtext payload_hash), (''requested_by'', jtext requested_by),
     (''required_tier'', jtext (tier_as_str tier))]"

definition compute_fingerprint :: "cext \<Rightarrow> governed_operation \<Rightarrow> string \<Rightarrow> string \<Rightarrow> string \<Rightarrow> hitl_tier \<Rightarrow> string" where
  "compute_fingerprint C op agent payload_hash requested_by tier =
     hex_encode (canonical_hash C (JObj (request_fields op agent payload_hash requested_by tier)))"

definition derive_request_id :: "cext \<Rightarrow> nat \<Rightarrow> governed_operation \<Rightarrow> string \<Rightarrow> string \<Rightarrow> string \<Rightarrow> hitl_tier \<Rightarrow> string" where
  "derive_request_id C created_seq op agent payload_hash requested_by tier =
     ''req-'' @ hex_encode (canonical_hash C (JObj ((''created_seq'', jnat created_seq) # request_fields op agent payload_hash requested_by tier)))"

definition hash_payload :: "cext \<Rightarrow> string \<Rightarrow> string" where
  "hash_payload C payload = hex_encode (ax_sha256 (cx_audit C) payload)"

definition next_audit_sequence :: "audit_env \<Rightarrow> nat" where
  "next_audit_sequence env = length (at_events (av_trail env)) + 1"

definition request_from_operation :: "string \<Rightarrow> governed_operation \<Rightarrow> string \<Rightarrow> string \<Rightarrow> string \<Rightarrow> hitl_tier \<Rightarrow> nat \<Rightarrow> approval_request" where
  "request_from_operation i op agent payload_hash requested_by tier created_seq =
     \<lparr>rq_id = i, rq_operation = op, rq_agent_id = agent, rq_payload_hash = payload_hash, rq_requested_by = requested_by,
      rq_required_tier = tier, rq_created_seq = created_seq,
      rq_min_review_seconds = (if op = GoTranscendentCreation then Some 60 else None)\<rparr>"

text \<open>An append whose failure the caller sees.\<close>

definition audit_try :: "cext \<Rightarrow> string \<Rightarrow> event_type \<Rightarrow> (string \<times> json) list \<Rightarrow> audit_env \<Rightarrow> (consent_error + unit) \<times> audit_env" where
  "audit_try C agent ty kvs env =
     (case append_event (cx_audit C) (av_inputs env (av_next env)) agent ty (JObj kvs) (av_trail env) (av_disk env) of
        (r, t, d) \<Rightarrow> ((case r of Inl err \<Rightarrow> Inl CeAuditFailed | Inr u \<Rightarrow> Inr ()),
           env\<lparr>av_trail := t, av_disk := d, av_next := av_next env + 1\<rparr>))"

definition consent_event :: "cext \<Rightarrow> string \<Rightarrow> event_type \<Rightarrow> approval_request \<Rightarrow> string list \<Rightarrow> string \<Rightarrow> audit_env \<Rightarrow> (consent_error + unit) \<times> audit_env" where
  "consent_event C event ty req approver_ids outcome env =
     audit_try C (cx_parse_uuid C (rq_agent_id req)) ty
       [(''event'', jtext event), (''request_id'', jtext (rq_id req)), (''operation'', jtext (operation_as_str (rq_operation req))),
        (''required_tier'', jtext (tier_as_str (rq_required_tier req))), (''payload_hash'', jtext (rq_payload_hash req)),
        (''approver_ids'', JArr (map jtext approver_ids)), (''decision_result'', jtext outcome)] env"

definition append_requested_event :: "cext \<Rightarrow> approval_request \<Rightarrow> audit_env \<Rightarrow> (consent_error + unit) \<times> audit_env" where
  "append_requested_event C req env = consent_event C ''consent.requested'' UserAction req [] ''pending'' env"

definition append_decision_event :: "cext \<Rightarrow> approval_request \<Rightarrow> approval_decision \<Rightarrow> audit_env \<Rightarrow> (consent_error + unit) \<times> audit_env" where
  "append_decision_event C req d env = (case dc_decision d of
     VdApprove \<Rightarrow> consent_event C ''consent.approved'' UserAction req [dc_approver_id d] ''approved'' env
   | VdDeny \<Rightarrow> consent_event C ''consent.denied'' UserAction req [dc_approver_id d] ''denied'' env)"

definition append_executed_event :: "cext \<Rightarrow> approval_request \<Rightarrow> string list \<Rightarrow> audit_env \<Rightarrow> (consent_error + unit) \<times> audit_env" where
  "append_executed_event C req approver_ids env = consent_event C ''consent.executed'' StateChange req approver_ids ''executed'' env"

definition persist :: "consent_input \<Rightarrow> approval_queue \<Rightarrow> consent_error + unit" where
  "persist io q = (case aq_storage_path q of None \<Rightarrow> Inr () | Some path \<Rightarrow> if ci_stored io then Inr () else Inl CeQueueStorage)"

definition request_or_get :: "cext \<Rightarrow> consent_input \<Rightarrow> governed_operation \<Rightarrow> string \<Rightarrow> string \<Rightarrow> string \<Rightarrow> hitl_tier \<Rightarrow> approval_queue \<Rightarrow> audit_env \<Rightarrow> (consent_error + approval_request) \<times> approval_queue \<times> audit_env" where
  "request_or_get C io op agent payload_hash requested_by tier q env =
     (let fp = compute_fingerprint C op agent payload_hash requested_by tier
      in case Option.bind (aq_fingerprint_index q fp) (aq_records q) of
           Some rcd \<Rightarrow> (Inr (ar_request rcd), q, env)
         | None \<Rightarrow>
            (let seq = next_audit_sequence env;
                 i = derive_request_id C seq op agent payload_hash requested_by tier;
                 req = request_from_operation i op agent payload_hash requested_by tier seq;
                 rcd = \<lparr>ar_request = req, ar_approvals = [], ar_denials = [], ar_decisions = [], ar_executed = False,
                   ar_fingerprint = fp, ar_created_at_unix = ci_now io\<rparr>;
                 q' = q\<lparr>aq_records := (aq_records q)(i \<mapsto> rcd), aq_fingerprint_index := (aq_fingerprint_index q)(fp \<mapsto> i)\<rparr>
             in case append_requested_event C req env of
                  (Inl err, env') \<Rightarrow> (Inl err, q', env')
                | (Inr u, env') \<Rightarrow> (case persist io q' of Inl err \<Rightarrow> (Inl err, q', env') | Inr v \<Rightarrow> (Inr req, q', env'))))"

definition decide :: "consent_input \<Rightarrow> string \<Rightarrow> string \<Rightarrow> approval_verdict \<Rightarrow> nat \<Rightarrow> approval_record \<Rightarrow> approval_record \<times> approval_decision" where
  "decide io i approver verdict seq rcd =
     (let rcd = (case verdict of
              VdApprove \<Rightarrow> rcd\<lparr>ar_approvals := insort approver (ar_approvals rcd)\<rparr>
            | VdDeny \<Rightarrow> rcd\<lparr>ar_denials := insort approver (ar_denials rcd)\<rparr>);
          d = \<lparr>dc_id = i, dc_approver_id = approver, dc_decision = verdict,
            dc_signature = (if Tier2 \<le> rq_required_tier (ar_request rcd) then ci_signature io else None), dc_decision_seq = seq\<rparr>
      in (rcd\<lparr>ar_decisions := ar_decisions rcd @ [d]\<rparr>, d))"

definition submit_decision :: "cext \<Rightarrow> consent_input \<Rightarrow> string \<Rightarrow> string \<Rightarrow> approval_verdict \<Rightarrow> string list \<Rightarrow> approval_queue \<Rightarrow> audit_env \<Rightarrow> (consent_error + approval_decision) \<times> approval_queue \<times> audit_env" where
  "submit_decision C io i approver verdict allowed q env = (case aq_records q i of
     None \<Rightarrow> (Inl (CeRequestNotFound i), q, env)
   | Some rcd \<Rightarrow>
      if approver = rq_requested_by (ar_request rcd) then (Inl (CeSelfApprovalRejected i approver), q, env)
      else if allowed = [] then (Inl (CeNoApproversConfigured i), q, env)
      else if approver \<notin> set allowed then (Inl (CeApproverNotAllowed i approver), q, env)
      else if approver \<in> set (ar_approvals rcd) \<or> approver \<in> set (ar_denials rcd) then (Inl (CeDuplicateApprover i approver), q, env)
      else (case decide io i approver verdict (next_audit_sequence env) rcd of
         (rcd', d) \<Rightarrow>
           (let q' = q\<lparr>aq_records := (aq_records q)(i \<mapsto> rcd')\<rparr>
            in case append_decision_event C (ar_request rcd') d env of
                 (Inl err, env') \<Rightarrow> (Inl err, q', env')
               | (Inr u, env') \<Rightarrow> (case persist io q' of Inl err \<Rightarrow> (Inl err, q', env') | Inr v \<Rightarrow> (Inr d, q', env')))))"

definition timed_out :: "nat \<Rightarrow> approval_queue \<Rightarrow> approval_record \<Rightarrow> bool" where
  "timed_out now q rcd \<longleftrightarrow> \<not> ar_executed rcd \<and> 0 < aq_approval_timeout_secs q \<and> 0 < ar_created_at_unix rcd
     \<and> aq_approval_timeout_secs q < now - ar_created_at_unix rcd"

definition approval_state_of :: "nat \<Rightarrow> approval_queue \<Rightarrow> string \<Rightarrow> consent_error + approval_state" where
  "approval_state_of now q i = (case aq_records q i of
     None \<Rightarrow> Inl (CeRequestNotFound i)
   | Some rcd \<Rightarrow>
      if ar_denials rcd \<noteq> [] then Inr StDenied
      else if timed_out now q rcd then Inr StDenied
      else (let needed = approvals_required (rq_required_tier (ar_request rcd)) (aq_auto_approve_tier1 q)
            in if needed = 0 \<or> needed \<le> length (ar_approvals rcd) then Inr StApproved else Inr StPending))"

definition mark_executed :: "cext \<Rightarrow> consent_input \<Rightarrow> string \<Rightarrow> approval_queue \<Rightarrow> audit_env \<Rightarrow> (consent_error + unit) \<times> approval_queue \<times> audit_env" where
  "mark_executed C io i q env = (case approval_state_of (ci_now io) q i of
     Inl err \<Rightarrow> (Inl err, q, env)
   | Inr st \<Rightarrow>
      if st = StDenied then (Inl (CeRequestDenied i), q, env)
      else (case aq_records q i of
         None \<Rightarrow> (Inl (CeRequestNotFound i), q, env)
       | Some rcd \<Rightarrow>
          if ar_executed rcd then (Inr (), q, env)
          else (let needed = approvals_required (rq_required_tier (ar_request rcd)) (aq_auto_approve_tier1 q)
                in if 0 < needed \<and> length (ar_approvals rcd) < needed
                   then (Inl (CeApprovalRequired i (rq_operation (ar_request rcd)) (rq_required_tier (ar_request rcd))), q, env)
                   else (let rcd' = rcd\<lparr>ar_executed := True\<rparr>;
                             q' = q\<lparr>aq_records := (aq_records q)(i \<mapsto> rcd'),
                               aq_fingerprint_index := (aq_fingerprint_index q)(ar_fingerprint rcd := None)\<rparr>
                         in case append_executed_event C (ar_request rcd') (ar_approvals rcd') env of
                              (Inl err, env') \<Rightarrow> (Inl err, q', env')
                            | (Inr u, env') \<Rightarrow> (persist io q', q', env')))))"


section \<open>The runtime\<close>

record consent_runtime =
  cr_policies :: consent_policies
  cr_queue :: approval_queue
  cr_requester_id :: string
  cr_cedar :: "policy list option"

definition consent_new :: "consent_policies \<Rightarrow> approval_queue \<Rightarrow> string \<Rightarrow> consent_runtime" where
  "consent_new ps q requester = \<lparr>cr_policies = ps, cr_queue = q, cr_requester_id = requester, cr_cedar = None\<rparr>"

text \<open>\<open>None\<close> is the refusal of a manifest that names a policy file.\<close>

definition consent_from_manifest :: "string option \<Rightarrow> ustr option \<Rightarrow> string \<Rightarrow> consent_runtime option" where
  "consent_from_manifest consent_policy_path requester_id default_requester =
     (if consent_policy_path \<noteq> None then None
      else let requester = (case requester_id of
               Some v \<Rightarrow> if trim v = [] then default_requester else concat (map utf8 (trim v))
             | None \<Rightarrow> default_requester)
           in Some (consent_new consent_default queue_in_memory requester))"

definition set_cedar_engine :: "policy list \<Rightarrow> consent_runtime \<Rightarrow> consent_runtime" where
  "set_cedar_engine policies rt = rt\<lparr>cr_cedar := Some policies\<rparr>"

definition enforce_with_tier :: "cext \<Rightarrow> consent_input \<Rightarrow> governed_operation \<Rightarrow> string \<Rightarrow> string \<Rightarrow> hitl_tier \<Rightarrow> consent_runtime \<Rightarrow> audit_env \<Rightarrow> (consent_error + unit) \<times> consent_runtime \<times> audit_env" where
  "enforce_with_tier C io op agent payload tier rt env =
     (if tier = Tier0 then (Inr (), rt, env)
      else (let payload_hash = hash_payload C payload
            in case request_or_get C io op agent payload_hash (cr_requester_id rt) tier (cr_queue rt) env of
                 (Inl err, q, env) \<Rightarrow> (Inl err, rt\<lparr>cr_queue := q\<rparr>, env)
               | (Inr req, q, env) \<Rightarrow>
                   (let rt = rt\<lparr>cr_queue := q\<rparr>;
                        run = (case mark_executed C io (rq_id req) q env of (r, q, env) \<Rightarrow> (r, rt\<lparr>cr_queue := q\<rparr>, env))
                    in if rq_payload_hash req \<noteq> payload_hash then (Inl (CePayloadIntegrityFailed (rq_id req)), rt, env)
                       else if tier = Tier1 then run
                       else (case approval_state_of (ci_now io) q (rq_id req) of
                           Inl err \<Rightarrow> (Inl err, rt, env)
                         | Inr StApproved \<Rightarrow> run
                         | Inr StDenied \<Rightarrow> (Inl (CeRequestDenied (rq_id req)), rt, env)
                         | Inr StPending \<Rightarrow> (Inl (CeApprovalRequired (rq_id req) op tier), rt, env)))))"

definition enforce_operation :: "cext \<Rightarrow> consent_input \<Rightarrow> governed_operation \<Rightarrow> string \<Rightarrow> string \<Rightarrow> consent_runtime \<Rightarrow> audit_env \<Rightarrow> (consent_error + unit) \<times> consent_runtime \<times> audit_env" where
  "enforce_operation C io op agent payload rt env =
     (if op \<in> {GoSovereignPromotion, GoTranscendentCreation, GoGovernancePolicyModify, GoSelfMutationApply, GoAgentLifecycleManage}
      then enforce_with_tier C io op agent payload Tier3 rt env
      else (case cr_cedar rt of
          Some policies \<Rightarrow>
            if has_policies policies
            then (case evaluate policies (asc agent) (asc (operation_as_str op)) (asc ''*'') \<lparr>ec_autonomy_level = L0, ec_fuel_cost = None\<rparr> of
                PdAllow \<Rightarrow>
                  (let tier = required_tier (cr_policies rt) op
                   in if Tier2 \<le> tier
                      then (case audit_try C agent StateChange [(''event'', jtext ''consent.cedar_allow_blocked''),
                                (''operation'', jtext (operation_as_str op)), (''decision'', jtext ''allow''),
                                (''default_tier'', jtext (tier_as_str tier)), (''reason'', jtext ''cedar_allow_cannot_override_tier2_plus'')] env of
                           (Inl err, env') \<Rightarrow> (Inl err, rt, env')
                         | (Inr u, env') \<Rightarrow> enforce_with_tier C io op agent payload tier rt env')
                      else (case audit_try C agent StateChange [(''event'', jtext ''consent.cedar_allow''),
                                (''operation'', jtext (operation_as_str op)), (''decision'', jtext ''allow''),
                                (''effective_tier'', jtext ''tier0'')] env of
                           (r, env') \<Rightarrow> (r, rt, env')))
              | PdDeny reason \<Rightarrow> (Inl (CePolicyDenied reason), rt, env)
              | PdRequireApproval tier \<Rightarrow> enforce_with_tier C io op agent payload tier rt env)
            else enforce_with_tier C io op agent payload (required_tier (cr_policies rt) op) rt env
        | None \<Rightarrow> enforce_with_tier C io op agent payload (required_tier (cr_policies rt) op) rt env))"

definition decide_request :: "cext \<Rightarrow> consent_input \<Rightarrow> approval_verdict \<Rightarrow> string \<Rightarrow> string \<Rightarrow> consent_runtime \<Rightarrow> audit_env \<Rightarrow> (consent_error + unit) \<times> consent_runtime \<times> audit_env" where
  "decide_request C io verdict i approver rt env = (case aq_records (cr_queue rt) i of
     None \<Rightarrow> (Inl (CeRequestNotFound i), rt, env)
   | Some rcd \<Rightarrow> (case submit_decision C io i approver verdict (allowed_approvers (cr_policies rt) (rq_operation (ar_request rcd))) (cr_queue rt) env of
       (Inl err, q, env') \<Rightarrow> (Inl err, rt\<lparr>cr_queue := q\<rparr>, env')
     | (Inr d, q, env') \<Rightarrow> (Inr (), rt\<lparr>cr_queue := q\<rparr>, env')))"

definition approve :: "cext \<Rightarrow> consent_input \<Rightarrow> string \<Rightarrow> string \<Rightarrow> consent_runtime \<Rightarrow> audit_env \<Rightarrow> (consent_error + unit) \<times> consent_runtime \<times> audit_env" where
  "approve C io i approver rt env = decide_request C io VdApprove i approver rt env"

definition deny :: "cext \<Rightarrow> consent_input \<Rightarrow> string \<Rightarrow> string \<Rightarrow> consent_runtime \<Rightarrow> audit_env \<Rightarrow> (consent_error + unit) \<times> consent_runtime \<times> audit_env" where
  "deny C io i approver rt env = decide_request C io VdDeny i approver rt env"


section \<open>What an approval rests on\<close>

lemma operation_as_str_inj: "operation_as_str a = operation_as_str b \<longleftrightarrow> a = b"
  by (cases a; cases b) simp_all

lemma tier_as_str_inj: "tier_as_str a = tier_as_str b \<longleftrightarrow> a = b"
  by (cases a; cases b) simp_all

lemma jtext_inj: "jtext s = jtext t \<longleftrightarrow> s = t"
  by (simp add: jtext_def asc_def inj_map_eq_map inj_def)

lemmas consent_inj = operation_as_str_inj tier_as_str_inj jtext_inj

text \<open>The canonical values a request is known under, and two different ones with the same hash.\<close>

definition fields_of :: "approval_request \<Rightarrow> (string \<times> json) list" where
  "fields_of req = request_fields (rq_operation req) (rq_agent_id req) (rq_payload_hash req) (rq_requested_by req) (rq_required_tier req)"

definition numbered_of :: "approval_request \<Rightarrow> (string \<times> json) list" where
  "numbered_of req = (''created_seq'', jnat (rq_created_seq req)) # fields_of req"

definition hash_clash :: "cext \<Rightarrow> (string \<times> json) list \<Rightarrow> (string \<times> json) list \<Rightarrow> bool" where
  "hash_clash C A B \<longleftrightarrow> A \<noteq> B \<and> canonical_hash C (JObj A) = canonical_hash C (JObj B)"

text \<open>The invariant of the queue: records are filed under the identifier and fingerprint of their request, their
  approvals are of different people other than the requester, and the index leads to open records.\<close>

definition record_ok :: "cext \<Rightarrow> string \<Rightarrow> approval_record \<Rightarrow> bool" where
  "record_ok C i rcd \<longleftrightarrow> rq_id (ar_request rcd) = i
     \<and> ar_fingerprint rcd = hex_encode (canonical_hash C (JObj (fields_of (ar_request rcd))))
     \<and> i = ''req-'' @ hex_encode (canonical_hash C (JObj (numbered_of (ar_request rcd))))
     \<and> distinct (ar_approvals rcd) \<and> rq_requested_by (ar_request rcd) \<notin> set (ar_approvals rcd)"

definition queue_ok :: "cext \<Rightarrow> approval_queue \<Rightarrow> bool" where
  "queue_ok C q \<longleftrightarrow> (\<forall>i rcd. aq_records q i = Some rcd \<longrightarrow> record_ok C i rcd)
     \<and> (\<forall>fp i. aq_fingerprint_index q fp = Some i \<longrightarrow>
          (\<exists>rcd. aq_records q i = Some rcd \<and> ar_fingerprint rcd = fp \<and> \<not> ar_executed rcd))"

lemma queue_ok_in_memory: "queue_ok C queue_in_memory"
  by (simp add: queue_ok_def queue_in_memory_def)

lemma queue_okD:
  assumes "queue_ok C q" "aq_records q i = Some rcd"
  shows "record_ok C i rcd"
  using assms by (simp add: queue_ok_def)

lemma queue_ok_indexD:
  assumes "queue_ok C q" "aq_fingerprint_index q fp = Some i" "aq_records q i = Some rcd"
  shows "ar_fingerprint rcd = fp \<and> \<not> ar_executed rcd"
  using assms unfolding queue_ok_def by fastforce

text \<open>Marking a record executed, and what is needed for it.\<close>

lemma mark_executed_run:
  assumes "queue_ok C q" "aq_records q i = Some rcd" "mark_executed C io i q env = (r, q', env')"
  shows "queue_ok C q'"
    and "r = Inr () \<Longrightarrow> \<not> ar_executed rcd \<Longrightarrow> ar_denials rcd = [] \<and> \<not> timed_out (ci_now io) q rcd
      \<and> approvals_required (rq_required_tier (ar_request rcd)) (aq_auto_approve_tier1 q) \<le> length (ar_approvals rcd)
      \<and> aq_records q' = (aq_records q)(i \<mapsto> rcd\<lparr>ar_executed := True\<rparr>)
      \<and> aq_fingerprint_index q' = (aq_fingerprint_index q)(ar_fingerprint rcd := None)"
proof -
  let ?q = "q\<lparr>aq_records := (aq_records q)(i \<mapsto> rcd\<lparr>ar_executed := True\<rparr>),
      aq_fingerprint_index := (aq_fingerprint_index q)(ar_fingerprint rcd := None)\<rparr>"
  have ok: "queue_ok C ?q"
    using assms(1,2) unfolding queue_ok_def by (auto simp: record_ok_def) (metis option.inject)+
  show "queue_ok C q'"
    using assms ok by (auto simp: mark_executed_def Let_def split: sum.split_asm if_split_asm prod.split_asm)
  assume "r = Inr ()" "\<not> ar_executed rcd"
  then show "ar_denials rcd = [] \<and> \<not> timed_out (ci_now io) q rcd
      \<and> approvals_required (rq_required_tier (ar_request rcd)) (aq_auto_approve_tier1 q) \<le> length (ar_approvals rcd)
      \<and> aq_records q' = (aq_records q)(i \<mapsto> rcd\<lparr>ar_executed := True\<rparr>)
      \<and> aq_fingerprint_index q' = (aq_fingerprint_index q)(ar_fingerprint rcd := None)"
    using assms(2,3) by (auto simp: mark_executed_def approval_state_of_def Let_def not_less split: sum.split_asm if_split_asm prod.split_asm)
qed

text \<open>The tier an operation is enforced at; no tier when a policy denies it.\<close>

definition effective_tier :: "consent_runtime \<Rightarrow> governed_operation \<Rightarrow> string \<Rightarrow> hitl_tier option" where
  "effective_tier rt op agent =
     (if op \<in> {GoSovereignPromotion, GoTranscendentCreation, GoGovernancePolicyModify, GoSelfMutationApply, GoAgentLifecycleManage}
      then Some Tier3
      else case cr_cedar rt of
          None \<Rightarrow> Some (required_tier (cr_policies rt) op)
        | Some policies \<Rightarrow> if policies = [] then Some (required_tier (cr_policies rt) op)
            else (case evaluate policies (asc agent) (asc (operation_as_str op)) (asc ''*'') \<lparr>ec_autonomy_level = L0, ec_fuel_cost = None\<rparr> of
                PdAllow \<Rightarrow> Some (if Tier2 \<le> required_tier (cr_policies rt) op then required_tier (cr_policies rt) op else Tier0)
              | PdDeny reason \<Rightarrow> None
              | PdRequireApproval tier \<Rightarrow> Some tier))"

lemma enforce_effective:
  assumes "enforce_operation C io op agent payload rt env = (r, rt', env')"
  shows "rt' = rt \<or> (\<exists>tier env1. effective_tier rt op agent = Some tier \<and> enforce_with_tier C io op agent payload tier rt env1 = (r, rt', env'))"
    and "r = Inr () \<Longrightarrow> effective_tier rt op agent = Some Tier0 \<and> rt' = rt
      \<or> (\<exists>tier env1. effective_tier rt op agent = Some tier \<and> enforce_with_tier C io op agent payload tier rt env1 = (r, rt', env'))"
  using assms by (auto simp: enforce_operation_def effective_tier_def has_policies_def Let_def
      split: if_split_asm option.split_asm policy_decision.split_asm sum.split_asm prod.split_asm)

text \<open>At the two upper tiers only a request that is already there and approved passes.\<close>

lemma enforce_tier_passed:
  assumes ok: "queue_ok C (cr_queue rt)" and tier: "Tier2 \<le> tier"
    and run: "enforce_with_tier C io op agent payload tier rt env = (Inr (), rt', env')"
  obtains i rcd where "aq_fingerprint_index (cr_queue rt) (compute_fingerprint C op agent (hash_payload C payload) (cr_requester_id rt) tier) = Some i"
    "aq_records (cr_queue rt) i = Some rcd" "rq_payload_hash (ar_request rcd) = hash_payload C payload"
    "mark_executed C io i (cr_queue rt) env = (Inr (), cr_queue rt', env')"
proof -
  let ?fp = "compute_fingerprint C op agent (hash_payload C payload) (cr_requester_id rt) tier"
  have needed: "approvals_required tier b \<noteq> 0" "tier \<noteq> Tier0" "tier \<noteq> Tier1" for b
    using tier by (cases tier; simp add: tier_order)+
  show thesis
  proof (cases "Option.bind (aq_fingerprint_index (cr_queue rt) ?fp) (aq_records (cr_queue rt))")
    case None
    then have False using run
      by (auto simp: needed enforce_with_tier_def request_or_get_def request_from_operation_def approval_state_of_def Let_def
          split: sum.split_asm if_split_asm prod.split_asm approval_state.split_asm)
    then show thesis ..
  next
    case (Some rcd)
    then obtain i where i: "aq_fingerprint_index (cr_queue rt) ?fp = Some i" "aq_records (cr_queue rt) i = Some rcd"
      by (auto simp: bind_eq_Some_conv)
    have "rq_id (ar_request rcd) = i" using queue_okD [OF ok i(2)] by (simp add: record_ok_def)
    then show thesis using that [OF i] run Some
      by (auto simp: needed enforce_with_tier_def request_or_get_def Let_def
          split: sum.split_asm if_split_asm prod.split_asm approval_state.split_asm)
  qed
qed

text \<open>C2: an operation at the two upper tiers runs only on an approval that is for it, given by enough other
  people, and used once. When the enforcement passes at such a tier, the queue held an open record, in time
  and without a denial, of a request for the same operation, agent, payload hash, requester and tier
  (unless its canonical value and that of this call are an explicit hash collision); its approvals are of
  different people, none of them the requester, one at tier 2 and two at tier 3; and afterwards the record is
  marked executed and no longer found, so that the next call has to ask again.\<close>

theorem consent_enforced:
  assumes "queue_ok C (cr_queue rt)" and "enforce_operation C io op agent payload rt env = (Inr (), rt', env')"
  shows "\<exists>tier. effective_tier rt op agent = Some tier \<and> (Tier2 \<le> tier \<longrightarrow>
    (\<exists>i rcd. aq_records (cr_queue rt) i = Some rcd \<and> \<not> ar_executed rcd \<and> ar_denials rcd = []
      \<and> \<not> timed_out (ci_now io) (cr_queue rt) rcd
      \<and> distinct (ar_approvals rcd) \<and> rq_requested_by (ar_request rcd) \<notin> set (ar_approvals rcd)
      \<and> (hash_clash C (fields_of (ar_request rcd)) (request_fields op agent (hash_payload C payload) (cr_requester_id rt) tier)
         \<or> rq_operation (ar_request rcd) = op \<and> rq_agent_id (ar_request rcd) = agent
           \<and> rq_payload_hash (ar_request rcd) = hash_payload C payload \<and> rq_requested_by (ar_request rcd) = cr_requester_id rt
           \<and> rq_required_tier (ar_request rcd) = tier \<and> (if tier = Tier2 then 1 else 2) \<le> length (ar_approvals rcd))
      \<and> aq_records (cr_queue rt') i = Some (rcd\<lparr>ar_executed := True\<rparr>)
      \<and> aq_fingerprint_index (cr_queue rt') (compute_fingerprint C op agent (hash_payload C payload) (cr_requester_id rt) tier) = None))"
proof -
  have t0: "\<not> Tier2 \<le> Tier0" by (simp add: tier_order)
  from enforce_effective(2) [OF assms(2) refl] show ?thesis
  proof (elim disjE exE conjE)
    fix tier env1
    assume eff: "effective_tier rt op agent = Some tier" and run: "enforce_with_tier C io op agent payload tier rt env1 = (Inr (), rt', env')"
    show ?thesis
    proof (cases "Tier2 \<le> tier")
      case True
      let ?fp = "compute_fingerprint C op agent (hash_payload C payload) (cr_requester_id rt) tier"
      obtain i rcd where i: "aq_fingerprint_index (cr_queue rt) ?fp = Some i" "aq_records (cr_queue rt) i = Some rcd"
          "mark_executed C io i (cr_queue rt) env1 = (Inr (), cr_queue rt', env')"
        using enforce_tier_passed [OF assms(1) True run] by metis
      have fresh: "ar_fingerprint rcd = ?fp" "\<not> ar_executed rcd" using queue_ok_indexD [OF assms(1) i(1,2)] by auto
      note ok = queue_okD [OF assms(1) i(2), unfolded record_ok_def]
      note m = mark_executed_run(2) [OF assms(1) i(2,3) refl fresh(2)]
      have "canonical_hash C (JObj (fields_of (ar_request rcd)))
          = canonical_hash C (JObj (request_fields op agent (hash_payload C payload) (cr_requester_id rt) tier))"
        using ok fresh(1) by (auto simp: compute_fingerprint_def intro: hex_encode_inj)
      then have same: "hash_clash C (fields_of (ar_request rcd)) (request_fields op agent (hash_payload C payload) (cr_requester_id rt) tier)
          \<or> rq_operation (ar_request rcd) = op \<and> rq_agent_id (ar_request rcd) = agent
           \<and> rq_payload_hash (ar_request rcd) = hash_payload C payload \<and> rq_requested_by (ar_request rcd) = cr_requester_id rt
           \<and> rq_required_tier (ar_request rcd) = tier"
        by (auto simp: hash_clash_def fields_of_def request_fields_def consent_inj)
      have "(if tier = Tier2 then 1 else 2) = approvals_required tier b" for b using True by (cases tier) (simp_all add: tier_order)
      then show ?thesis using eff i(2) fresh m ok same by (intro exI [of _ tier]) (auto intro!: exI [of _ i] exI [of _ rcd])
    qed (use eff in blast)
  qed (use t0 in blast)
qed


definition sample_cext :: cext where
  "sample_cext = \<lparr>cx_audit = sample_aext, cx_json = (\<lambda>j. case j of JObj kvs \<Rightarrow> concat (map fst kvs) | _ \<Rightarrow> []), cx_parse_uuid = (\<lambda>s. s), cx_path_debug = (\<lambda>s. s)\<rparr>"

definition sample_consent_input :: consent_input where
  "sample_consent_input = \<lparr>ci_now = 10, ci_stored = True, ci_signature = None\<rparr>"

definition sample_runtime :: "policy list option \<Rightarrow> consent_runtime" where
  "sample_runtime cedar = \<lparr>cr_policies = consent_default, cr_queue = queue_in_memory, cr_requester_id = ''r'', cr_cedar = cedar\<rparr>"


text \<open>A witness for the upper tier: one approval of a terminal command.\<close>

definition sample_request :: approval_request where
  "sample_request = request_from_operation (derive_request_id sample_cext 1 GoTerminalCommand ''a'' (hash_payload sample_cext ''ls'') ''r'' Tier2)
     GoTerminalCommand ''a'' (hash_payload sample_cext ''ls'') ''r'' Tier2 1"

definition sample_record :: approval_record where
  "sample_record = \<lparr>ar_request = sample_request, ar_approvals = [''h''], ar_denials = [], ar_decisions = [], ar_executed = False,
     ar_fingerprint = compute_fingerprint sample_cext GoTerminalCommand ''a'' (hash_payload sample_cext ''ls'') ''r'' Tier2,
     ar_created_at_unix = 5\<rparr>"

definition approved_runtime :: consent_runtime where
  "approved_runtime = (sample_runtime None)\<lparr>cr_queue := queue_in_memory\<lparr>aq_records := [rq_id sample_request \<mapsto> sample_record],
     aq_fingerprint_index := [ar_fingerprint sample_record \<mapsto> rq_id sample_request]\<rparr>\<rparr>"

lemma approved_ok: "queue_ok sample_cext (cr_queue approved_runtime)"
  by (simp add: queue_ok_def record_ok_def approved_runtime_def sample_record_def sample_request_def request_from_operation_def
      compute_fingerprint_def derive_request_id_def fields_of_def numbered_of_def queue_in_memory_def)

lemma approved_passes: "fst (enforce_operation sample_cext sample_consent_input GoTerminalCommand ''a'' ''ls'' approved_runtime sample_env) = Inr ()"
  by (simp add: enforce_operation_def enforce_with_tier_def request_or_get_def mark_executed_def approval_state_of_def Let_def
      approved_runtime_def sample_runtime_def required_tier_def consent_default_def default_tier_def sample_record_def sample_request_def
      request_from_operation_def queue_in_memory_def timed_out_def sample_consent_input_def append_executed_event_def consent_event_def
      audit_try_def persist_def append_event_def compute_hash_def sample_cext_def sample_aext_def sample_env_def sample_input_def
      audit_new_def retain_def handle_push_def)

theorem consent_enforced_witness:
  "queue_ok sample_cext (cr_queue approved_runtime)
   \<and> (\<exists>rt' env'. enforce_operation sample_cext sample_consent_input GoTerminalCommand ''a'' ''ls'' approved_runtime sample_env = (Inr (), rt', env')
      \<and> (\<exists>i rcd. aq_records (cr_queue approved_runtime) i = Some rcd \<and> aq_records (cr_queue rt') i = Some (rcd\<lparr>ar_executed := True\<rparr>)))"
proof -
  obtain rt' env' where e: "enforce_operation sample_cext sample_consent_input GoTerminalCommand ''a'' ''ls'' approved_runtime sample_env = (Inr (), rt', env')"
    using approved_passes by (metis prod.collapse)
  have "effective_tier approved_runtime GoTerminalCommand ''a'' = Some Tier2"
    by (simp add: effective_tier_def approved_runtime_def sample_runtime_def required_tier_def consent_default_def default_tier_def)
  then show ?thesis using consent_enforced [OF approved_ok e] approved_ok e by fastforce
qed


section \<open>Every call keeps the queue's invariant\<close>

lemma request_or_get_ok:
  assumes ok: "queue_ok C q" and run: "request_or_get C io op agent ph by_whom tier q env = (r, q', env')"
  shows "queue_ok C q' \<or> (\<exists>i rcd. aq_records q i = Some rcd \<and> hash_clash C (numbered_of (ar_request rcd))
      ((''created_seq'', jnat (next_audit_sequence env)) # request_fields op agent ph by_whom tier))"
proof (cases "Option.bind (aq_fingerprint_index q (compute_fingerprint C op agent ph by_whom tier)) (aq_records q)")
  case (Some rcd)
  then show ?thesis using ok run by (simp add: request_or_get_def Let_def)
next
  case None
  let ?fp = "compute_fingerprint C op agent ph by_whom tier" and ?seq = "next_audit_sequence env"
  let ?i = "derive_request_id C ?seq op agent ph by_whom tier"
  let ?rcd = "\<lparr>ar_request = request_from_operation ?i op agent ph by_whom tier ?seq, ar_approvals = [], ar_denials = [],
      ar_decisions = [], ar_executed = False, ar_fingerprint = ?fp, ar_created_at_unix = ci_now io\<rparr>"
  have q': "aq_records q' = (aq_records q)(?i \<mapsto> ?rcd)" "aq_fingerprint_index q' = (aq_fingerprint_index q)(?fp \<mapsto> ?i)"
    using run None by (auto simp: request_or_get_def Let_def split: sum.split_asm prod.split_asm)
  have new: "record_ok C ?i ?rcd"
    by (simp add: record_ok_def request_from_operation_def compute_fingerprint_def derive_request_id_def fields_of_def numbered_of_def)
  have other: "j \<noteq> ?i \<or> (\<exists>i rcd. aq_records q i = Some rcd \<and> hash_clash C (numbered_of (ar_request rcd))
      ((''created_seq'', jnat ?seq) # request_fields op agent ph by_whom tier))"
    if j: "aq_fingerprint_index q fp = Some j" "fp \<noteq> ?fp" for fp j
  proof -
    obtain rcd where rcd: "aq_records q j = Some rcd" "ar_fingerprint rcd = fp" using ok j(1) unfolding queue_ok_def by blast
    note r = queue_okD [OF ok rcd(1), unfolded record_ok_def]
    have "fields_of (ar_request rcd) \<noteq> request_fields op agent ph by_whom tier"
      using r rcd(2) j(2) by (auto simp: compute_fingerprint_def)
    moreover have "canonical_hash C (JObj (numbered_of (ar_request rcd)))
        = canonical_hash C (JObj ((''created_seq'', jnat ?seq) # request_fields op agent ph by_whom tier))" if "j = ?i"
      using r that by (auto simp: derive_request_id_def intro: hex_encode_inj)
    ultimately show ?thesis using rcd(1) by (auto simp: hash_clash_def numbered_of_def)
  qed
  show ?thesis
  proof (rule disjCI)
    assume "\<nexists>i rcd. aq_records q i = Some rcd \<and> hash_clash C (numbered_of (ar_request rcd))
      ((''created_seq'', jnat ?seq) # request_fields op agent ph by_whom tier)"
    with other have ne: "fp \<noteq> ?fp \<Longrightarrow> aq_fingerprint_index q fp = Some j \<Longrightarrow> j \<noteq> ?i" for fp j by blast
    show "queue_ok C q'"
      unfolding queue_ok_def q'
    proof (intro conjI allI impI)
      fix i rcd assume "((aq_records q)(?i \<mapsto> ?rcd)) i = Some rcd"
      then show "record_ok C i rcd" using new queue_okD [OF ok] by (auto split: if_split_asm)
    next
      fix fp i assume i: "((aq_fingerprint_index q)(?fp \<mapsto> ?i)) fp = Some i"
      show "\<exists>rcd. ((aq_records q)(?i \<mapsto> ?rcd)) i = Some rcd \<and> ar_fingerprint rcd = fp \<and> \<not> ar_executed rcd"
      proof (cases "fp = ?fp")
        case False
        then show ?thesis using i ne [OF False, of i] ok unfolding queue_ok_def by simp
      qed (use i in simp)
    qed
  qed
qed

lemma submit_decision_ok:
  assumes ok: "queue_ok C q" and run: "submit_decision C io i approver verdict allowed q env = (r, q', env')"
  shows "queue_ok C q'"
proof (cases "q' = q")
  case False
  then obtain rcd where rcd: "aq_records q i = Some rcd" "approver \<noteq> rq_requested_by (ar_request rcd)" "approver \<notin> set (ar_approvals rcd)"
      "aq_fingerprint_index q' = aq_fingerprint_index q"
      "aq_records q' = (aq_records q)(i \<mapsto> fst (decide io i approver verdict (next_audit_sequence env) rcd))"
    using run by (auto simp: submit_decision_def Let_def split: option.split_asm if_split_asm prod.split_asm sum.split_asm)
  let ?rcd = "fst (decide io i approver verdict (next_audit_sequence env) rcd)"
  have "record_ok C i ?rcd"
    using queue_okD [OF ok rcd(1)] rcd(2,3)
    by (auto simp: decide_def Let_def record_ok_def distinct_insort set_insort_key split: approval_verdict.split)
  moreover have "ar_fingerprint ?rcd = ar_fingerprint rcd" "ar_executed ?rcd = ar_executed rcd"
    by (simp_all add: decide_def Let_def split: approval_verdict.split)
  ultimately show ?thesis using ok rcd(1) unfolding queue_ok_def rcd(4,5) by (auto split: if_split_asm) (metis option.inject)+
qed (use ok in simp)

lemma mark_executed_ok:
  assumes "queue_ok C q" "mark_executed C io i q env = (r, q', env')"
  shows "queue_ok C q'"
proof (cases "aq_records q i")
  case None
  then show ?thesis using assms by (auto simp: mark_executed_def approval_state_of_def)
next
  case (Some rcd)
  then show ?thesis using mark_executed_run(1) assms by blast
qed

lemma enforce_tier_queue:
  assumes "enforce_with_tier C io op agent payload tier rt env = (r, rt', env')"
  shows "rt' = rt \<or> (\<exists>ro q1 env1. request_or_get C io op agent (hash_payload C payload) (cr_requester_id rt) tier (cr_queue rt) env = (ro, q1, env1)
      \<and> (cr_queue rt' = q1 \<or> (\<exists>i r. mark_executed C io i q1 env1 = (r, cr_queue rt', env'))))"
proof -
  obtain ro q1 env1 where q1: "request_or_get C io op agent (hash_payload C payload) (cr_requester_id rt) tier (cr_queue rt) env = (ro, q1, env1)"
    by (metis prod_cases3)
  show ?thesis
  proof (cases ro)
    case (Inl err)
    then show ?thesis using assms q1 by (auto simp: enforce_with_tier_def Let_def split: if_split_asm)
  next
    case (Inr req)
    then show ?thesis using assms q1
      by (fastforce simp: enforce_with_tier_def Let_def split: if_split_asm sum.split_asm approval_state.split_asm prod.split_asm)
  qed
qed

text \<open>C35: every call keeps the queue's invariant, and a decision is taken only by someone entitled to it. A
  decision that is recorded is of a person other than the requester, on the list of the operation's approvers,
  who has not decided that request before. An enforcement keeps the invariant, unless the new request and
  one in the queue are an explicit hash collision.\<close>

theorem consent_kept:
  assumes "queue_ok C (cr_queue rt)"
  shows "(decide_request C io verdict i approver rt env = (r, rt', env') \<longrightarrow> queue_ok C (cr_queue rt')
      \<and> (r = Inr () \<longrightarrow> (\<exists>rcd. aq_records (cr_queue rt) i = Some rcd \<and> approver \<noteq> rq_requested_by (ar_request rcd)
          \<and> approver \<in> set (allowed_approvers (cr_policies rt) (rq_operation (ar_request rcd)))
          \<and> approver \<notin> set (ar_approvals rcd) \<and> approver \<notin> set (ar_denials rcd))))
    \<and> (enforce_with_tier C io op agent payload tier rt env = (r, rt', env') \<longrightarrow> queue_ok C (cr_queue rt')
      \<or> (\<exists>i rcd. aq_records (cr_queue rt) i = Some rcd \<and> hash_clash C (numbered_of (ar_request rcd))
          ((''created_seq'', jnat (next_audit_sequence env)) # request_fields op agent (hash_payload C payload) (cr_requester_id rt) tier)))"
proof (intro conjI impI)
  assume d: "decide_request C io verdict i approver rt env = (r, rt', env')"
  show "queue_ok C (cr_queue rt')"
    using d assms submit_decision_ok [OF assms]
    by (auto simp: decide_request_def split: option.split_asm prod.split_asm sum.split_asm)
  assume "r = Inr ()"
  then show "\<exists>rcd. aq_records (cr_queue rt) i = Some rcd \<and> approver \<noteq> rq_requested_by (ar_request rcd)
      \<and> approver \<in> set (allowed_approvers (cr_policies rt) (rq_operation (ar_request rcd)))
      \<and> approver \<notin> set (ar_approvals rcd) \<and> approver \<notin> set (ar_denials rcd)"
    using d by (auto simp: decide_request_def submit_decision_def split: option.split_asm if_split_asm prod.split_asm sum.split_asm)
next
  assume "enforce_with_tier C io op agent payload tier rt env = (r, rt', env')"
  then show "queue_ok C (cr_queue rt') \<or> (\<exists>i rcd. aq_records (cr_queue rt) i = Some rcd \<and> hash_clash C (numbered_of (ar_request rcd))
      ((''created_seq'', jnat (next_audit_sequence env)) # request_fields op agent (hash_payload C payload) (cr_requester_id rt) tier))"
    using enforce_tier_queue request_or_get_ok [OF assms] mark_executed_ok assms by metis
qed


theorem consent_kept_witness:
  "\<exists>r rt' env'. decide_request sample_cext sample_consent_input VdDeny (rq_id sample_request) ''g''
      (approved_runtime\<lparr>cr_policies := (\<lambda>op. Some \<lparr>oc_required_tier = Tier2, oc_allowed_approvers = [''g'', ''h'']\<rparr>)\<rparr>) sample_env = (r, rt', env')
    \<and> queue_ok sample_cext (cr_queue rt')"
proof -
  let ?rt = "approved_runtime\<lparr>cr_policies := (\<lambda>op. Some \<lparr>oc_required_tier = Tier2, oc_allowed_approvers = [''g'', ''h'']\<rparr>)\<rparr>"
  obtain r rt' env' where d: "decide_request sample_cext sample_consent_input VdDeny (rq_id sample_request) ''g'' ?rt sample_env = (r, rt', env')"
    by (metis prod_cases3)
  have "queue_ok sample_cext (cr_queue ?rt)" using approved_ok by simp
  from consent_kept [OF this] d show ?thesis by blast
qed

end
