(* ===== verification/Kernel_Supervisor.thy ===== *)
theory Kernel_Supervisor
  imports Kernel_Consent
begin

text \<open>The supervisor of agents (\<^verbatim>\<open>src/kernel/src/supervisor.rs\<close>): registration, the life cycle with its caps on
  sovereign and transcendent agents, fuel reserved and committed against balance and ledger, violations, the
  safety halt, and the gates of consent and autonomy. It composes the ledger, the audit trail, the autonomy guard,
  the policy engine and the consent runtime. A \<open>HashMap\<close> is an association list with different keys. The time machine,
  the speculative engine, permissions and the safety supervisor's metrics are not part of it: none of them
  changes what is modelled, and the action the safety supervisor asks for is an argument.\<close>


section \<open>Costs, manifests and agents\<close>

definition max_fuel_cost :: "string \<Rightarrow> nat" where
  "max_fuel_cost action_type =
     (if action_type = ''llm_inference_local'' then 2000
      else if action_type = ''llm_inference_cloud'' then 10000
      else if action_type = ''filesystem_read'' then 200
      else if action_type = ''filesystem_write'' then 1000
      else if action_type = ''network_request'' then 2000
      else if action_type = ''agent_to_agent'' then 500
      else if action_type = ''mcp_tool_call'' then 5000
      else if action_type = ''wasm_execution'' then 1000
      else if action_type \<in> {''supervisor.start'', ''supervisor.restart''} then 10
      else if action_type = ''supervisor.stop'' then 10
      else if action_type = ''a2a_delegate'' then 2000
      else if action_type = ''a2a_discover'' then 500
      else if action_type = ''a2a_status_check'' then 200
      else if action_type \<in> {''integration_slack'', ''integration_teams'', ''integration_discord'', ''integration_telegram''} then 500
      else if action_type \<in> {''integration_jira'', ''integration_github''} then 1000
      else if action_type = ''integration_webhook'' then 300
      else 1000)"

record supervisor_config =
  sc_max_l5_agents :: nat
  sc_max_l6_agents :: nat

definition config_default :: supervisor_config where
  "config_default = \<lparr>sc_max_l5_agents = 1, sc_max_l6_agents = 6\<rparr>"

text \<open>The two variables as read and parsed; unset or not a number keeps the default.\<close>

definition config_from_env :: "nat option \<Rightarrow> nat option \<Rightarrow> supervisor_config" where
  "config_from_env l5 l6 =
     (let c = config_default;
          c = (case l5 of Some n \<Rightarrow> c\<lparr>sc_max_l5_agents := n\<rparr> | None \<Rightarrow> c)
      in case l6 of Some n \<Rightarrow> c\<lparr>sc_max_l6_agents := n\<rparr> | None \<Rightarrow> c)"

record agent_manifest =
  mf_name :: string
  mf_capabilities :: "string list"
  mf_fuel_budget :: nat
  mf_autonomy_level :: "nat option"
  mf_consent_policy_path :: "string option"
  mf_requester_id :: "ustr option"
  mf_llm_model :: "ustr option"
  mf_fuel_period_id :: "ustr option"
  mf_monthly_fuel_cap :: "nat option"

datatype execution_mode = EmNative | EmWasm string

record agent_handle =
  ah_manifest :: agent_manifest
  ah_guard :: autonomy_guard
  ah_consent :: consent_runtime
  ah_autonomy_level :: nat
  ah_state :: agent_state
  ah_remaining_fuel :: nat
  ah_execution_mode :: execution_mode

record supervisor =
  sv_agents :: "(string \<times> agent_handle) list"
  sv_ledgers :: "(string \<times> fuel_ledger) list"
  sv_env :: audit_env
  sv_policies :: "policy list"
  sv_config :: supervisor_config

record fuel_hold =
  fh_agent_id :: string
  fh_reserved_amount :: nat
  fh_action_type :: string

text \<open>The causes the code puts into the text of a \<open>SupervisorError\<close> are constructors.\<close>

datatype agent_error =
  ErFuelViolation fuel_violation ustr
| ErInvalidTransition agent_state agent_state
| ErManifest
| ErApprovalRequired string
| ErNotFound string
| ErRegistered string
| ErCapL5
| ErCapL6
| ErMissingLedger string
| ErConsent consent_error
| ErAutonomy autonomy_denied
| ErSafetyHalted string
| ErAuditFailure

primrec state_text :: "agent_state \<Rightarrow> string" where
  "state_text AsCreated = ''Created''"
| "state_text AsStarting = ''Starting''"
| "state_text AsRunning = ''Running''"
| "state_text AsPaused = ''Paused''"
| "state_text AsStopping = ''Stopping''"
| "state_text AsStopped = ''Stopped''"
| "state_text AsDestroyed = ''Destroyed''"

definition supervisor_new :: "supervisor_config \<Rightarrow> policy list \<Rightarrow> audit_env \<Rightarrow> supervisor" where
  "supervisor_new c policies env = \<lparr>sv_agents = [], sv_ledgers = [], sv_env = env, sv_policies = policies, sv_config = c\<rparr>"

definition sv_agent :: "supervisor \<Rightarrow> string \<Rightarrow> agent_handle option" where
  "sv_agent sv = map_of (sv_agents sv)"

definition put_agent :: "string \<Rightarrow> agent_handle \<Rightarrow> supervisor \<Rightarrow> supervisor" where
  "put_agent i h sv = sv\<lparr>sv_agents := AList.update i h (sv_agents sv)\<rparr>"

definition sv_ledger :: "supervisor \<Rightarrow> string \<Rightarrow> fuel_ledger option" where
  "sv_ledger sv = map_of (sv_ledgers sv)"

definition put_ledger :: "string \<Rightarrow> fuel_ledger \<Rightarrow> supervisor \<Rightarrow> supervisor" where
  "put_ledger i l sv = sv\<lparr>sv_ledgers := AList.update i l (sv_ledgers sv)\<rparr>"

definition is_active :: "agent_state \<Rightarrow> bool" where
  "is_active st \<longleftrightarrow> st \<in> {AsRunning, AsStarting, AsPaused}"

definition active_at :: "nat \<Rightarrow> supervisor \<Rightarrow> (string \<times> agent_handle) list" where
  "active_at level sv = filter (\<lambda>(i, h). ah_autonomy_level h = level \<and> is_active (ah_state h)) (sv_agents sv)"

definition others_at_cap :: "nat \<Rightarrow> nat \<Rightarrow> string \<Rightarrow> supervisor \<Rightarrow> bool" where
  "others_at_cap level cap i sv \<longleftrightarrow> cap \<le> length (filter (\<lambda>(j, h). j \<noteq> i) (active_at level sv))"

definition level_capped :: "autonomy_level \<Rightarrow> string \<Rightarrow> supervisor \<Rightarrow> agent_error option" where
  "level_capped level i sv =
     (if level = L5 \<and> others_at_cap 5 (sc_max_l5_agents (sv_config sv)) i sv then Some ErCapL5
      else if level = L6 \<and> others_at_cap 6 (sc_max_l6_agents (sv_config sv)) i sv then Some ErCapL6
      else None)"


section \<open>Fuel\<close>

definition apply_fuel_violation :: "cext \<Rightarrow> string \<Rightarrow> fuel_violation \<Rightarrow> string \<Rightarrow> supervisor \<Rightarrow> agent_error \<times> supervisor" where
  "apply_fuel_violation C i violation reason sv =
     (let sv = (case sv_ledger sv i of
            Some l \<Rightarrow> (case register_violation (cx_audit C) i violation (asc reason) l (sv_env sv) of
                (l, env) \<Rightarrow> (put_ledger i l sv)\<lparr>sv_env := env\<rparr>)
          | None \<Rightarrow> sv);
          sv = (case sv_agent sv i of
            Some h \<Rightarrow> (case downgrade (cx_audit C) i L0 ''fuel_violation'' reason (ah_guard h) (sv_env sv) of
                (g, env) \<Rightarrow> (put_agent i (h\<lparr>ah_autonomy_level := 0, ah_remaining_fuel := 0, ah_guard := g\<rparr>) sv)\<lparr>sv_env := env\<rparr>)
          | None \<Rightarrow> sv)
      in (ErFuelViolation violation (asc reason), sv))"

definition sv_reserve_fuel :: "cext \<Rightarrow> string \<Rightarrow> nat \<Rightarrow> string \<Rightarrow> supervisor \<Rightarrow> (agent_error + fuel_hold) \<times> supervisor" where
  "sv_reserve_fuel C i max_cost action_type sv = (case sv_agent sv i of
     None \<Rightarrow> (Inl (ErNotFound i), sv)
   | Some h \<Rightarrow>
       if ah_remaining_fuel h < max_cost
       then (case apply_fuel_violation C i OverMonthlyCap (''insufficient fuel for '' @ action_type @ '': need '' @
                decimal max_cost @ '', have '' @ decimal (ah_remaining_fuel h)) sv of
             (err, sv) \<Rightarrow> (Inl err, sv))
       else (Inr \<lparr>fh_agent_id = i, fh_reserved_amount = max_cost, fh_action_type = action_type\<rparr>,
             put_agent i (h\<lparr>ah_remaining_fuel := ah_remaining_fuel h - max_cost\<rparr>) sv))"

definition sv_commit_fuel :: "cext \<Rightarrow> nat \<Rightarrow> fuel_hold \<Rightarrow> supervisor \<Rightarrow> (agent_error + unit) \<times> supervisor" where
  "sv_commit_fuel C actual_cost r sv =
     (let i = fh_agent_id r;
          refund = fh_reserved_amount r - actual_cost;
          sv = (case sv_agent sv i of
              Some h \<Rightarrow> if refund > 0 then put_agent i (h\<lparr>ah_remaining_fuel := add_u64 (ah_remaining_fuel h) refund\<rparr>) sv else sv
            | None \<Rightarrow> sv);
          model = (case sv_agent sv i of
              Some h \<Rightarrow> (case mf_llm_model (ah_manifest h) of Some m \<Rightarrow> m | None \<Rightarrow> asc ''runtime'')
            | None \<Rightarrow> asc ''runtime'')
      in case sv_ledger sv i of
           None \<Rightarrow> (Inl (ErMissingLedger i), sv)
         | Some l \<Rightarrow> (case record_llm_spend (cx_audit C) i model 0 (as_u32 actual_cost) actual_cost l (sv_env sv) of
               (outcome, l, env) \<Rightarrow>
                 (let sv = (put_ledger i l sv)\<lparr>sv_env := env\<rparr>
                  in case outcome of
                       Inr u \<Rightarrow> (Inr (), sv)
                     | Inl violation \<Rightarrow> (case apply_fuel_violation C i violation (fh_action_type r) sv of (err, sv) \<Rightarrow> (Inl err, sv)))))"

definition sv_cancel_fuel :: "fuel_hold \<Rightarrow> supervisor \<Rightarrow> supervisor" where
  "sv_cancel_fuel r sv = (case sv_agent sv (fh_agent_id r) of
     Some h \<Rightarrow> put_agent (fh_agent_id r) (h\<lparr>ah_remaining_fuel := add_u64 (ah_remaining_fuel h) (fh_reserved_amount r)\<rparr>) sv
   | None \<Rightarrow> sv)"

definition consume_fuel_units :: "cext \<Rightarrow> string \<Rightarrow> string \<Rightarrow> nat \<Rightarrow> supervisor \<Rightarrow> (agent_error + unit) \<times> supervisor" where
  "consume_fuel_units C i reason units sv = (case sv_reserve_fuel C i units reason sv of
     (Inl err, sv) \<Rightarrow> (Inl err, sv)
   | (Inr r, sv) \<Rightarrow> sv_commit_fuel C units r sv)"

definition sv_record_llm_spend :: "cext \<Rightarrow> string \<Rightarrow> ustr \<Rightarrow> nat \<Rightarrow> nat \<Rightarrow> nat \<Rightarrow> supervisor \<Rightarrow> (agent_error + unit) \<times> supervisor" where
  "sv_record_llm_spend C i model input_tokens output_tokens cost_units sv = (case sv_agent sv i of
     None \<Rightarrow> (Inl (ErNotFound i), sv)
   | Some h \<Rightarrow>
       if ah_remaining_fuel h < cost_units
       then (case apply_fuel_violation C i OverMonthlyCap ''LLM token spend exceeded remaining fuel'' sv of (err, sv) \<Rightarrow> (Inl err, sv))
       else
        (let paid = h\<lparr>ah_remaining_fuel := ah_remaining_fuel h - cost_units\<rparr>;
             sv = put_agent i paid sv
         in case sv_ledger sv i of
              None \<Rightarrow> (Inl (ErMissingLedger i), sv)
            | Some l \<Rightarrow> (case record_llm_spend (cx_audit C) i model input_tokens output_tokens cost_units l (sv_env sv) of
                (outcome, l, env) \<Rightarrow>
                  (let sv = (put_ledger i l sv)\<lparr>sv_env := env\<rparr>
                   in case outcome of
                        Inr u \<Rightarrow> (Inr (), sv)
                      | Inl violation \<Rightarrow>
                          (case apply_fuel_violation C i violation ''fuel hardening violation from LLM spend''
                             (put_agent i (paid\<lparr>ah_remaining_fuel := add_u64 (ah_remaining_fuel paid) cost_units\<rparr>) sv) of
                             (err, sv) \<Rightarrow> (Inl err, sv))))))"

definition restore_fuel_report :: "string \<Rightarrow> fuel_report \<Rightarrow> nat \<Rightarrow> supervisor \<Rightarrow> (agent_error + unit) \<times> supervisor" where
  "restore_fuel_report i report remaining_fuel sv = (case sv_agent sv i of
     None \<Rightarrow> (Inl (ErNotFound i), sv)
   | Some h \<Rightarrow> (Inr (), put_ledger i (from_report report) (put_agent i (h\<lparr>ah_remaining_fuel := remaining_fuel\<rparr>) sv)))"


section \<open>The life cycle\<close>

definition execution_mode_of :: "string list \<Rightarrow> execution_mode" where
  "execution_mode_of capabilities = (case List.find (\<lambda>c. take 12 c = ''wasm.binary:'') capabilities of
     Some c \<Rightarrow> EmWasm (drop 12 c) | None \<Rightarrow> EmNative)"

definition mode_text :: "cext \<Rightarrow> execution_mode \<Rightarrow> string" where
  "mode_text C m = (case m of EmNative \<Rightarrow> ''Native'' | EmWasm path \<Rightarrow> ''Wasm { binary_path: '' @ cx_path_debug C path @ '' }'')"

definition manifest_cap :: "agent_manifest \<Rightarrow> nat" where
  "manifest_cap m = (case mf_monthly_fuel_cap m of Some cap \<Rightarrow> cap | None \<Rightarrow> mf_fuel_budget m)"

definition register_agent :: "cext \<Rightarrow> string \<Rightarrow> agent_manifest \<Rightarrow> agent_state \<Rightarrow> supervisor \<Rightarrow> (agent_error + string) \<times> supervisor" where
  "register_agent C i m initial_state sv =
     (if sv_agent sv i \<noteq> None then (Inl (ErRegistered i), sv)
      else let level = from_manifest (mf_autonomy_level m)
           in case consent_from_manifest (mf_consent_policy_path m) (mf_requester_id m) (mf_name m) of
                None \<Rightarrow> (Inl ErManifest, sv)
              | Some consent \<Rightarrow>
                 (let period = BudgetPeriodId_new (case mf_fuel_period_id m of Some p \<Rightarrow> p | None \<Rightarrow> asc ''period.default'');
                      monthly_cap = manifest_cap m;
                      consent = (if has_policies (sv_policies sv) then set_cedar_engine (sv_policies sv) consent else consent);
                      mode = execution_mode_of (mf_capabilities m);
                      h = \<lparr>ah_manifest = m, ah_guard = guard_new level, ah_consent = consent, ah_autonomy_level = level_rank level,
                        ah_state = initial_state, ah_remaining_fuel = monthly_cap, ah_execution_mode = mode\<rparr>;
                      sv = put_ledger i (ledger_new period monthly_cap detector_default) (put_agent i h sv)
                  in case audit_try C i StateChange [(''event_kind'', jtext ''fuel.period_set''), (''agent_id'', jtext i), (''period'', JStr period),
                            (''cap_units'', jnat monthly_cap), (''spent_units'', jnat 0)] (sv_env sv) of
                       (Inl err, env) \<Rightarrow> (Inl ErAuditFailure, sv\<lparr>sv_env := env\<rparr>)
                     | (Inr u, env) \<Rightarrow>
                         (case audit_try C i StateChange [(''event'', jtext ''autonomy.level_initialized''), (''level'', jtext (level_as_str level)),
                                (''execution_mode'', jtext (mode_text C mode))] env of
                            (Inl err, env) \<Rightarrow> (Inl ErAuditFailure, sv\<lparr>sv_env := env\<rparr>)
                          | (Inr u, env) \<Rightarrow> (Inr i, sv\<lparr>sv_env := env\<rparr>))))"

definition transition_note :: "cext \<Rightarrow> string \<Rightarrow> agent_state \<Rightarrow> agent_state \<Rightarrow> string \<Rightarrow> bool \<Rightarrow> audit_env \<Rightarrow> audit_env" where
  "transition_note C i old_state new_state reason forced env =
     audit_note (cx_audit C) i UserAction [(''event_kind'', jtext ''agent.state_transition''), (''agent_id'', jtext i),
       (''old_state'', jtext (state_text old_state)), (''new_state'', jtext (state_text new_state)), (''reason'', jtext reason),
       (''forced'', JBool forced)] env"

definition transition_agent_state :: "cext \<Rightarrow> string \<Rightarrow> agent_state \<Rightarrow> string \<Rightarrow> supervisor \<Rightarrow> (agent_error + agent_state) \<times> supervisor" where
  "transition_agent_state C i new_state reason sv = (case sv_agent sv i of
     None \<Rightarrow> (Inl (ErNotFound i), sv)
   | Some h \<Rightarrow> (case transition_state (ah_state h) new_state of
       Inl (a, b) \<Rightarrow> (Inl (ErInvalidTransition a b), sv)
     | Inr next_state \<Rightarrow> (Inr next_state, (put_agent i (h\<lparr>ah_state := next_state\<rparr>) sv)\<lparr>
           sv_env := transition_note C i (ah_state h) next_state reason False (sv_env sv)\<rparr>)))"

definition force_transition_agent_state :: "cext \<Rightarrow> string \<Rightarrow> agent_state \<Rightarrow> string \<Rightarrow> supervisor \<Rightarrow> (agent_error + agent_state) \<times> supervisor" where
  "force_transition_agent_state C i new_state reason sv = (case sv_agent sv i of
     None \<Rightarrow> (Inl (ErNotFound i), sv)
   | Some h \<Rightarrow> (Inr new_state, (put_agent i (h\<lparr>ah_state := new_state\<rparr>) sv)\<lparr>
         sv_env := transition_note C i (ah_state h) new_state reason True (sv_env sv)\<rparr>))"

text \<open>The state set without a record, as the start of an agent does it.\<close>

definition set_state :: "string \<Rightarrow> agent_state \<Rightarrow> supervisor \<Rightarrow> (agent_error + unit) \<times> supervisor" where
  "set_state i new_state sv = (case sv_agent sv i of
     None \<Rightarrow> (Inl (ErNotFound i), sv)
   | Some h \<Rightarrow> (case transition_state (ah_state h) new_state of
       Inl (a, b) \<Rightarrow> (Inl (ErInvalidTransition a b), sv)
     | Inr next_state \<Rightarrow> (Inr (), put_agent i (h\<lparr>ah_state := next_state\<rparr>) sv)))"

definition transition_to_running :: "cext \<Rightarrow> string \<Rightarrow> supervisor \<Rightarrow> (agent_error + unit) \<times> supervisor" where
  "transition_to_running C i sv = (case sv_agent sv i of
     None \<Rightarrow> (Inl (ErNotFound i), sv)
   | Some h \<Rightarrow>
       if ah_state h = AsRunning then (Inr (), sv)
       else case level_capped (from_manifest (Some (ah_autonomy_level h))) i sv of
         Some err \<Rightarrow> (Inl err, sv)
       | None \<Rightarrow> (case set_state i AsStarting sv of
           (Inl err, sv) \<Rightarrow> (Inl err, sv)
         | (Inr u, sv) \<Rightarrow> (case consume_fuel_units C i ''supervisor.start'' 1 sv of
             (Inl err, sv) \<Rightarrow> (Inl err, sv)
           | (Inr v, sv) \<Rightarrow> set_state i AsRunning sv)))"

definition start_agent_with_id :: "cext \<Rightarrow> string \<Rightarrow> agent_manifest \<Rightarrow> supervisor \<Rightarrow> (agent_error + string) \<times> supervisor" where
  "start_agent_with_id C i m sv = (case register_agent C i m AsCreated sv of
     (Inl err, sv) \<Rightarrow> (Inl err, sv)
   | (Inr j, sv) \<Rightarrow> (case transition_to_running C i sv of
       (Inl err, sv) \<Rightarrow> (Inl err, sv) | (Inr u, sv) \<Rightarrow> (Inr i, sv)))"

definition stop_agent :: "cext \<Rightarrow> string \<Rightarrow> supervisor \<Rightarrow> (agent_error + unit) \<times> supervisor" where
  "stop_agent C i sv = (case sv_agent sv i of
     None \<Rightarrow> (Inl (ErNotFound i), sv)
   | Some h \<Rightarrow>
       if ah_state h \<in> {AsRunning, AsPaused}
       then (case consume_fuel_units C i ''supervisor.stop'' 2 sv of
           (Inl err, sv) \<Rightarrow> (Inl err, sv)
         | (Inr u, sv) \<Rightarrow> (case transition_agent_state C i AsStopping ''stop'' sv of
             (Inl err, sv) \<Rightarrow> (Inl err, sv)
           | (Inr st, sv) \<Rightarrow> (case transition_agent_state C i AsStopped ''stop'' sv of
               (Inl err, sv) \<Rightarrow> (Inl err, sv) | (Inr st, sv) \<Rightarrow> (Inr (), sv))))
       else if ah_state h \<in> {AsStopping, AsStopped, AsDestroyed} then (Inr (), sv)
       else (Inl (ErInvalidTransition (ah_state h) AsStopping), sv))"

definition pause_agent :: "cext \<Rightarrow> string \<Rightarrow> supervisor \<Rightarrow> (agent_error + unit) \<times> supervisor" where
  "pause_agent C i sv = (case sv_agent sv i of
     None \<Rightarrow> (Inl (ErNotFound i), sv)
   | Some h \<Rightarrow>
       if ah_state h = AsRunning
       then (case transition_agent_state C i AsPaused ''pause'' sv of (Inl err, sv) \<Rightarrow> (Inl err, sv) | (Inr st, sv) \<Rightarrow> (Inr (), sv))
       else if ah_state h = AsPaused then (Inr (), sv)
       else (Inl (ErInvalidTransition (ah_state h) AsPaused), sv))"

definition resume_agent :: "cext \<Rightarrow> string \<Rightarrow> supervisor \<Rightarrow> (agent_error + unit) \<times> supervisor" where
  "resume_agent C i sv = (case sv_agent sv i of
     None \<Rightarrow> (Inl (ErNotFound i), sv)
   | Some h \<Rightarrow>
       if ah_state h = AsPaused
       then (case transition_agent_state C i AsRunning ''resume'' sv of (Inl err, sv) \<Rightarrow> (Inl err, sv) | (Inr st, sv) \<Rightarrow> (Inr (), sv))
       else if ah_state h = AsRunning then (Inr (), sv)
       else (Inl (ErInvalidTransition (ah_state h) AsRunning), sv))"

definition restart_agent :: "cext \<Rightarrow> string \<Rightarrow> supervisor \<Rightarrow> (agent_error + unit) \<times> supervisor" where
  "restart_agent C i sv = (case sv_agent sv i of
     None \<Rightarrow> (Inl (ErNotFound i), sv)
   | Some h \<Rightarrow> (case level_capped (case from_numeric (ah_autonomy_level h) of Some l \<Rightarrow> l | None \<Rightarrow> L0) i sv of
       Some err \<Rightarrow> (Inl err, sv)
     | None \<Rightarrow>
        (case (if ah_state h \<in> {AsRunning, AsPaused} then stop_agent C i sv else (Inr (), sv)) of
           (Inl err, sv) \<Rightarrow> (Inl err, sv)
         | (Inr u, sv) \<Rightarrow> (case consume_fuel_units C i ''supervisor.restart'' 1 sv of
             (Inl err, sv) \<Rightarrow> (Inl err, sv)
           | (Inr v, sv) \<Rightarrow> (case transition_agent_state C i AsStarting ''restart'' sv of
               (Inl err, sv) \<Rightarrow> (Inl err, sv)
             | (Inr st, sv) \<Rightarrow> (case transition_agent_state C i AsRunning ''restart'' sv of
                 (Inl err, sv) \<Rightarrow> (Inl err, sv) | (Inr st, sv) \<Rightarrow> (Inr (), sv)))))))"

datatype safety_action = SaContinue | SaDegraded string | SaHalted string

definition halt_transition :: "cext \<Rightarrow> string \<Rightarrow> agent_state \<Rightarrow> supervisor \<Rightarrow> supervisor" where
  "halt_transition C i new_state sv = (case transition_agent_state C i new_state ''safety-halt'' sv of
     (Inr st, sv) \<Rightarrow> sv
   | (Inl err, sv) \<Rightarrow> snd (force_transition_agent_state C i new_state ''safety-halt-forced'' sv))"

definition apply_safety_action :: "cext \<Rightarrow> string \<Rightarrow> safety_action \<Rightarrow> supervisor \<Rightarrow> (agent_error + unit) \<times> supervisor" where
  "apply_safety_action C i action sv = (case action of
     SaContinue \<Rightarrow> (Inr (), sv)
   | SaDegraded reason \<Rightarrow>
       (case audit_try C i UserAction [(''event_kind'', jtext ''safety.degraded_notice''), (''agent_id'', jtext i), (''reason'', jtext reason)] (sv_env sv) of
          (Inl err, env) \<Rightarrow> (Inl ErAuditFailure, sv\<lparr>sv_env := env\<rparr>)
        | (Inr u, env) \<Rightarrow> (Inr (), sv\<lparr>sv_env := env\<rparr>))
   | SaHalted reason \<Rightarrow>
       (Inl (ErSafetyHalted reason),
        if (case sv_agent sv i of Some h \<Rightarrow> ah_state h \<in> {AsRunning, AsPaused, AsStarting} | None \<Rightarrow> False)
        then halt_transition C i AsStopped (halt_transition C i AsStopping sv) else sv))"

definition clear_all_agents :: "supervisor \<Rightarrow> supervisor" where
  "clear_all_agents sv = sv\<lparr>sv_agents := [], sv_ledgers := []\<rparr>"

definition health_check :: "supervisor \<Rightarrow> (string \<times> agent_state \<times> nat) list" where
  "health_check sv = map (\<lambda>(i, h). (i, ah_state h, ah_remaining_fuel h)) (sort_key fst (sv_agents sv))"


section \<open>The gates\<close>

definition consent_failed :: "consent_error \<Rightarrow> agent_error" where
  "consent_failed e = (case e of CeApprovalRequired i op tier \<Rightarrow> ErApprovalRequired i | _ \<Rightarrow> ErConsent e)"

definition require_consent :: "cext \<Rightarrow> consent_input \<Rightarrow> string \<Rightarrow> governed_operation \<Rightarrow> string \<Rightarrow> supervisor \<Rightarrow> (agent_error + unit) \<times> supervisor" where
  "require_consent C io i op payload sv = (case sv_agent sv i of
     None \<Rightarrow> (Inl (ErNotFound i), sv)
   | Some h \<Rightarrow> (case enforce_operation C io op i payload (ah_consent h) (sv_env sv) of
       (r, rt, env) \<Rightarrow> ((case r of Inl e \<Rightarrow> Inl (consent_failed e) | Inr u \<Rightarrow> Inr ()),
         (put_agent i (h\<lparr>ah_consent := rt\<rparr>) sv)\<lparr>sv_env := env\<rparr>)))"

definition guarded :: "cext \<Rightarrow> string \<Rightarrow> (autonomy_guard \<Rightarrow> audit_env \<Rightarrow> (autonomy_denied + unit) \<times> autonomy_guard \<times> audit_env) \<Rightarrow> supervisor \<Rightarrow> (agent_error + unit) \<times> supervisor" where
  "guarded C i check sv = (case sv_agent sv i of
     None \<Rightarrow> (Inl (ErNotFound i), sv)
   | Some h \<Rightarrow> (case check (ah_guard h) (sv_env sv) of
       (r, g, env) \<Rightarrow> ((case r of Inl e \<Rightarrow> Inl (ErAutonomy e) | Inr u \<Rightarrow> Inr ()),
         (put_agent i (h\<lparr>ah_guard := g\<rparr>) sv)\<lparr>sv_env := env\<rparr>)))"

definition gate :: "cext \<Rightarrow> consent_input \<Rightarrow> string \<Rightarrow> governed_operation \<Rightarrow> string \<Rightarrow> guard_call \<Rightarrow> supervisor \<Rightarrow> (agent_error + unit) \<times> supervisor" where
  "gate C io i op payload check sv = (case require_consent C io i op payload sv of
     (Inl e, sv) \<Rightarrow> (Inl e, sv)
   | (Inr u, sv) \<Rightarrow> guarded C i (check (cx_audit C) i) sv)"

definition sv_require_tool_call :: "cext \<Rightarrow> consent_input \<Rightarrow> string \<Rightarrow> supervisor \<Rightarrow> (agent_error + unit) \<times> supervisor" where
  "sv_require_tool_call C io i sv = (case gate C io i GoToolCall ''supervisor.tool_call'' require_tool_call sv of
     (Inl e, sv) \<Rightarrow> (Inl e, sv)
   | (Inr u, sv) \<Rightarrow>
       if has_policies (sv_policies sv)
       then guarded C i (\<lambda>g. require_level_with_policy (cx_audit C) i (ag_level g) ''tool_call'' (Some (sv_policies sv)) g) sv
       else (Inr (), sv))"

definition sv_require_multi_agent :: "cext \<Rightarrow> consent_input \<Rightarrow> string \<Rightarrow> supervisor \<Rightarrow> (agent_error + unit) \<times> supervisor" where
  "sv_require_multi_agent C io i sv = gate C io i GoMultiAgentOrchestrate ''supervisor.multi_agent'' require_multi_agent sv"

definition sv_require_self_modification :: "cext \<Rightarrow> consent_input \<Rightarrow> string \<Rightarrow> supervisor \<Rightarrow> (agent_error + unit) \<times> supervisor" where
  "sv_require_self_modification C io i sv = gate C io i GoSelfMutationApply ''supervisor.self_modification'' require_self_modification sv"

definition sv_require_distributed :: "cext \<Rightarrow> consent_input \<Rightarrow> string \<Rightarrow> supervisor \<Rightarrow> (agent_error + unit) \<times> supervisor" where
  "sv_require_distributed C io i sv = gate C io i GoDistributedEnable ''supervisor.distributed'' require_distributed sv"

definition decide_consent :: "cext \<Rightarrow> consent_input \<Rightarrow> approval_verdict \<Rightarrow> string \<Rightarrow> string \<Rightarrow> string \<Rightarrow> supervisor \<Rightarrow> (agent_error + unit) \<times> supervisor" where
  "decide_consent C io verdict i request_id approver sv = (case sv_agent sv i of
     None \<Rightarrow> (Inl (ErNotFound i), sv)
   | Some h \<Rightarrow> (case decide_request C io verdict request_id approver (ah_consent h) (sv_env sv) of
       (r, rt, env) \<Rightarrow> ((case r of Inl e \<Rightarrow> Inl (consent_failed e) | Inr u \<Rightarrow> Inr ()),
         (put_agent i (h\<lparr>ah_consent := rt\<rparr>) sv)\<lparr>sv_env := env\<rparr>)))"



section \<open>Agents and ledgers after an operation\<close>

lemma sv_put [simp]:
  "sv_agent (put_agent i h sv) j = (if j = i then Some h else sv_agent sv j)" "sv_ledger (put_agent i h sv) = sv_ledger sv"
  "sv_ledger (put_ledger i l sv) j = (if j = i then Some l else sv_ledger sv j)" "sv_agent (put_ledger i l sv) = sv_agent sv"
  "sv_agent (sv\<lparr>sv_env := env\<rparr>) = sv_agent sv" "sv_ledger (sv\<lparr>sv_env := env\<rparr>) = sv_ledger sv"
  "sv_config (put_agent i h sv) = sv_config sv" "sv_config (put_ledger i l sv) = sv_config sv"
  by (auto simp: sv_agent_def sv_ledger_def put_agent_def put_ledger_def update_conv fun_upd_def)

definition keyed :: "supervisor \<Rightarrow> bool" where
  "keyed sv \<longleftrightarrow> distinct (map fst (sv_agents sv))"

lemma keyed_put [simp]: "keyed sv \<Longrightarrow> keyed (put_agent i h sv)" "keyed (put_ledger i l sv) = keyed sv" "keyed (sv\<lparr>sv_env := env\<rparr>) = keyed sv"
  by (simp_all add: keyed_def put_agent_def put_ledger_def distinct_update)

text \<open>No operation of this kind brings an agent into an active state or up in level.\<close>

definition tame :: "supervisor \<Rightarrow> supervisor \<Rightarrow> bool" where
  "tame sv sv' \<longleftrightarrow> sv_config sv' = sv_config sv \<and> (keyed sv \<longrightarrow> keyed sv') \<and> (\<forall>j h'. sv_agent sv' j = Some h' \<longrightarrow> (\<exists>h. sv_agent sv j = Some h
     \<and> (ah_autonomy_level h' = ah_autonomy_level h \<or> ah_autonomy_level h' = 0) \<and> (is_active (ah_state h') \<longrightarrow> is_active (ah_state h))))"

lemma tame_refl [simp]: "tame sv sv"
  by (simp add: tame_def)

lemma tame_trans: "tame a b \<Longrightarrow> tame b c \<Longrightarrow> tame a c"
  unfolding tame_def by (metis (no_types, lifting))

lemma tame_env [simp]: "tame sv (sv'\<lparr>sv_env := env\<rparr>) = tame sv sv'" "tame sv (put_ledger i l sv') = tame sv sv'"
  by (simp_all add: tame_def)

lemma tame_put:
  assumes "tame sv0 sv" "sv_agent sv i = Some h" "ah_autonomy_level h' = ah_autonomy_level h \<or> ah_autonomy_level h' = 0"
    "is_active (ah_state h') \<Longrightarrow> is_active (ah_state h)"
  shows "tame sv0 (put_agent i h' sv)"
proof -
  have "tame sv (put_agent i h' sv)" using assms(2-4) by (auto simp: tame_def)
  then show ?thesis using assms(1) tame_trans by blast
qed

named_theorems tames

lemma violation_tame [tames]: "apply_fuel_violation C i v reason sv = (e, sv') \<Longrightarrow> tame sv sv'"
  by (auto simp: apply_fuel_violation_def Let_def intro!: tame_put split: option.split_asm prod.split_asm)

lemma violation_tame_put:
  "apply_fuel_violation C i v reason (put_agent i h' sv) = (e, sv') \<Longrightarrow> sv_agent sv i = Some h \<Longrightarrow>
     ah_autonomy_level h' = ah_autonomy_level h \<Longrightarrow> ah_state h' = ah_state h \<Longrightarrow> tame sv sv'"
  by (drule violation_tame, erule tame_trans [rotated], rule tame_put) simp_all

lemma reserve_tame [tames]: "sv_reserve_fuel C i c act sv = (r, sv') \<Longrightarrow> tame sv sv'"
  by (auto simp: sv_reserve_fuel_def intro!: tame_put split: option.split_asm prod.split_asm if_split_asm dest: violation_tame)

lemma commit_tame [tames]: 
  assumes "sv_commit_fuel C c r sv = (res, sv')"
  shows "tame sv sv'"
proof -
  let ?i = "fh_agent_id r" and ?refund = "fh_reserved_amount r - c"
  define sv1 where "sv1 = (case sv_agent sv ?i of
      Some h \<Rightarrow> if ?refund > 0 then put_agent ?i (h\<lparr>ah_remaining_fuel := add_u64 (ah_remaining_fuel h) ?refund\<rparr>) sv else sv | None \<Rightarrow> sv)"
  have 1: "tame sv sv1" by (auto simp: sv1_def intro!: tame_put split: option.split)
  have "tame sv1 sv'"
    using assms unfolding sv_commit_fuel_def Let_def sv1_def [symmetric]
    by (auto split: option.split_asm prod.split_asm sum.split_asm dest!: violation_tame intro: tame_trans [rotated])
  then show ?thesis using 1 tame_trans by blast
qed

lemma consume_tame [tames]: "consume_fuel_units C i reason c sv = (r, sv') \<Longrightarrow> tame sv sv'"
  by (auto simp: consume_fuel_units_def split: prod.split_asm sum.split_asm dest!: reserve_tame commit_tame intro: tame_trans)

lemma cancel_tame [tames]: "tame sv (sv_cancel_fuel r sv)"
  by (auto simp: sv_cancel_fuel_def intro!: tame_put split: option.split)

lemma spend_tame [tames]:
  assumes "sv_record_llm_spend C i model a b c sv = (r, sv')"
  shows "tame sv sv'"
proof (cases "sv_agent sv i")
  case None
  then show ?thesis using assms by (simp add: sv_record_llm_spend_def)
next
  case (Some h)
  then show ?thesis using assms
    by (auto simp: sv_record_llm_spend_def Let_def split: if_split_asm option.split_asm prod.split_asm sum.split_asm
        dest!: violation_tame intro!: tame_put elim!: tame_trans [rotated])
qed

lemma gates_tame [tames]:
  "require_consent C io i op payload sv = (r, sv') \<Longrightarrow> tame sv sv'"
  "guarded C i check sv = (r, sv') \<Longrightarrow> tame sv sv'"
  "decide_consent C io verdict i request approver sv = (r, sv') \<Longrightarrow> tame sv sv'"
  by (auto simp: require_consent_def guarded_def decide_consent_def intro!: tame_put split: option.split_asm prod.split_asm)

lemma gate_tame [tames]: "gate C io i op payload check sv = (r, sv') \<Longrightarrow> tame sv sv'"
  by (auto simp: gate_def split: prod.split_asm sum.split_asm dest!: gates_tame intro: tame_trans)

lemma tool_call_tame [tames]: "sv_require_tool_call C io i sv = (r, sv') \<Longrightarrow> tame sv sv'"
  by (auto simp: sv_require_tool_call_def split: prod.split_asm sum.split_asm if_split_asm dest!: gate_tame gates_tame intro: tame_trans)

lemma valid_active: "is_valid_transition s t \<Longrightarrow> t \<noteq> AsStarting \<Longrightarrow> is_active t \<Longrightarrow> is_active s"
  by (cases s; cases t) (simp_all add: is_valid_transition_def is_active_def)

lemma tame_state:
  "sv_agent sv i = Some h \<Longrightarrow> is_valid_transition (ah_state h) st \<Longrightarrow> st \<noteq> AsStarting \<Longrightarrow> tame sv (put_agent i (h\<lparr>ah_state := st\<rparr>) sv)"
  using valid_active by (intro tame_put [of sv sv i h]) auto

lemma transition_tame [tames]: "transition_agent_state C i st reason sv = (r, sv') \<Longrightarrow> st \<noteq> AsStarting \<Longrightarrow> tame sv sv'"
  by (auto simp: transition_agent_state_def transition_state_def intro!: tame_state
      split: option.split_asm sum.split_asm prod.split_asm if_split_asm)

lemma set_state_tame [tames]: "set_state i st sv = (r, sv') \<Longrightarrow> st \<noteq> AsStarting \<Longrightarrow> tame sv sv'"
  by (auto simp: set_state_def transition_state_def intro!: tame_state
      split: option.split_asm sum.split_asm prod.split_asm if_split_asm)

lemma stop_tame [tames]: "stop_agent C i sv = (r, sv') \<Longrightarrow> tame sv sv'"
  by (auto simp: stop_agent_def split: option.split_asm sum.split_asm prod.split_asm if_split_asm
      dest!: consume_tame transition_tame intro: tame_trans)

lemma pause_tame [tames]: "pause_agent C i sv = (r, sv') \<Longrightarrow> tame sv sv'" "resume_agent C i sv = (r, sv') \<Longrightarrow> tame sv sv'"
  by (auto simp: pause_agent_def resume_agent_def split: option.split_asm sum.split_asm prod.split_asm if_split_asm
      dest!: transition_tame)

lemma halt_tame: "\<not> is_active st \<Longrightarrow> tame sv (halt_transition C i st sv)"
  by (auto simp: halt_transition_def force_transition_agent_state_def is_active_def intro!: tame_put
      split: option.split prod.split sum.split dest: transition_tame)

lemma safety_tame [tames]: "apply_safety_action C i action sv = (r, sv') \<Longrightarrow> tame sv sv'"
  by (auto simp: apply_safety_action_def is_active_def intro!: halt_tame tame_trans [OF halt_tame halt_tame]
      split: safety_action.split_asm prod.split_asm sum.split_asm)


section \<open>The caps on active agents\<close>

definition active_ids :: "nat \<Rightarrow> supervisor \<Rightarrow> string set" where
  "active_ids level sv = {j. \<exists>h. sv_agent sv j = Some h \<and> ah_autonomy_level h = level \<and> is_active (ah_state h)}"

lemma finite_active [simp]: "finite (active_ids level sv)"
  by (rule finite_subset [OF _ finite_dom_map_of [of "sv_agents sv"]]) (auto simp: active_ids_def sv_agent_def)

lemma length_filter_ids:
  "distinct (map fst xs) \<Longrightarrow> length (filter (\<lambda>(j, h). P j h) xs) = card {j. \<exists>h. map_of xs j = Some h \<and> P j h}"
proof (induction xs)
  case (Cons x xs)
  obtain k v where x: "x = (k, v)" by fastforce
  let ?A = "{j. \<exists>h. map_of xs j = Some h \<and> P j h}"
  have fin: "finite ?A" by (rule finite_subset [OF _ finite_dom_map_of [of xs]]) auto
  have k: "map_of xs k = None" using Cons.prems x by (auto simp: map_of_eq_None_iff)
  have eq: "{j. \<exists>h. map_of (x # xs) j = Some h \<and> P j h} = (if P k v then insert k ?A else ?A)"
    using k x by (auto split: if_split_asm)
  have "k \<notin> ?A" using k by simp
  then show ?case using Cons fin x unfolding eq by simp
qed simp

lemma active_at_card: "keyed sv \<Longrightarrow> length (active_at level sv) = card (active_ids level sv)"
  unfolding active_at_def active_ids_def sv_agent_def keyed_def by (rule length_filter_ids)

lemma others_at_cap_card: "keyed sv \<Longrightarrow> others_at_cap level cap i sv \<longleftrightarrow> cap \<le> card (active_ids level sv - {i})"
proof -
  assume k: "keyed sv"
  have "filter (\<lambda>(j, h). j \<noteq> i) (active_at level sv)
      = filter (\<lambda>(j, h). j \<noteq> i \<and> ah_autonomy_level h = level \<and> is_active (ah_state h)) (sv_agents sv)"
    by (auto simp: active_at_def intro!: filter_cong)
  moreover have "{j. \<exists>h. map_of (sv_agents sv) j = Some h \<and> j \<noteq> i \<and> ah_autonomy_level h = level \<and> is_active (ah_state h)}
      = active_ids level sv - {i}"
    by (auto simp: active_ids_def sv_agent_def)
  ultimately show ?thesis using k length_filter_ids [of "sv_agents sv" "\<lambda>j h. j \<noteq> i \<and> ah_autonomy_level h = level \<and> is_active (ah_state h)"]
    by (simp add: others_at_cap_def keyed_def)
qed

lemma tame_active: "tame sv sv' \<Longrightarrow> level \<noteq> 0 \<Longrightarrow> active_ids level sv' \<subseteq> active_ids level sv"
  unfolding tame_def active_ids_def by fastforce

definition caps_ok :: "supervisor \<Rightarrow> bool" where
  "caps_ok sv \<longleftrightarrow> card (active_ids 5 sv) \<le> sc_max_l5_agents (sv_config sv) \<and> card (active_ids 6 sv) \<le> sc_max_l6_agents (sv_config sv)"

lemma tame_caps: "tame sv sv' \<Longrightarrow> caps_ok sv \<Longrightarrow> caps_ok sv'"
  using card_mono [OF finite_active tame_active [of sv sv' 5]] card_mono [OF finite_active tame_active [of sv sv' 6]]
  by (auto simp: caps_ok_def tame_def)

lemma caps_put [simp]: "caps_ok (sv\<lparr>sv_env := env\<rparr>) = caps_ok sv" "caps_ok (put_ledger j l sv) = caps_ok sv"
  by (simp_all add: caps_ok_def active_ids_def)

text \<open>Taking up one agent below the cap of its level.\<close>

lemma start_caps:
  assumes "caps_ok sv" "keyed sv" "sv_agent sv i = Some h" "level_capped (from_manifest (Some (ah_autonomy_level h))) i sv = None"
    and h': "ah_autonomy_level h' = ah_autonomy_level h"
  shows "caps_ok (put_agent i h' sv)"
proof -
  have sub: "active_ids l (put_agent i h' sv) \<subseteq> insert i (active_ids l sv - {i})" for l
    by (auto simp: active_ids_def split: if_split_asm)
  have other: "active_ids l (put_agent i h' sv) \<subseteq> active_ids l sv" if "l \<noteq> ah_autonomy_level h" for l
    using that h' by (auto simp: active_ids_def split: if_split_asm)
  have new: "card (active_ids l (put_agent i h' sv)) \<le> cap" if "\<not> others_at_cap l cap i sv" for l cap
  proof -
    have "card (active_ids l (put_agent i h' sv)) \<le> Suc (card (active_ids l sv - {i}))"
      using card_mono [OF _ sub [of l]] by (simp add: card_insert_if split: if_split_asm)
    then show ?thesis using that others_at_cap_card [OF assms(2)] by simp
  qed
  have "card (active_ids 5 (put_agent i h' sv)) \<le> sc_max_l5_agents (sv_config sv)"
  proof (cases "ah_autonomy_level h = 5")
    case True
    then show ?thesis using assms(4) new by (auto simp: level_capped_def from_manifest_def from_numeric_def split: if_split_asm)
  next
    case False
    then show ?thesis using assms(1) card_mono [OF finite_active other [of 5]] by (simp add: caps_ok_def)
  qed
  moreover have "card (active_ids 6 (put_agent i h' sv)) \<le> sc_max_l6_agents (sv_config sv)"
  proof (cases "ah_autonomy_level h = 6")
    case True
    then show ?thesis using assms(4) new by (auto simp: level_capped_def from_manifest_def from_numeric_def split: if_split_asm)
  next
    case False
    then show ?thesis using assms(1) card_mono [OF finite_active other [of 6]] by (simp add: caps_ok_def)
  qed
  ultimately show ?thesis by (simp add: caps_ok_def)
qed

lemma capped_tame:
  assumes "level_capped (from_manifest (Some (ah_autonomy_level h))) i sv = None" "tame sv sv'" "keyed sv"
    and "sv_agent sv i = Some h" "sv_agent sv' i = Some h'"
  shows "level_capped (from_manifest (Some (ah_autonomy_level h'))) i sv' = None"
proof -
  have k: "keyed sv'" "sv_config sv' = sv_config sv" using assms(2,3) by (auto simp: tame_def)
  have lvl: "ah_autonomy_level h' = ah_autonomy_level h \<or> ah_autonomy_level h' = 0" using assms(2,4,5) unfolding tame_def by fastforce
  have le: "card (active_ids l sv' - {i}) \<le> card (active_ids l sv - {i})" if "l \<noteq> 0" for l
    by (intro card_mono Diff_mono tame_active [OF assms(2) that]) simp_all
  have oth: "others_at_cap l cap i sv' \<Longrightarrow> others_at_cap l cap i sv" if "l \<noteq> 0" for l cap
    unfolding others_at_cap_card [OF k(1)] others_at_cap_card [OF assms(3)] using le [OF that] by simp
  show ?thesis using assms(1) lvl k(2) oth [of 5] oth [of 6]
    by (auto simp: level_capped_def from_manifest_def from_numeric_def split: if_split_asm)
qed

lemma set_starting_caps:
  assumes "caps_ok sv" "keyed sv" "sv_agent sv i = Some h" "level_capped (from_manifest (Some (ah_autonomy_level h))) i sv = None"
  shows "set_state i AsStarting sv = (r, sv') \<Longrightarrow> caps_ok sv' \<and> keyed sv'"
    and "transition_agent_state C i AsStarting reason sv = (r', sv'') \<Longrightarrow> caps_ok sv'' \<and> keyed sv''"
  using assms start_caps [OF assms, of "h\<lparr>ah_state := AsStarting\<rparr>"]
  by (auto simp: set_state_def transition_agent_state_def transition_state_def
      split: sum.split_asm prod.split_asm if_split_asm)

lemma running_caps:
  assumes "caps_ok sv" "keyed sv" "transition_to_running C i sv = (r, sv')"
  shows "caps_ok sv' \<and> keyed sv'"
proof (cases "\<exists>h. sv_agent sv i = Some h \<and> ah_state h \<noteq> AsRunning \<and> level_capped (from_manifest (Some (ah_autonomy_level h))) i sv = None")
  case False
  then show ?thesis using assms by (auto simp: transition_to_running_def split: option.split_asm if_split_asm)
next
  case True
  then obtain h where h: "sv_agent sv i = Some h" "ah_state h \<noteq> AsRunning" "level_capped (from_manifest (Some (ah_autonomy_level h))) i sv = None"
    by blast
  obtain r1 sv1 where 1: "set_state i AsStarting sv = (r1, sv1)" by fastforce
  have ok1: "caps_ok sv1 \<and> keyed sv1" using set_starting_caps(1) [OF assms(1,2) h(1,3) 1] .
  have "tame sv1 sv'" using assms(3) h 1
    by (auto simp: transition_to_running_def split: sum.split_asm prod.split_asm dest!: consume_tame set_state_tame intro: tame_trans)
  then show ?thesis using ok1 tame_caps by (auto simp: tame_def)
qed

lemma restart_caps:
  assumes "caps_ok sv" "keyed sv" "restart_agent C i sv = (r, sv')"
  shows "caps_ok sv' \<and> keyed sv'"
proof (cases "\<exists>h. sv_agent sv i = Some h \<and> level_capped (from_manifest (Some (ah_autonomy_level h))) i sv = None")
  case False
  then show ?thesis using assms by (auto simp: restart_agent_def from_manifest_def split: option.split_asm if_split_asm)
next
  case True
  then obtain h where h: "sv_agent sv i = Some h" "level_capped (from_manifest (Some (ah_autonomy_level h))) i sv = None" by blast
  obtain r1 sv1 where 1: "(if ah_state h \<in> {AsRunning, AsPaused} then stop_agent C i sv else (Inr (), sv)) = (r1, sv1)" by fastforce
  obtain r2 sv2 where 2: "consume_fuel_units C i ''supervisor.restart'' 1 sv1 = (r2, sv2)" by fastforce
  obtain r3 sv3 where 3: "transition_agent_state C i AsStarting ''restart'' sv2 = (r3, sv3)" by fastforce
  have t1: "tame sv sv1" using 1 stop_tame by (auto split: if_split_asm)
  have t2: "tame sv sv2" using t1 consume_tame [OF 2] tame_trans by blast
  have ok2: "caps_ok sv2" "keyed sv2" using t2 tame_caps assms(1,2) by (auto simp: tame_def)
  have ok3: "caps_ok sv3 \<and> keyed sv3"
  proof (cases "sv_agent sv2 i")
    case None
    then show ?thesis using 3 ok2 by (simp add: transition_agent_state_def)
  next
    case (Some h2)
    then show ?thesis using set_starting_caps(2) [OF ok2 Some capped_tame [OF h(2) t2 assms(2) h(1) Some] 3] by blast
  qed
  have "sv' = sv1 \<or> sv' = sv2 \<or> sv' = sv3 \<or> (\<exists>r4. transition_agent_state C i AsRunning ''restart'' sv3 = (r4, sv'))"
    using assms(3) h 1 2 3 by (auto simp: restart_agent_def from_manifest_def split: sum.split_asm prod.split_asm)
  moreover have "caps_ok sv1 \<and> keyed sv1" using t1 tame_caps assms(1,2) by (auto simp: tame_def)
  moreover have "caps_ok sv' \<and> keyed sv'" if "transition_agent_state C i AsRunning ''restart'' sv3 = (r4, sv')" for r4
    using transition_tame [OF that] ok3 tame_caps by (auto simp: tame_def)
  ultimately show ?thesis using ok2 ok3 by blast
qed

lemma register_result:
  assumes "register_agent C i m st sv = (r, sv')"
  obtains "sv' = sv"
  | h period env where "sv_agent sv i = None" "ah_state h = st" "ah_remaining_fuel h = manifest_cap m"
      "sv' = (put_ledger i (ledger_new period (manifest_cap m) detector_default) (put_agent i h sv))\<lparr>sv_env := env\<rparr>"
proof (cases "sv_agent sv i = None \<and> consent_from_manifest (mf_consent_policy_path m) (mf_requester_id m) (mf_name m) \<noteq> None")
  case False
  then have "sv' = sv" using assms by (auto simp: register_agent_def Let_def split: if_split_asm)
  then show thesis using that by blast
next
  case True
  then obtain consent where c: "sv_agent sv i = None" "consent_from_manifest (mf_consent_policy_path m) (mf_requester_id m) (mf_name m) = Some consent"
    by auto
  define h where "h = \<lparr>ah_manifest = m, ah_guard = guard_new (from_manifest (mf_autonomy_level m)),
      ah_consent = (if has_policies (sv_policies sv) then set_cedar_engine (sv_policies sv) consent else consent),
      ah_autonomy_level = level_rank (from_manifest (mf_autonomy_level m)),
      ah_state = st, ah_remaining_fuel = manifest_cap m, ah_execution_mode = execution_mode_of (mf_capabilities m)\<rparr>"
  define period where "period = BudgetPeriodId_new (case mf_fuel_period_id m of Some p \<Rightarrow> p | None \<Rightarrow> asc ''period.default'')"
  define sv1 where "sv1 = put_ledger i (ledger_new period (manifest_cap m) detector_default) (put_agent i h sv)"
  have "\<exists>env. sv' = sv1\<lparr>sv_env := env\<rparr>"
    using assms c unfolding register_agent_def Let_def period_def [symmetric] h_def [symmetric]
    by (simp add: h_def [symmetric] sv1_def [symmetric] split: prod.split_asm sum.split_asm) blast+
  then obtain env where e: "sv' = sv1\<lparr>sv_env := env\<rparr>" by blast
  show thesis by (rule that(2) [where h = h and period = period and env = env]) (use c e in \<open>simp_all add: h_def sv1_def\<close>)
qed

lemma register_caps:
  assumes "caps_ok sv" "keyed sv" "register_agent C i m st sv = (r, sv')" "\<not> is_active st"
  shows "caps_ok sv' \<and> keyed sv'"
proof (use assms(3) in \<open>cases rule: register_result\<close>)
  case 1
  then show ?thesis using assms by simp
next
  case (2 h period env)
  have "active_ids l (put_agent i h sv) \<subseteq> active_ids l sv" for l using assms(4) 2(2) by (auto simp: active_ids_def split: if_split_asm)
  then have "caps_ok (put_agent i h sv)" using assms(1) card_mono [OF finite_active] unfolding caps_ok_def by (metis order_trans sv_put(7))
  then show ?thesis using 2(4) assms(2) by simp
qed

end
