(* ===== verification/Kernel_Supervision.thy ===== *)
theory Kernel_Supervision
  imports Kernel_Supervisor
begin

text \<open>Runs of the supervisor: the operations in any order, with the fuel held between a reservation and its commit or
  cancel, and what holds in all of them.\<close>


section \<open>Fuel stays within the cap\<close>

text \<open>An agent's balance, \<open>n\<close> units held for it and what its ledger has spent are together within the ledger's cap.\<close>

definition within :: "supervisor \<Rightarrow> string \<Rightarrow> nat \<Rightarrow> bool" where
  "within sv i n \<longleftrightarrow> (\<forall>h l. sv_agent sv i = Some h \<longrightarrow> sv_ledger sv i = Some l \<longrightarrow> ledger_ok l
     \<and> ah_remaining_fuel h + n + mb_spent_units (fl_budget l) \<le> mb_cap_units (fl_budget l) \<and> mb_cap_units (fl_budget l) \<le> U64_MAX)"

definition same_fuel :: "supervisor \<Rightarrow> supervisor \<Rightarrow> bool" where
  "same_fuel sv sv' \<longleftrightarrow> sv_ledger sv' = sv_ledger sv \<and> (\<forall>i. map_option ah_remaining_fuel (sv_agent sv' i) = map_option ah_remaining_fuel (sv_agent sv i))"

lemma same_fuel_within: "same_fuel sv sv' \<Longrightarrow> within sv i n \<Longrightarrow> within sv' i n"
  unfolding same_fuel_def within_def by (metis (no_types, lifting) option.map_sel option.sel option.simps(3) map_option_is_None not_None_eq)

lemma same_fuel_trans: "same_fuel a b \<Longrightarrow> same_fuel b c \<Longrightarrow> same_fuel a c"
  by (simp add: same_fuel_def)

lemma same_fuel_simps [simp]: "same_fuel sv sv" "same_fuel sv (sv'\<lparr>sv_env := env\<rparr>) = same_fuel sv sv'"
  by (simp_all add: same_fuel_def)

lemma same_fuel_put [simp]: "sv_agent sv i = Some h \<Longrightarrow> ah_remaining_fuel h' = ah_remaining_fuel h \<Longrightarrow> same_fuel sv (put_agent i h' sv)"
  by (simp add: same_fuel_def)

lemma violation_within:
  assumes "within sv i n" "apply_fuel_violation C j v reason sv = (e, sv')"
  shows "within sv' i n"
  using assms ledger_ok_violation
  by (auto simp: within_def apply_fuel_violation_def Let_def register_violation_def split: option.split_asm prod.split_asm if_split_asm)

lemma reserve_within:
  assumes "within sv i n" "sv_reserve_fuel C j c act sv = (r, sv')"
  shows "within sv' i (n + (if \<not> isl r \<and> i = j then c else 0))"
proof (cases "\<exists>h. sv_agent sv j = Some h \<and> c \<le> ah_remaining_fuel h")
  case True
  then show ?thesis using assms by (auto simp: sv_reserve_fuel_def within_def)
next
  case False
  then have "(\<exists>e. r = Inl e)" "sv' = sv \<or> (\<exists>reason e. apply_fuel_violation C j OverMonthlyCap reason sv = (e, sv'))"
    using assms(2) by (auto simp: sv_reserve_fuel_def split: option.split_asm if_split_asm prod.split_asm)
  then show ?thesis using assms(1) violation_within by auto
qed

lemma spend_within:
  assumes "within sv i (n + (if i = j then c else 0))" "sv_ledger sv j = Some l" "sv_agent sv j = Some h"
    and "record_llm_spend X j model a b c l env = (r, l', env')"
  shows "within (put_ledger j l' sv) i n"
proof (cases "i = j")
  case True
  then have l: "ledger_ok l" "ah_remaining_fuel h + (n + c) + mb_spent_units (fl_budget l) \<le> mb_cap_units (fl_budget l)"
      "mb_cap_units (fl_budget l) \<le> U64_MAX"
    using assms(1-3) by (auto simp: within_def)
  note s = spend_ledger [OF l(1) assms(4)]
  show ?thesis using True l s assms(3) by (auto simp: within_def sat_add_u64_def)
qed (use assms(1) in \<open>auto simp: within_def\<close>)

lemma within_env [simp]: "within (sv\<lparr>sv_env := env\<rparr>) i n = within sv i n"
  by (simp add: within_def)

lemma violation_within_env:
  "apply_fuel_violation C j v reason (sv\<lparr>sv_env := env\<rparr>) = (e, sv') \<Longrightarrow> within sv i n \<Longrightarrow> within sv' i n"
  using violation_within [of "sv\<lparr>sv_env := env\<rparr>" i n C j v reason e sv'] by simp

lemma within_mono: "within sv i n \<Longrightarrow> m \<le> n \<Longrightarrow> within sv i m"
  by (fastforce simp: within_def)

lemma within_refund:
  assumes "within sv i (n + (if i = j then c else 0))" "sv_agent sv j = Some h" "sv_ledger sv j \<noteq> None"
  shows "within (put_agent j (h\<lparr>ah_remaining_fuel := add_u64 (ah_remaining_fuel h) c\<rparr>) sv) i n"
  using assms by (auto simp: within_def add_u64_def)

lemma commit_within:
  assumes "within sv i (n + (if i = fh_agent_id r then fh_reserved_amount r else 0))" "actual \<le> fh_reserved_amount r"
    and "sv_commit_fuel C actual r sv = (res, sv')"
  shows "within sv' i n"
proof (cases "\<exists>h l. sv_agent sv (fh_agent_id r) = Some h \<and> sv_ledger sv (fh_agent_id r) = Some l")
  case False
  let ?j = "fh_agent_id r"
  have w: "within sv i n" using assms(1) by (rule within_mono) simp
  show ?thesis
  proof (cases "sv_ledger sv ?j")
    case None
    then show ?thesis using assms(3) w by (auto simp: sv_commit_fuel_def Let_def within_def split: option.split_asm if_split_asm)
  next
    case (Some l)
    then have no: "sv_agent sv ?j = None" using False by (cases "sv_agent sv ?j") auto
    obtain x l' env' where s: "record_llm_spend (cx_audit C) ?j (asc ''runtime'') 0 (as_u32 actual) actual l (sv_env sv) = (x, l', env')"
      by (metis prod_cases3)
    have w': "within ((put_ledger ?j l' sv)\<lparr>sv_env := env'\<rparr>) i n" using w no by (auto simp: within_def)
    show ?thesis using assms(3) Some no s w'
      by (auto simp: sv_commit_fuel_def Let_def split: sum.split_asm prod.split_asm dest: violation_within_env)
  qed
next
  case True
  let ?j = "fh_agent_id r" and ?refund = "fh_reserved_amount r - actual"
  obtain h l where h: "sv_agent sv ?j = Some h" "sv_ledger sv ?j = Some l" using True by blast
  define sv1 where "sv1 = (if ?refund > 0 then put_agent ?j (h\<lparr>ah_remaining_fuel := add_u64 (ah_remaining_fuel h) ?refund\<rparr>) sv else sv)"
  define model where "model = (case mf_llm_model (ah_manifest h) of Some m \<Rightarrow> m | None \<Rightarrow> asc ''runtime'')"
  have w1: "within sv1 i (n + (if i = ?j then actual else 0))"
  proof (cases "?refund > 0")
    case True
    have "within sv i ((n + (if i = ?j then actual else 0)) + (if i = ?j then ?refund else 0))" using assms(1,2) by (auto simp: within_def)
    then show ?thesis using True within_refund [OF _ h(1)] h(2) by (simp add: sv1_def)
  next
    case False
    then show ?thesis using assms(1,2) by (auto simp: sv1_def split: if_split_asm)
  qed
  obtain x l' env' where s: "record_llm_spend (cx_audit C) ?j model 0 (as_u32 actual) actual l (sv_env sv1) = (x, l', env')"
    by (metis prod_cases3)
  have "\<exists>h1. sv_agent sv1 ?j = Some h1 \<and> ah_manifest h1 = ah_manifest h" using h by (simp add: sv1_def)
  then obtain h1 where h1: "sv_agent sv1 ?j = Some h1" "ah_manifest h1 = ah_manifest h" by blast
  have l1: "sv_ledger sv1 ?j = Some l" using h by (simp add: sv1_def)
  have w2: "within ((put_ledger ?j l' sv1)\<lparr>sv_env := env'\<rparr>) i n" using spend_within [OF w1 l1 h1(1) s] by simp
  have f: "(case sv_agent sv ?j of
        Some h \<Rightarrow> if ?refund > 0 then put_agent ?j (h\<lparr>ah_remaining_fuel := add_u64 (ah_remaining_fuel h) ?refund\<rparr>) sv else sv
      | None \<Rightarrow> sv) = sv1"
    using h(1) by (simp add: sv1_def)
  have "sv_commit_fuel C actual r sv = (case x of
        Inr u \<Rightarrow> (Inr (), (put_ledger ?j l' sv1)\<lparr>sv_env := env'\<rparr>)
      | Inl violation \<Rightarrow> (case apply_fuel_violation C ?j violation (fh_action_type r) ((put_ledger ?j l' sv1)\<lparr>sv_env := env'\<rparr>) of
          (err, sv) \<Rightarrow> (Inl err, sv)))"
    unfolding sv_commit_fuel_def Let_def f using h1 l1 s by (simp add: model_def)
  then show ?thesis using assms(3) w2 by (auto split: sum.split_asm prod.split_asm dest: violation_within_env)
qed

lemma consume_within:
  assumes "within sv i n" "consume_fuel_units C j reason c sv = (r, sv')"
  shows "within sv' i n"
proof -
  obtain x sv1 where 1: "sv_reserve_fuel C j c reason sv = (x, sv1)" by fastforce
  note w = reserve_within [OF assms(1) 1]
  show ?thesis
  proof (cases x)
    case (Inl e)
    then show ?thesis using assms(2) 1 w by (simp add: consume_fuel_units_def)
  next
    case (Inr hold)
    then have "hold = \<lparr>fh_agent_id = j, fh_reserved_amount = c, fh_action_type = reason\<rparr>"
      using 1 by (auto simp: sv_reserve_fuel_def split: option.split_asm if_split_asm prod.split_asm)
    then show ?thesis using assms(2) 1 w Inr commit_within [of sv1 i n "\<lparr>fh_agent_id = j, fh_reserved_amount = c, fh_action_type = reason\<rparr>" c C r sv']
      by (cases "i = j") (simp_all add: consume_fuel_units_def)
  qed
qed

lemma llm_spend_within:
  assumes "within sv i n" "sv_record_llm_spend C j model a b c sv = (r, sv')"
  shows "within sv' i n"
proof (cases "\<exists>h. sv_agent sv j = Some h \<and> c \<le> ah_remaining_fuel h")
  case False
  then have "sv' = sv \<or> (\<exists>v reason e. apply_fuel_violation C j v reason sv = (e, sv'))"
    using assms(2) by (auto simp: sv_record_llm_spend_def split: option.split_asm if_split_asm prod.split_asm)
  then show ?thesis using assms(1) violation_within by blast
next
  case True
  then obtain h where h: "sv_agent sv j = Some h" "c \<le> ah_remaining_fuel h" by blast
  let ?paid = "h\<lparr>ah_remaining_fuel := ah_remaining_fuel h - c\<rparr>"
  let ?sv1 = "put_agent j ?paid sv"
  have w1: "within ?sv1 i (n + (if i = j then c else 0))" using assms(1) h by (auto simp: within_def)
  show ?thesis
  proof (cases "sv_ledger sv j")
    case None
    then show ?thesis using assms h by (auto simp: sv_record_llm_spend_def within_def split: if_split_asm)
  next
    case (Some l)
    obtain x l' env' where s: "record_llm_spend (cx_audit C) j model a b c l (sv_env ?sv1) = (x, l', env')" by (metis prod_cases3)
    have w2: "within (put_ledger j l' ?sv1) i n" using spend_within [OF w1 _ _ s, of ?paid] Some by simp
    let ?refilled = "put_agent j (?paid\<lparr>ah_remaining_fuel := add_u64 (ah_remaining_fuel ?paid) c\<rparr>) ((put_ledger j l' ?sv1)\<lparr>sv_env := env'\<rparr>)"
    have v: "within sv2 i n" if "apply_fuel_violation C j v reason ?refilled = (e, sv2)" for v reason e sv2
    proof -
      have "within (snd (apply_fuel_violation C j v reason ?refilled)) i n" using w2
        by (auto simp: within_def apply_fuel_violation_def Let_def register_violation_def ledger_ok_def split: prod.split)
      then show ?thesis using that by simp
    qed
    show ?thesis using assms(2) h Some s w2 v
      by (auto simp: sv_record_llm_spend_def Let_def split: sum.split_asm prod.split_asm)
  qed
qed

lemma state_same_fuel:
  "transition_agent_state C i st reason sv = (r, sv') \<Longrightarrow> same_fuel sv sv'"
  "set_state i st sv = (r', sv') \<Longrightarrow> same_fuel sv sv'"
  "same_fuel sv (halt_transition C i st sv)"
  by (auto simp: transition_agent_state_def set_state_def halt_transition_def force_transition_agent_state_def transition_state_def
      split: option.split option.split_asm sum.split sum.split_asm prod.split_asm prod.split if_split_asm)

lemma gates_same_fuel:
  "require_consent C io i op payload sv = (r, sv') \<Longrightarrow> same_fuel sv sv'"
  "guarded C i check sv = (r, sv') \<Longrightarrow> same_fuel sv sv'"
  "decide_consent C io verdict i request approver sv = (r, sv') \<Longrightarrow> same_fuel sv sv'"
  by (auto simp: require_consent_def guarded_def decide_consent_def split: option.split_asm prod.split_asm)

lemma gate_same_fuel: "gate C io i op payload check sv = (r, sv') \<Longrightarrow> same_fuel sv sv'"
  by (auto simp: gate_def split: prod.split_asm sum.split_asm dest!: gates_same_fuel intro: same_fuel_trans)

lemma tool_call_same_fuel: "sv_require_tool_call C io i sv = (r, sv') \<Longrightarrow> same_fuel sv sv'"
  by (auto simp: sv_require_tool_call_def split: prod.split_asm sum.split_asm if_split_asm dest!: gate_same_fuel gates_same_fuel intro: same_fuel_trans)

lemmas state_within = state_same_fuel(1,2) [THEN same_fuel_within]
lemmas consume_within' = consume_within [rotated]

lemma stop_within: "stop_agent C j sv = (r, sv') \<Longrightarrow> within sv i n \<Longrightarrow> within sv' i n"
  by (auto simp: stop_agent_def split: option.split_asm sum.split_asm prod.split_asm if_split_asm dest!: consume_within' state_within)

lemma pause_within:
  "pause_agent C j sv = (r, sv') \<Longrightarrow> within sv i n \<Longrightarrow> within sv' i n"
  "resume_agent C j sv = (r, sv') \<Longrightarrow> within sv i n \<Longrightarrow> within sv' i n"
  by (auto simp: pause_agent_def resume_agent_def split: option.split_asm sum.split_asm prod.split_asm if_split_asm dest!: state_within)

lemma running_within: "transition_to_running C j sv = (r, sv') \<Longrightarrow> within sv i n \<Longrightarrow> within sv' i n"
  by (auto simp: transition_to_running_def split: option.split_asm sum.split_asm prod.split_asm if_split_asm dest!: consume_within' state_within)

lemma restart_within: "restart_agent C j sv = (r, sv') \<Longrightarrow> within sv i n \<Longrightarrow> within sv' i n"
  by (auto simp: restart_agent_def split: option.split_asm sum.split_asm prod.split_asm if_split_asm
      dest!: stop_within consume_within' state_within)

lemma safety_within: "apply_safety_action C j action sv = (r, sv') \<Longrightarrow> within sv i n \<Longrightarrow> within sv' i n"
  by (auto simp: apply_safety_action_def split: safety_action.split_asm prod.split_asm sum.split_asm
      intro!: same_fuel_within [OF state_same_fuel(3)])



section \<open>Runs of the supervisor\<close>

record supervised =
  sd_sup :: supervisor
  sd_holds :: "fuel_hold multiset"

definition held :: "supervised \<Rightarrow> string \<Rightarrow> nat" where
  "held s i = \<Sum>\<^sub># (image_mset fh_reserved_amount (filter_mset (\<lambda>r. fh_agent_id r = i) (sd_holds s)))"

text \<open>Agents are registered under fresh identifiers in a state that is not active, as \<open>start_agent\<close> does; a reservation
  is committed for at most its amount; a report is restored with a balance that fits its cap.\<close>

definition checks :: "guard_call set" where
  "checks = {require_tool_call, require_multi_agent, require_self_modification, require_distributed}"

inductive sup_step :: "cext \<Rightarrow> supervised \<Rightarrow> supervised \<Rightarrow> bool" for C where
  registered: "register_agent C i m st (sd_sup s) = (r, sv) \<Longrightarrow> \<not> is_active st \<Longrightarrow> held s i = 0 \<Longrightarrow> manifest_cap m \<le> U64_MAX \<Longrightarrow>
    sup_step C s (s\<lparr>sd_sup := sv\<rparr>)"
| lived: "transition_to_running C i (sd_sup s) = (r, sv) \<or> restart_agent C i (sd_sup s) = (r, sv) \<or> stop_agent C i (sd_sup s) = (r, sv)
      \<or> pause_agent C i (sd_sup s) = (r, sv) \<or> resume_agent C i (sd_sup s) = (r, sv) \<or> apply_safety_action C i action (sd_sup s) = (r, sv) \<Longrightarrow>
    sup_step C s (s\<lparr>sd_sup := sv\<rparr>)"
| reserved: "sv_reserve_fuel C i cost act (sd_sup s) = (Inr r, sv) \<Longrightarrow> sup_step C s \<lparr>sd_sup = sv, sd_holds = add_mset r (sd_holds s)\<rparr>"
| refused: "sv_reserve_fuel C i cost act (sd_sup s) = (Inl e, sv) \<Longrightarrow> sup_step C s (s\<lparr>sd_sup := sv\<rparr>)"
| committed: "sd_holds s = add_mset r rest \<Longrightarrow> actual \<le> fh_reserved_amount r \<Longrightarrow> sv_commit_fuel C actual r (sd_sup s) = (x, sv) \<Longrightarrow>
    sup_step C s \<lparr>sd_sup = sv, sd_holds = rest\<rparr>"
| cancelled: "sd_holds s = add_mset r rest \<Longrightarrow> sup_step C s \<lparr>sd_sup = sv_cancel_fuel r (sd_sup s), sd_holds = rest\<rparr>"
| spent: "sv_record_llm_spend C i model a b cost (sd_sup s) = (r, sv) \<Longrightarrow> sup_step C s (s\<lparr>sd_sup := sv\<rparr>)"
| restored: "restore_fuel_report i report fuel (sd_sup s) = (r, sv) \<Longrightarrow> ledger_ok (from_report report) \<Longrightarrow>
    fuel + held s i + mb_spent_units (fl_budget (from_report report)) \<le> mb_cap_units (fl_budget (from_report report)) \<Longrightarrow>
    mb_cap_units (fl_budget (from_report report)) \<le> U64_MAX \<Longrightarrow> sup_step C s (s\<lparr>sd_sup := sv\<rparr>)"
| gated: "sv_require_tool_call C io i (sd_sup s) = (r, sv) \<or> check \<in> checks \<and> gate C io i op payload check (sd_sup s) = (r, sv)
      \<or> require_consent C io i op payload (sd_sup s) = (r, sv) \<or> decide_consent C io verdict i request approver (sd_sup s) = (r, sv) \<Longrightarrow>
    sup_step C s (s\<lparr>sd_sup := sv\<rparr>)"
| cleared: "sup_step C s (s\<lparr>sd_sup := clear_all_agents (sd_sup s)\<rparr>)"

definition sup_start :: "supervisor_config \<Rightarrow> policy list \<Rightarrow> audit_env \<Rightarrow> supervised" where
  "sup_start c policies env = \<lparr>sd_sup = supervisor_new c policies env, sd_holds = {#}\<rparr>"

definition sup_ok :: "supervised \<Rightarrow> bool" where
  "sup_ok s \<longleftrightarrow> keyed (sd_sup s) \<and> caps_ok (sd_sup s) \<and> (\<forall>i. within (sd_sup s) i (held s i))
     \<and> (\<forall>i. sv_agent (sd_sup s) i \<noteq> None \<longrightarrow> sv_ledger (sd_sup s) i \<noteq> None)"

lemma sup_ok_start: "sup_ok (sup_start c policies env)"
  by (simp add: sup_ok_def sup_start_def supervisor_new_def keyed_def caps_ok_def active_ids_def within_def sv_agent_def)

text \<open>No operation but a registration adds an agent, and none takes a ledger away.\<close>

definition rostered :: "supervisor \<Rightarrow> supervisor \<Rightarrow> bool" where
  "rostered sv sv' \<longleftrightarrow> sv_config sv' = sv_config sv \<and> (\<forall>i. sv_agent sv' i \<noteq> None \<longrightarrow> sv_agent sv i \<noteq> None)
     \<and> (\<forall>i. sv_ledger sv i \<noteq> None \<longrightarrow> sv_ledger sv' i \<noteq> None)"

lemma rostered_trans: "rostered a b \<Longrightarrow> rostered b c \<Longrightarrow> rostered a c"
  by (simp add: rostered_def)

lemma rostered_simps [simp]:
  "rostered sv sv" "rostered sv (sv'\<lparr>sv_env := env\<rparr>) = rostered sv sv'"
  "rostered sv sv' \<Longrightarrow> rostered sv (put_ledger i l sv')" "rostered sv sv' \<Longrightarrow> sv_agent sv' i = Some h \<Longrightarrow> rostered sv (put_agent i h' sv')"
  by (auto simp: rostered_def)

lemma violation_rostered: "apply_fuel_violation C i v reason sv = (e, sv') \<Longrightarrow> rostered sv0 sv \<Longrightarrow> rostered sv0 sv'"
  by (auto simp: apply_fuel_violation_def Let_def split: option.split_asm prod.split_asm)

lemma reserve_rostered: "sv_reserve_fuel C i c act sv = (r, sv') \<Longrightarrow> rostered sv0 sv \<Longrightarrow> rostered sv0 sv'"
  by (auto simp: sv_reserve_fuel_def split: option.split_asm prod.split_asm if_split_asm dest!: violation_rostered)

lemma commit_rostered: "sv_commit_fuel C c r sv = (x, sv') \<Longrightarrow> rostered sv0 sv \<Longrightarrow> rostered sv0 sv'"
  by (auto simp: sv_commit_fuel_def Let_def split: option.split_asm prod.split_asm sum.split_asm if_split_asm dest!: violation_rostered)

lemma consume_rostered: "consume_fuel_units C i reason c sv = (r, sv') \<Longrightarrow> rostered sv0 sv \<Longrightarrow> rostered sv0 sv'"
  by (auto simp: consume_fuel_units_def split: prod.split_asm sum.split_asm dest!: reserve_rostered commit_rostered)

lemma state_rostered:
  "transition_agent_state C i st reason sv = (r, sv') \<Longrightarrow> rostered sv0 sv \<Longrightarrow> rostered sv0 sv'"
  "set_state i st sv = (r', sv') \<Longrightarrow> rostered sv0 sv \<Longrightarrow> rostered sv0 sv'"
  by (auto simp: transition_agent_state_def set_state_def split: option.split_asm sum.split_asm prod.split_asm)

lemma halt_rostered: "rostered sv0 sv \<Longrightarrow> rostered sv0 (halt_transition C i st sv)"
  by (auto simp: halt_transition_def force_transition_agent_state_def split: option.split prod.split sum.split dest: state_rostered)

lemma stop_rostered: "stop_agent C i sv = (r, sv') \<Longrightarrow> rostered sv0 sv \<Longrightarrow> rostered sv0 sv'"
  by (auto simp: stop_agent_def split: option.split_asm sum.split_asm prod.split_asm if_split_asm dest!: consume_rostered state_rostered)

lemma life_rostered:
  "pause_agent C i sv = (r, sv') \<Longrightarrow> rostered sv0 sv \<Longrightarrow> rostered sv0 sv'"
  "resume_agent C i sv = (r, sv') \<Longrightarrow> rostered sv0 sv \<Longrightarrow> rostered sv0 sv'"
  "transition_to_running C i sv = (r, sv') \<Longrightarrow> rostered sv0 sv \<Longrightarrow> rostered sv0 sv'"
  "apply_safety_action C i action sv = (r, sv') \<Longrightarrow> rostered sv0 sv \<Longrightarrow> rostered sv0 sv'"
  by (auto simp: pause_agent_def resume_agent_def transition_to_running_def apply_safety_action_def
      split: option.split_asm sum.split_asm prod.split_asm if_split_asm safety_action.split_asm
      dest!: consume_rostered state_rostered intro!: halt_rostered)

lemma restart_rostered: "restart_agent C i sv = (r, sv') \<Longrightarrow> rostered sv0 sv \<Longrightarrow> rostered sv0 sv'"
  by (auto simp: restart_agent_def split: option.split_asm sum.split_asm prod.split_asm if_split_asm
      dest!: stop_rostered consume_rostered state_rostered)

lemma spend_rostered: "sv_record_llm_spend C i model a b c sv = (r, sv') \<Longrightarrow> rostered sv sv'"
  by (auto simp: sv_record_llm_spend_def Let_def split: option.split_asm sum.split_asm prod.split_asm if_split_asm dest!: violation_rostered)

lemma same_fuel_rostered: "tame sv sv' \<Longrightarrow> same_fuel sv sv' \<Longrightarrow> rostered sv sv'"
  unfolding tame_def same_fuel_def rostered_def by fastforce

lemma gates_rostered:
  "sv_require_tool_call C io i sv = (r, sv') \<or> check \<in> checks \<and> gate C io i op payload check sv = (r, sv')
     \<or> require_consent C io i op payload sv = (r, sv') \<or> decide_consent C io verdict i request approver sv = (r, sv') \<Longrightarrow>
   tame sv sv' \<and> same_fuel sv sv' \<and> rostered sv sv'"
  by (metis tool_call_tame gate_tame gates_tame(1,3) tool_call_same_fuel gate_same_fuel gates_same_fuel(1,3) same_fuel_rostered)

lemma register_within:
  assumes "register_agent C j m st sv = (r, sv')" "within sv i n" "i = j \<Longrightarrow> n = 0" "manifest_cap m \<le> U64_MAX"
  shows "within sv' i n"
proof -
  have new: "ledger_ok (ledger_new p (manifest_cap m) d) \<and> mb_cap_units (fl_budget (ledger_new p (manifest_cap m) d)) = max (manifest_cap m) 1
      \<and> mb_spent_units (fl_budget (ledger_new p (manifest_cap m) d)) = 0" for p d
    using ledger_ok_new by (simp add: ledger_new_def budget_new_def)
  show ?thesis using assms(1)
  proof (cases rule: register_result)
    case (2 h period env)
    then show ?thesis using assms(2-4) new [of period detector_default] by (auto simp: within_def U64_MAX_def split: if_split_asm)
  qed (use assms(2) in simp)
qed

lemma register_ledger:
  assumes "register_agent C j m st sv = (r, sv')" "\<forall>i. sv_agent sv i \<noteq> None \<longrightarrow> sv_ledger sv i \<noteq> None"
  shows "sv_config sv' = sv_config sv \<and> (\<forall>i. sv_agent sv' i \<noteq> None \<longrightarrow> sv_ledger sv' i \<noteq> None)"
  using assms(1) by (cases rule: register_result) (use assms(2) in auto)

lemma held_simps [simp]:
  "held (s\<lparr>sd_sup := sv\<rparr>) = held s" "held \<lparr>sd_sup = sv, sd_holds = {#}\<rparr> i = 0"
  by (auto simp: held_def fun_eq_iff)

lemma held_add: "sd_holds s = add_mset r rest \<Longrightarrow>
    held s i = held \<lparr>sd_sup = sv, sd_holds = rest\<rparr> i + (if i = fh_agent_id r then fh_reserved_amount r else 0)"
  by (auto simp: held_def)

lemma rostered_ledgers:
  "rostered sv sv' \<Longrightarrow> \<forall>i. sv_agent sv i \<noteq> None \<longrightarrow> sv_ledger sv i \<noteq> None \<Longrightarrow> \<forall>i. sv_agent sv' i \<noteq> None \<longrightarrow> sv_ledger sv' i \<noteq> None"
  by (simp add: rostered_def)

lemma tame_ok: "tame sv sv' \<Longrightarrow> keyed sv \<Longrightarrow> caps_ok sv \<Longrightarrow> keyed sv' \<and> caps_ok sv'"
  using tame_caps by (auto simp: tame_def)

lemma cancel_within:
  assumes "within sv i (n + (if i = fh_agent_id r then fh_reserved_amount r else 0))" "sv_agent sv (fh_agent_id r) \<noteq> None \<longrightarrow> sv_ledger sv (fh_agent_id r) \<noteq> None"
  shows "within (sv_cancel_fuel r sv) i n"
proof (cases "sv_agent sv (fh_agent_id r)")
  case None
  then show ?thesis using within_mono [OF assms(1), of n] by (simp add: sv_cancel_fuel_def)
next
  case (Some h)
  then show ?thesis using within_refund [OF assms(1) Some] assms(2) by (simp add: sv_cancel_fuel_def)
qed

lemma kept_ok:
  assumes "sup_ok s" "keyed (sd_sup s) \<Longrightarrow> caps_ok (sd_sup s) \<Longrightarrow> keyed (sd_sup t) \<and> caps_ok (sd_sup t)"
    and "rostered (sd_sup s) (sd_sup t)" "\<And>j. within (sd_sup s) j (held s j) \<Longrightarrow> within (sd_sup t) j (held t j)"
  shows "sup_ok t \<and> sv_config (sd_sup t) = sv_config (sd_sup s)"
  using assms rostered_ledgers [OF assms(3)] by (simp add: sup_ok_def rostered_def)

lemma tame_kept:
  assumes "sup_ok s" "tame (sd_sup s) (sd_sup t)" "rostered (sd_sup s) (sd_sup t)"
    and "\<And>j. within (sd_sup s) j (held s j) \<Longrightarrow> within (sd_sup t) j (held t j)"
  shows "sup_ok t \<and> sv_config (sd_sup t) = sv_config (sd_sup s)"
  by (rule kept_ok [OF assms(1) _ assms(3,4)]) (use tame_ok [OF assms(2)] in auto)

text \<open>Starting, restarting, stopping, pausing, resuming and halting an agent.\<close>

lemma lived_kept:
  assumes "transition_to_running C i sv = (r, sv') \<or> restart_agent C i sv = (r, sv') \<or> stop_agent C i sv = (r, sv')
      \<or> pause_agent C i sv = (r, sv') \<or> resume_agent C i sv = (r, sv') \<or> apply_safety_action C i action sv = (r, sv')"
  shows "rostered sv sv'" "keyed sv \<Longrightarrow> caps_ok sv \<Longrightarrow> keyed sv' \<and> caps_ok sv'" "within sv j n \<Longrightarrow> within sv' j n"
proof -
  note ros = restart_rostered [OF _ rostered_simps(1)] stop_rostered [OF _ rostered_simps(1)] life_rostered [OF _ rostered_simps(1)]
  show "rostered sv sv'" using assms by (elim disjE) (erule ros)+
  show "keyed sv' \<and> caps_ok sv'" if k: "keyed sv" and c: "caps_ok sv"
    using assms running_caps [OF c k] restart_caps [OF c k] tame_ok [OF stop_tame k c] tame_ok [OF pause_tame(1) k c]
      tame_ok [OF pause_tame(2) k c] tame_ok [OF safety_tame k c] by metis
  show "within sv' j n" if w: "within sv j n"
    using assms running_within [OF _ w] restart_within [OF _ w] stop_within [OF _ w] pause_within [OF _ w] safety_within [OF _ w] by metis
qed

lemma restored_kept:
  assumes "restore_fuel_report i report fuel (sd_sup s) = (r, sv)" "ledger_ok (from_report report)"
    and "fuel + held s i + mb_spent_units (fl_budget (from_report report)) \<le> mb_cap_units (fl_budget (from_report report))"
    and "mb_cap_units (fl_budget (from_report report)) \<le> U64_MAX"
  shows "tame (sd_sup s) sv" "rostered (sd_sup s) sv" "within (sd_sup s) j (held s j) \<Longrightarrow> within sv j (held s j)"
  using assms by (auto simp: restore_fuel_report_def within_def intro!: tame_put split: option.split_asm if_split_asm)

lemma sup_step_ok: "sup_step C s t \<Longrightarrow> sup_ok s \<Longrightarrow> sup_ok t \<and> sv_config (sd_sup t) = sv_config (sd_sup s)"
proof (induction rule: sup_step.induct)
  case (registered i m st s r sv)
  then show ?case
    using register_caps [of "sd_sup s" C i m st r sv] register_ledger [of C i m st "sd_sup s" r sv] register_within [of C i m st "sd_sup s" r sv]
    by (auto simp: sup_ok_def)
next
  case (lived i s r sv action)
  show ?case by (rule kept_ok [OF lived.prems]) (use lived_kept [OF lived.hyps] in auto)
next
  case (reserved i cost act s r sv)
  have "fh_agent_id r = i" "fh_reserved_amount r = cost"
    using reserved.hyps by (auto simp: sv_reserve_fuel_def split: option.split_asm if_split_asm prod.split_asm)
  then show ?case
    using reserve_within [OF _ reserved.hyps] reserve_tame [OF reserved.hyps] reserve_rostered [OF reserved.hyps]
    by (intro tame_kept [OF reserved.prems]) (fastforce simp: held_def add.commute)+
next
  case (refused i cost act s e sv)
  show ?case
    by (rule tame_kept [OF refused.prems]) (use reserve_tame [OF refused.hyps] reserve_rostered [OF refused.hyps] reserve_within [OF _ refused.hyps] in auto)
next
  case (committed s r rest actual x sv)
  show ?case
    by (rule tame_kept [OF committed.prems])
      (use commit_tame [OF committed.hyps(3)] commit_rostered [OF committed.hyps(3)] commit_within [OF _ committed.hyps(2,3)]
        held_add [OF committed.hyps(1), of _ sv] in auto)
next
  case (cancelled s r rest)
  have "rostered (sd_sup s) (sv_cancel_fuel r (sd_sup s))" by (auto simp: sv_cancel_fuel_def split: option.split)
  moreover have "\<forall>i. sv_agent (sd_sup s) i \<noteq> None \<longrightarrow> sv_ledger (sd_sup s) i \<noteq> None" using cancelled.prems by (simp add: sup_ok_def)
  ultimately show ?case
    using cancel_tame cancel_within held_add [OF cancelled.hyps] by (intro tame_kept [OF cancelled.prems]) auto
next
  case (spent i model a b cost s r sv)
  show ?case
    by (rule tame_kept [OF spent.prems]) (use spend_tame [OF spent.hyps] spend_rostered [OF spent.hyps] llm_spend_within [OF _ spent.hyps] in auto)
next
  case (restored i report fuel s r sv)
  show ?case by (rule tame_kept [OF restored.prems]) (use restored_kept [OF restored.hyps] in auto)
next
  case (gated io i s r sv check op payload verdict request approver)
  show ?case by (rule tame_kept [OF gated.prems]) (use gates_rostered [OF gated.hyps] same_fuel_within in auto)
next
  case (cleared s)
  then show ?case by (simp add: sup_ok_def clear_all_agents_def keyed_def caps_ok_def active_ids_def within_def sv_agent_def)
qed

interpretation sup_runs: step_invariant "sup_step C" sup_ok "\<lambda>s t. sv_config (sd_sup t) = sv_config (sd_sup s)" for C
  by unfold_locales (use sup_step_ok in auto)



definition sample_manifest :: "nat \<Rightarrow> agent_manifest" where
  "sample_manifest fuel = \<lparr>mf_name = ''n'', mf_capabilities = [], mf_fuel_budget = fuel, mf_autonomy_level = Some 5,
     mf_consent_policy_path = None, mf_requester_id = None, mf_llm_model = None, mf_fuel_period_id = None, mf_monthly_fuel_cap = None\<rparr>"

lemma sample_registered:
  assumes fuel: "fuel \<le> U64_MAX"
  shows "\<exists>s h. (sup_step sample_cext)\<^sup>*\<^sup>* (sup_start config_default [] sample_env) s \<and> sv_agent (sd_sup s) ''a'' = Some h
    \<and> ah_state h = AsCreated \<and> ah_remaining_fuel h = fuel \<and> ah_autonomy_level h = 5"
proof -
  let ?s0 = "sup_start config_default [] sample_env"
  obtain r sv where r: "register_agent sample_cext ''a'' (sample_manifest fuel) AsCreated (sd_sup ?s0) = (r, sv)" by fastforce
  have "sup_step sample_cext ?s0 (?s0\<lparr>sd_sup := sv\<rparr>)"
    by (rule sup_step.registered [OF r]) (use fuel in \<open>simp_all add: is_active_def sup_start_def manifest_cap_def sample_manifest_def\<close>)
  moreover have "\<exists>h. sv_agent sv ''a'' = Some h \<and> ah_state h = AsCreated \<and> ah_remaining_fuel h = fuel \<and> ah_autonomy_level h = 5"
  proof -
    have none: "sv_agent (sd_sup ?s0) ''a'' = None" by (simp add: sup_start_def supervisor_new_def sv_agent_def)
    show ?thesis using r none
      by (auto simp: register_agent_def Let_def sample_manifest_def consent_from_manifest_def manifest_cap_def from_manifest_def from_numeric_def
          split: prod.split_asm sum.split_asm)
  qed
  ultimately show ?thesis by (intro exI [of _ "?s0\<lparr>sd_sup := sv\<rparr>"]) auto
qed




section \<open>Starts that fail, halts and approvals\<close>

text \<open>Spending fuel leaves the state of every agent as it is.\<close>

definition same_states :: "supervisor \<Rightarrow> supervisor \<Rightarrow> bool" where
  "same_states sv sv' \<longleftrightarrow> (\<forall>i. map_option ah_state (sv_agent sv' i) = map_option ah_state (sv_agent sv i))"

lemma same_states_simps [simp]:
  "same_states sv sv" "same_states sv (sv'\<lparr>sv_env := env\<rparr>) = same_states sv sv'" "same_states sv (put_ledger i l sv') = same_states sv sv'"
  "same_states sv sv' \<Longrightarrow> sv_agent sv' i = Some h \<Longrightarrow> ah_state h' = ah_state h \<Longrightarrow> same_states sv (put_agent i h' sv')"
  by (auto simp: same_states_def) (metis option.simps(9))

lemma violation_states: "apply_fuel_violation C i v reason sv = (e, sv') \<Longrightarrow> same_states sv0 sv \<Longrightarrow> same_states sv0 sv'"
  by (auto simp: apply_fuel_violation_def Let_def split: option.split_asm prod.split_asm)

lemma reserve_states: "sv_reserve_fuel C i c act sv = (r, sv') \<Longrightarrow> same_states sv0 sv \<Longrightarrow> same_states sv0 sv'"
  by (auto simp: sv_reserve_fuel_def split: option.split_asm prod.split_asm if_split_asm dest!: violation_states)

lemma commit_states: "sv_commit_fuel C c r sv = (x, sv') \<Longrightarrow> same_states sv0 sv \<Longrightarrow> same_states sv0 sv'"
  by (auto simp: sv_commit_fuel_def Let_def split: option.split_asm prod.split_asm sum.split_asm if_split_asm dest!: violation_states)

lemma consume_states: "consume_fuel_units C i reason c sv = (r, sv') \<Longrightarrow> same_states sv sv'"
  by (auto simp: consume_fuel_units_def split: prod.split_asm sum.split_asm dest!: reserve_states commit_states)

lemma same_statesD: "same_states sv sv' \<Longrightarrow> sv_agent sv i = Some h \<Longrightarrow> \<exists>h'. sv_agent sv' i = Some h' \<and> ah_state h' = ah_state h"
  unfolding same_states_def by (metis map_option_eq_Some)

definition starting :: "string \<Rightarrow> supervisor \<Rightarrow> bool" where
  "starting i sv \<longleftrightarrow> (\<exists>h. sv_agent sv i = Some h \<and> ah_state h = AsStarting)"

lemma restart_starting:
  assumes "starting i sv" "restart_agent C i sv = (r, sv')"
  shows "isl r \<and> starting i sv'"
proof -
  obtain h where h: "sv_agent sv i = Some h" "ah_state h = AsStarting" using assms(1) by (auto simp: starting_def)
  obtain r2 sv2 where 2: "consume_fuel_units C i ''supervisor.restart'' 1 sv = (r2, sv2)" by fastforce
  obtain h2 where h2: "sv_agent sv2 i = Some h2" "ah_state h2 = AsStarting" using same_statesD [OF consume_states [OF 2] h(1)] h(2) by auto
  show ?thesis using assms h h2 2
    by (auto simp: restart_agent_def starting_def transition_agent_state_def transition_state_def is_valid_transition_def
        split: option.split_asm sum.split_asm)
qed

text \<open>C38: a start that fails for want of fuel leaves the agent stuck. The failed start has already put the agent
  into the starting state and it stays there; and whatever happens to its fuel afterwards, in that state
  stopping, pausing, resuming, starting and restarting it all fail and leave it there.\<close>

theorem failed_start_stuck:
  assumes "sv_agent sv i = Some h" "ah_state h \<in> {AsCreated, AsStopped}" "ah_remaining_fuel h = 0"
    and "level_capped (from_manifest (Some (ah_autonomy_level h))) i sv = None"
    and "transition_to_running C i sv = (r, sv1)"
  shows "(\<exists>reason. r = Inl (ErFuelViolation OverMonthlyCap reason)) \<and> starting i sv1
    \<and> (starting i sv2 \<longrightarrow> (\<forall>op \<in> {stop_agent C, pause_agent C, resume_agent C, transition_to_running C, restart_agent C}.
         isl (fst (op i sv2)) \<and> starting i (snd (op i sv2))))"
proof -
  let ?sv = "put_agent i (h\<lparr>ah_state := AsStarting\<rparr>) sv"
  obtain e sv' where c: "consume_fuel_units C i ''supervisor.start'' 1 ?sv = (e, sv')" by fastforce
  have e: "\<exists>reason. e = Inl (ErFuelViolation OverMonthlyCap reason)"
    using c assms(3) by (auto simp: consume_fuel_units_def sv_reserve_fuel_def apply_fuel_violation_def Let_def split: prod.split_asm)
  have st: "set_state i AsStarting sv = (Inr (), ?sv)"
    using assms(1,2) by (auto simp: set_state_def transition_state_def is_valid_transition_def)
  have "r = e" "sv1 = sv'" using assms st c e by (auto simp: transition_to_running_def split: if_split_asm)
  moreover have "starting i sv'" using same_statesD [OF consume_states [OF c], of i] by (auto simp: starting_def)
  moreover have "isl (fst (op i sv2)) \<and> starting i (snd (op i sv2))"
    if s: "starting i sv2" and op: "op \<in> {stop_agent C, pause_agent C, resume_agent C, transition_to_running C, restart_agent C}" for op
  proof -
    have "isl (fst (restart_agent C i sv2)) \<and> starting i (snd (restart_agent C i sv2))" using restart_starting [OF s] by (metis prod.collapse)
    then show ?thesis using s op
      by (auto simp: starting_def stop_agent_def pause_agent_def resume_agent_def transition_to_running_def set_state_def
          transition_state_def is_valid_transition_def split: option.split)
  qed
  ultimately show ?thesis using e by blast
qed

definition sample_handle :: "nat \<Rightarrow> consent_runtime \<Rightarrow> agent_handle" where
  "sample_handle fuel consent = \<lparr>ah_manifest = sample_manifest fuel, ah_guard = guard_new L5, ah_consent = consent, ah_autonomy_level = 5,
     ah_state = AsCreated, ah_remaining_fuel = fuel, ah_execution_mode = EmNative\<rparr>"

definition sample_supervisor :: "policy list \<Rightarrow> agent_handle \<Rightarrow> supervisor" where
  "sample_supervisor policies h = put_agent ''a'' h (supervisor_new config_default policies sample_env)"

lemma sample_found: "sv_agent (sample_supervisor policies h) ''a'' = Some h"
  by (simp add: sample_supervisor_def)

theorem failed_start_stuck_witness:
  "\<exists>sv. starting ''a'' sv \<and> isl (fst (stop_agent sample_cext ''a'' sv)) \<and> isl (fst (restart_agent sample_cext ''a'' sv))"
proof -
  let ?h = "sample_handle 0 (sample_runtime None)" and ?sv = "sample_supervisor [] (sample_handle 0 (sample_runtime None))"
  obtain r sv1 where r: "transition_to_running sample_cext ''a'' ?sv = (r, sv1)" by fastforce
  have "level_capped (from_manifest (Some (ah_autonomy_level ?h))) ''a'' ?sv = None"
    by (simp add: level_capped_def others_at_cap_def active_at_def sample_supervisor_def supervisor_new_def config_default_def sample_handle_def
        put_agent_def from_manifest_def from_numeric_def)
  from failed_start_stuck [OF sample_found _ _ this r, of sv1]
  have "starting ''a'' sv1 \<and> isl (fst (stop_agent sample_cext ''a'' sv1)) \<and> isl (fst (restart_agent sample_cext ''a'' sv1))"
    by (simp add: sample_handle_def)
  then show ?thesis by blast
qed

text \<open>An agent at work that cannot pay for its stop.\<close>

definition unpaid :: "string \<Rightarrow> agent_state \<Rightarrow> supervisor \<Rightarrow> bool" where
  "unpaid i st sv \<longleftrightarrow> (\<exists>h. sv_agent sv i = Some h \<and> ah_state h = st \<and> ah_remaining_fuel h < 2)"

lemma stop_unpaid:
  assumes "unpaid i st sv" "st \<in> {AsRunning, AsPaused}"
  shows "isl (fst (stop_agent C i sv)) \<and> unpaid i st (snd (stop_agent C i sv))"
  using assms
  by (auto simp: unpaid_def stop_agent_def consume_fuel_units_def sv_reserve_fuel_def apply_fuel_violation_def Let_def
      split: option.split prod.split)

lemma restart_unpaid:
  assumes "unpaid i st sv" "st \<in> {AsRunning, AsPaused}"
  shows "isl (fst (restart_agent C i sv)) \<and> unpaid i st (snd (restart_agent C i sv))"
proof -
  obtain e sv' where s: "stop_agent C i sv = (Inl e, sv')" "unpaid i st sv'"
    using stop_unpaid [OF assms, of C] by (cases "stop_agent C i sv"; cases "fst (stop_agent C i sv)") auto
  then show ?thesis using assms by (auto simp: unpaid_def restart_agent_def split: option.split)
qed



text \<open>A gate that lets an agent pass changes neither its guard nor the policies.\<close>

lemma put_agent_policies: "sv_policies (put_agent i h sv) = sv_policies sv"
  by (simp add: put_agent_def)

lemma gate_passed:
  assumes "gate C io i op payload require_tool_call sv = (Inr u, sv')" "sv_agent sv i = Some h"
  shows "\<exists>h'. sv_agent sv' i = Some h' \<and> ah_guard h' = ah_guard h \<and> sv_policies sv' = sv_policies sv"
  using assms
  by (auto simp: gate_def require_consent_def guarded_def require_tool_call_def require_level_def put_agent_policies Let_def
      split: prod.split_asm sum.split_asm if_split_asm)

text \<open>C39: a tool call that a policy subjects to approval is never made below L6, approved or not. The supervisor
  asks the guard for the level the agent has at that moment, and a policy that requires approval asks for one
  more. So after consent and autonomy have passed, and a given approval has been used up, the call is still
  refused for want of autonomy, and the refusal takes the agent down one level.\<close>

theorem approved_tool_call_refused:
  assumes "sv_agent sv i = Some h" "ag_level (ah_guard h) < L6"
    and "evaluate (sv_policies sv) (asc i) (asc ''tool_call'') (asc ''*'') \<lparr>ec_autonomy_level = ag_level (ah_guard h), ec_fuel_cost = None\<rparr>
      = PdRequireApproval tier"
    and "sv_require_tool_call C io i sv = (r, sv')"
  shows "isl r \<and> (fst (gate C io i GoToolCall ''supervisor.tool_call'' require_tool_call sv) = Inr () \<longrightarrow>
     (\<exists>d h'. r = Inl (ErAutonomy d) \<and> ad_required d = stricter (ag_level (ah_guard h)) \<and> sv_agent sv' i = Some h'
        \<and> ag_level (ah_guard h') = previous (ag_level (ah_guard h))))"
proof (cases "gate C io i GoToolCall ''supervisor.tool_call'' require_tool_call sv")
  case (Pair g sv1)
  show ?thesis
  proof (cases g)
    case (Inl e)
    then show ?thesis using Pair assms(4) by (auto simp: sv_require_tool_call_def)
  next
    case (Inr u)
    obtain h1 where h1: "sv_agent sv1 i = Some h1" "ah_guard h1 = ah_guard h" and ps: "sv_policies sv1 = sv_policies sv"
      using gate_passed [OF Pair [unfolded Inr] assms(1)] by blast
    have "has_policies (sv_policies sv)" using assms(3) by (auto simp: has_policies_def evaluate_def)
    moreover have "\<not> stricter l \<le> l" if "l < L6" for l using that by (cases l) (simp_all add: stricter_def level_order)
    moreover have "min (previous l) l = previous l" for l by (cases l) (simp_all add: min_def level_order)
    ultimately show ?thesis using Pair Inr assms(2,3,4) h1 ps
      by (auto simp: sv_require_tool_call_def guarded_def require_level_with_policy_def require_level_def downgrade_def Let_def
          split: prod.split_asm)
  qed
qed

theorem approved_tool_call_refused_witness:
  "\<exists>d. fst (sv_require_tool_call sample_cext sample_consent_input ''a''
     (sample_supervisor [sample_policy PeAllow ''*'' 1 (Some 0)]
       (sample_handle 7 (sample_runtime (Some [sample_policy PeAllow ''*'' 1 (Some 0)]))))) = Inl (ErAutonomy d) \<and> ad_required d = L6"
proof -
  let ?p = "sample_policy PeAllow ''*'' 1 (Some 0)"
  let ?h = "sample_handle 7 (sample_runtime (Some [?p]))"
  let ?sv = "sample_supervisor [?p] ?h"
  obtain r sv' where r: "sv_require_tool_call sample_cext sample_consent_input ''a'' ?sv = (r, sv')" by fastforce
  have ev: "evaluate [?p] (asc ''a'') (asc ''tool_call'') (asc ''*'') \<lparr>ec_autonomy_level = l, ec_fuel_cost = None\<rparr> = PdRequireApproval Tier0" for l
    by (simp add: policy_eval approval_tier_def)
  have ps: "sv_policies ?sv = [?p]" by (simp add: sample_supervisor_def supervisor_new_def put_agent_policies)
  have l: "ag_level (ah_guard ?h) = L5" "ph_tool_call_min (ag_hooks (ah_guard ?h)) \<le> L5"
    by (simp_all add: sample_handle_def guard_new_def hooks_default_def level_order)
  have "operation_as_str GoToolCall = ''tool_call''" by simp
  then have "fst (gate sample_cext sample_consent_input ''a'' GoToolCall ''supervisor.tool_call'' require_tool_call ?sv) = Inr ()"
    using ev l by (simp add: gate_def require_consent_def sample_found enforce_operation_def sample_handle_def sample_runtime_def has_policies_def
        enforce_with_tier_def guarded_def require_tool_call_def require_level_def)
  then show ?thesis
    using approved_tool_call_refused [OF sample_found, of ?h "[?p]" Tier0 sample_cext sample_consent_input r sv'] r ev l ps
    by (auto simp: stricter_def level_order)
qed

end
