(* ===== verification/Kernel_Trail.thy ===== *)
theory Kernel_Trail
  imports Kernel_Supervision
begin

text \<open>What the audit trail promises to its clients, the ledger, the autonomy guard, consent and the supervisor, and that
  they keep to it: whatever the supervisor does, the trail is only ever extended and stays verifiable.\<close>


section \<open>The contract of the trail\<close>

text \<open>One record written to the trail, accepted or not, and any number of them.\<close>

definition noted :: "aext \<Rightarrow> audit_env \<Rightarrow> audit_env \<Rightarrow> bool" where
  "noted X env env' \<longleftrightarrow> (\<exists>agent ty kvs. env' = audit_note X agent ty kvs env)"

definition logged :: "aext \<Rightarrow> audit_env \<Rightarrow> audit_env \<Rightarrow> bool" where
  "logged X = (noted X)\<^sup>*\<^sup>*"

text \<open>A trail without retention that holds a whole verified history.\<close>

definition intact :: "aext \<Rightarrow> audit_event list \<Rightarrow> audit_env \<Rightarrow> bool" where
  "intact X hist env \<longleftrightarrow> at_retention (av_trail env) = None \<and> trail_ok X (av_disk env) (av_trail env) hist"

definition extended :: "aext \<Rightarrow> audit_env \<Rightarrow> audit_env \<Rightarrow> bool" where
  "extended X env env' \<longleftrightarrow> (\<forall>hist. intact X hist env \<longrightarrow> (\<exists>new. intact X (hist @ new) env'))"

lemma append_intact:
  assumes "trail_ok X d t hist" "at_retention t = None" "append_event X io agent ty payload t d = (r, t', d')"
  shows "at_retention t' = None \<and> (\<exists>new. trail_ok X d' t' (hist @ new))"
proof -
  let ?prev = "end_hash GENESIS_HASH hist"
  have prev: "(if at_events t = [] then window_anchor t else ae_hash (last (at_events t))) = ?prev"
    by (rule trail_ok_facts(5) [OF assms(1)])
  show ?thesis
  proof (cases "compute_hash X (ai_event_id io) (ai_timestamp io) agent ty payload ?prev")
    case (Inl err)
    then show ?thesis using assms prev by (auto simp: append_event_def Let_def intro: exI [of _ "[]"])
  next
    case (Inr h)
    let ?e = "\<lparr>ae_event_id = ai_event_id io, ae_timestamp = ai_timestamp io, ae_agent_id = agent,
      ae_event_type = ty, ae_payload = payload, ae_previous_hash = ?prev, ae_hash = h\<rparr>"
    obtain b where t': "t' = t\<lparr>at_events := at_events t @ [?e], at_batcher := b\<rparr>" "d' = d"
      using assms(2,3) Inr unfolding append_event_def Let_def prev
      by (auto simp: retain_def split: prod.split_asm sum.split_asm)
    have "trail_ok X d' t' (hist @ [?e])"
      using assms(1,2) Inr t' by (simp add: trail_ok_def total_event_count_def)
    then show ?thesis using assms(2) t' by auto
  qed
qed

lemma noted_extends: "noted X env env' \<Longrightarrow> extended X env env'"
  unfolding noted_def extended_def intact_def audit_note_def
  by (auto split: prod.split dest: append_intact)

lemma extended_refl: "extended X env env"
  unfolding extended_def by (metis append.right_neutral)

lemma extended_trans: "extended X a b \<Longrightarrow> extended X b c \<Longrightarrow> extended X a c"
  unfolding extended_def by (metis append.assoc)

interpretation trail_notes: step_invariant "noted X" "\<lambda>env. True" "extended X" for X
  by unfold_locales (auto intro: noted_extends extended_refl extended_trans)

lemma logged_extends: "logged X env env' \<Longrightarrow> extended X env env'"
  using trail_notes.run unfolding logged_def by blast


section \<open>The clients\<close>

lemma logged_refl [simp, intro]: "logged X env env"
  by (simp add: logged_def)

lemma logged_note [simp]: "logged X env0 env \<Longrightarrow> logged X env0 (audit_note X agent ty kvs env)"
  unfolding logged_def by (rule rtranclp.rtrancl_into_rtrancl) (auto simp: noted_def)

lemma logged_try: "audit_try C agent ty kvs env = (r, env') \<Longrightarrow> logged (cx_audit C) env0 env \<Longrightarrow> logged (cx_audit C) env0 env'"
  using logged_note [of "cx_audit C" env0 env agent ty kvs] by (auto simp: audit_try_def audit_note_def split: prod.split_asm)

lemma logged_alerts [simp]: "logged X env0 env \<Longrightarrow> logged X env0 (alert_notes X agent b ts env)"
  by (induction ts arbitrary: env) auto

lemma logged_fuel:
  "record_llm_spend X agent model a b c l env = (r, l', env') \<Longrightarrow> logged X env0 env \<Longrightarrow> logged X env0 env'"
  "register_violation X agent v reason l env = (l', env') \<Longrightarrow> logged X env0 env \<Longrightarrow> logged X env0 env'"
  by (auto simp: record_llm_spend_def register_violation_def Let_def split: prod.split_asm option.split_asm if_split_asm)

lemma logged_guard:
  "downgrade X actor l action reason g env = (g', env') \<Longrightarrow> logged X env0 env \<Longrightarrow> logged X env0 env'"
  "require_level X actor l action g env = (r, g', env') \<Longrightarrow> logged X env0 env \<Longrightarrow> logged X env0 env'"
  by (auto simp: downgrade_def require_level_def Let_def split: if_split_asm)

lemma logged_policy:
  "require_level_with_policy X actor l action engine g env = (r, g', env') \<Longrightarrow> logged X env0 env \<Longrightarrow> logged X env0 env'"
  by (auto simp: require_level_with_policy_def split: option.split_asm if_split_asm policy_decision.split_asm dest: logged_guard)

lemma logged_consent_event:
  "consent_event C event ty req as outcome env = (r, env') \<Longrightarrow> logged (cx_audit C) env0 env \<Longrightarrow> logged (cx_audit C) env0 env'"
  unfolding consent_event_def by (rule logged_try)

lemma logged_queue:
  "request_or_get C io op agent h by tier q env = (r1, q', env') \<Longrightarrow> logged (cx_audit C) env0 env \<Longrightarrow> logged (cx_audit C) env0 env'"
  "submit_decision C io i approver verdict allowed q env = (r2, q', env') \<Longrightarrow> logged (cx_audit C) env0 env \<Longrightarrow> logged (cx_audit C) env0 env'"
  "mark_executed C io i q env = (r3, q', env') \<Longrightarrow> logged (cx_audit C) env0 env \<Longrightarrow> logged (cx_audit C) env0 env'"
  by (auto simp: request_or_get_def submit_decision_def mark_executed_def append_requested_event_def append_decision_event_def
      append_executed_event_def Let_def
      split: option.split_asm if_split_asm prod.split_asm sum.split_asm approval_verdict.split_asm dest: logged_consent_event)

lemma logged_tier:
  "enforce_with_tier C io op agent payload tier rt env = (r, rt', env') \<Longrightarrow> logged (cx_audit C) env0 env \<Longrightarrow> logged (cx_audit C) env0 env'"
  by (auto simp: enforce_with_tier_def Let_def
      split: option.split_asm if_split_asm prod.split_asm sum.split_asm approval_state.split_asm dest!: logged_queue)

lemma logged_enforce:
  "enforce_operation C io op agent payload rt env = (r, rt', env') \<Longrightarrow> logged (cx_audit C) env0 env \<Longrightarrow> logged (cx_audit C) env0 env'"
  by (auto simp: enforce_operation_def Let_def
      split: option.split_asm if_split_asm prod.split_asm sum.split_asm policy_decision.split_asm dest!: logged_tier logged_try)

lemma logged_decide:
  "decide_request C io verdict i approver rt env = (r, rt', env') \<Longrightarrow> logged (cx_audit C) env0 env \<Longrightarrow> logged (cx_audit C) env0 env'"
  by (auto simp: decide_request_def Let_def split: option.split_asm if_split_asm prod.split_asm sum.split_asm dest!: logged_queue)


section \<open>The supervisor\<close>

definition audited :: "cext \<Rightarrow> supervisor \<Rightarrow> supervisor \<Rightarrow> bool" where
  "audited C sv sv' \<longleftrightarrow> logged (cx_audit C) (sv_env sv) (sv_env sv')"

lemma audited_simps [simp]:
  "audited C sv sv" "audited C sv (put_agent i h sv') = audited C sv sv'" "audited C sv (put_ledger i l sv') = audited C sv sv'"
  "audited C sv (sv'\<lparr>sv_env := env\<rparr>) = logged (cx_audit C) (sv_env sv) env" "audited C sv (clear_all_agents sv') = audited C sv sv'"
  by (auto simp: audited_def put_agent_def put_ledger_def clear_all_agents_def)

lemma audited_trans: "audited C a b \<Longrightarrow> audited C b c \<Longrightarrow> audited C a c"
  unfolding audited_def logged_def by (rule rtranclp_trans)

lemma logged_trans: "logged X a b \<Longrightarrow> logged X b c \<Longrightarrow> logged X a c"
  unfolding logged_def by (rule rtranclp_trans)

lemma env_put [simp]: "sv_env (put_agent i h sv) = sv_env sv" "sv_env (put_ledger i l sv) = sv_env sv" "sv_env (clear_all_agents sv) = sv_env sv"
  by (simp_all add: put_agent_def put_ledger_def clear_all_agents_def)

lemma violation_audited: "apply_fuel_violation C i v reason sv = (e, sv') \<Longrightarrow> audited C sv sv'"
  by (auto simp: apply_fuel_violation_def Let_def audited_def split: option.split_asm prod.split_asm dest!: logged_fuel logged_guard intro: logged_trans)

lemma reserve_audited: "sv_reserve_fuel C i c act sv = (r, sv') \<Longrightarrow> audited C sv sv'"
  by (auto simp: sv_reserve_fuel_def split: option.split_asm prod.split_asm if_split_asm dest!: violation_audited)

lemma commit_audited: "sv_commit_fuel C c r sv = (x, sv') \<Longrightarrow> audited C sv sv'"
  by (auto simp: sv_commit_fuel_def Let_def audited_def split: option.split_asm prod.split_asm sum.split_asm if_split_asm
      dest!: violation_audited logged_fuel intro: logged_trans)

lemma consume_audited: "consume_fuel_units C i reason c sv = (r, sv') \<Longrightarrow> audited C sv sv'"
  by (auto simp: consume_fuel_units_def split: prod.split_asm sum.split_asm dest!: reserve_audited commit_audited intro: audited_trans)

lemma spend_audited: "sv_record_llm_spend C i model a b c sv = (r, sv') \<Longrightarrow> audited C sv sv'"
  by (auto simp: sv_record_llm_spend_def Let_def audited_def split: option.split_asm prod.split_asm sum.split_asm if_split_asm
      dest!: violation_audited logged_fuel intro: logged_trans)

lemma state_audited:
  "transition_agent_state C i st reason sv = (r, sv') \<Longrightarrow> audited C sv sv'"
  "set_state i st sv = (r', sv') \<Longrightarrow> audited C sv sv'"
  by (auto simp: transition_agent_state_def set_state_def transition_note_def split: option.split_asm sum.split_asm prod.split_asm)

lemma halt_audited: "audited C sv (halt_transition C i st sv)"
  by (auto simp: halt_transition_def force_transition_agent_state_def transition_note_def audited_def
      split: option.split prod.split sum.split dest: state_audited)

lemma stop_audited: "stop_agent C i sv = (r, sv') \<Longrightarrow> audited C sv sv'"
  by (auto simp: stop_agent_def split: option.split_asm sum.split_asm prod.split_asm if_split_asm
      dest!: consume_audited state_audited intro: audited_trans)

lemma life_audited:
  "pause_agent C i sv = (r, sv') \<Longrightarrow> audited C sv sv'"
  "resume_agent C i sv = (r, sv') \<Longrightarrow> audited C sv sv'"
  "transition_to_running C i sv = (r, sv') \<Longrightarrow> audited C sv sv'"
  "restart_agent C i sv = (r, sv') \<Longrightarrow> audited C sv sv'"
  "apply_safety_action C i action sv = (r, sv') \<Longrightarrow> audited C sv sv'"
proof -
  show "pause_agent C i sv = (r, sv') \<Longrightarrow> audited C sv sv'" "resume_agent C i sv = (r, sv') \<Longrightarrow> audited C sv sv'"
    by (auto simp: pause_agent_def resume_agent_def split: option.split_asm sum.split_asm prod.split_asm if_split_asm
        dest!: consume_audited state_audited intro: audited_trans)
  show "transition_to_running C i sv = (r, sv') \<Longrightarrow> audited C sv sv'"
    by (auto simp: transition_to_running_def split: option.split_asm sum.split_asm prod.split_asm if_split_asm
        dest!: consume_audited state_audited intro: audited_trans)
  show "restart_agent C i sv = (r, sv') \<Longrightarrow> audited C sv sv'"
    by (auto simp: restart_agent_def split: option.split_asm sum.split_asm prod.split_asm if_split_asm
        dest!: stop_audited consume_audited state_audited intro: audited_trans)
  show "apply_safety_action C i action sv = (r, sv') \<Longrightarrow> audited C sv sv'"
    by (auto simp: apply_safety_action_def split: sum.split_asm prod.split_asm if_split_asm safety_action.split_asm
        dest!: logged_try intro: audited_trans [OF halt_audited halt_audited])
qed

lemma register_audited: "register_agent C i m st sv = (r, sv') \<Longrightarrow> audited C sv sv'"
  by (auto simp: register_agent_def Let_def audited_def split: option.split_asm sum.split_asm prod.split_asm if_split_asm
      dest!: logged_try intro: logged_trans)

lemma consent_audited:
  "require_consent C io i op payload sv = (r, sv') \<Longrightarrow> audited C sv sv'"
  "decide_consent C io verdict i request approver sv = (r, sv') \<Longrightarrow> audited C sv sv'"
  by (auto simp: require_consent_def decide_consent_def split: option.split_asm prod.split_asm dest!: logged_enforce logged_decide)

lemma gate_audited: "check \<in> checks \<Longrightarrow> gate C io i op payload check sv = (r, sv') \<Longrightarrow> audited C sv sv'"
  by (auto simp: gate_def guarded_def checks_def require_tool_call_def require_multi_agent_def require_self_modification_def
      require_distributed_def audited_def
      split: option.split_asm prod.split_asm sum.split_asm dest!: consent_audited logged_guard intro: logged_trans)

lemma tool_call_audited: "sv_require_tool_call C io i sv = (r, sv') \<Longrightarrow> audited C sv sv'"
  by (auto simp: sv_require_tool_call_def guarded_def audited_def checks_def split: option.split_asm prod.split_asm sum.split_asm if_split_asm
      dest!: gate_audited [rotated] logged_policy intro: logged_trans)

lemma step_audited: "sup_step C s t \<Longrightarrow> audited C (sd_sup s) (sd_sup t)"
proof (induction rule: sup_step.induct)
  case (lived i s r sv action)
  then show ?case by (auto dest: life_audited stop_audited)
next
  case (cancelled s r rest)
  show ?case by (auto simp: sv_cancel_fuel_def split: option.split)
next
  case (restored i report fuel s r sv)
  then show ?case by (auto simp: restore_fuel_report_def split: option.split_asm)
next
  case (gated io i s r sv check op payload verdict request approver)
  then show ?case by (auto dest: tool_call_audited gate_audited consent_audited)
qed (auto dest: register_audited reserve_audited commit_audited spend_audited)

interpretation audit_runs: step_invariant "sup_step C" "\<lambda>s. True" "\<lambda>s t. audited C (sd_sup s) (sd_sup t)" for C
  by unfold_locales (use step_audited audited_trans in auto)

text \<open>C12: the supervisor's audit trail is only ever extended and always verifies. Through every run of its
  operations, refused ones included, with all that the ledger, the guard and consent write on its behalf, the
  earlier events stay as they are and where they are, later ones follow them, the count is theirs, and both
  integrity checks accept the trail. (The kernel never turns retention on; serialization may fail at any record.)\<close>

theorem supervisor_audited:
  assumes "(sup_step C)\<^sup>*\<^sup>* s t" "intact (cx_audit C) hist (sv_env (sd_sup s))"
  shows "\<exists>new. at_events (av_trail (sv_env (sd_sup t))) = hist @ new
    \<and> total_event_count (av_trail (sv_env (sd_sup t))) = length hist + length new
    \<and> verify_integrity (cx_audit C) (av_trail (sv_env (sd_sup t)))
    \<and> verify_full_integrity (cx_audit C) (av_disk (sv_env (sd_sup t))) (av_trail (sv_env (sd_sup t))) = Inr True"
proof -
  have "extended (cx_audit C) (sv_env (sd_sup s)) (sv_env (sd_sup t))"
    using audit_runs.run [OF assms(1)] logged_extends by (auto simp: audited_def)
  then obtain new where new: "intact (cx_audit C) (hist @ new) (sv_env (sd_sup t))" using assms(2) by (auto simp: extended_def)
  then have ok: "trail_ok (cx_audit C) (av_disk (sv_env (sd_sup t))) (av_trail (sv_env (sd_sup t))) (hist @ new)" by (simp add: intact_def)
  then have "at_events (av_trail (sv_env (sd_sup t))) = hist @ new" using new by (simp add: trail_ok_def intact_def)
  then show ?thesis using trail_ok_facts(1,2,4) [OF ok] by auto
qed

theorem supervisor_audited_witness:
  "\<exists>s :: supervised. sv_agent (sd_sup s) ''a'' \<noteq> None \<and> verify_integrity sample_aext (av_trail (sv_env (sd_sup s)))"
proof -
  obtain s h where s: "(sup_step sample_cext)\<^sup>*\<^sup>* (sup_start config_default [] sample_env) s" "sv_agent (sd_sup s) ''a'' = Some h"
    using sample_registered [of 7] by (auto simp: U64_MAX_def)
  have "intact (cx_audit sample_cext) [] (sv_env (sd_sup (sup_start config_default [] sample_env)))"
    by (simp add: intact_def sup_start_def supervisor_new_def sample_env_def trail_ok_new) (simp add: audit_new_def)
  from supervisor_audited [OF s(1) this] show ?thesis using s(2) by (auto simp: sample_cext_def)
qed

end
