(* ===== verification/Kernel_Egress.thy ===== *)
theory Kernel_Egress
  imports Kernel_Fuel "HOL-Library.Sublist"
begin

text \<open>The egress governor (\<^verbatim>\<open>src/kernel/src/firewall/egress.rs\<close>) with the URL check it uses
  (\<^verbatim>\<open>src/kernel/src/governed_http.rs\<close>): allowlist entries, what they admit, the rate limit and the audit record of every
  decision. The parser of the \<^verbatim>\<open>url\<close> crate is a parameter, the clock an argument.\<close>


section \<open>Requests\<close>

datatype url_host = HostDomain ustr | HostIpv4 nat | HostIpv6 nat

text \<open>What the accessors of a parsed URL answer.\<close>

record parsed_url =
  ul_scheme :: ustr
  ul_username :: ustr
  ul_password :: "ustr option"
  ul_host :: "url_host option"
  ul_host_str :: "ustr option"
  ul_port :: "nat option"
  ul_port_or_known_default :: "nat option"
  ul_path_segments :: "ustr list option"

type_synonym url_parser = "ustr \<Rightarrow> parsed_url option"

definition is_control :: "uchar \<Rightarrow> bool" where
  "is_control c \<longleftrightarrow> c < 32 \<or> 127 \<le> c \<and> c < 160"

definition http_url :: "url_parser \<Rightarrow> ustr \<Rightarrow> parsed_url option" where
  "http_url parse raw =
     (if list_ex (\<lambda>c. is_whitespace c \<or> is_control c) raw then None
      else case parse raw of
        None \<Rightarrow> None
      | Some u \<Rightarrow>
          if ul_scheme u \<notin> {asc ''http'', asc ''https''} \<or> (case ul_host_str u of None \<Rightarrow> True | Some h \<Rightarrow> h = [])
             \<or> ul_username u \<noteq> [] \<or> ul_password u \<noteq> None
          then None else Some u)"


section \<open>Allowlist entries\<close>

record allowed_endpoint =
  en_scheme :: "ustr option"
  en_host :: url_host
  en_port :: "nat option"
  en_segments :: "ustr list"

fun split_first :: "ustr \<Rightarrow> ustr \<Rightarrow> (ustr \<times> ustr) option" where
  "split_first sep [] = (if sep = [] then Some ([], []) else None)"
| "split_first sep (c # s) = (if take (length sep) (c # s) = sep then Some ([], drop (length sep) (c # s))
     else map_option (map_prod ((#) c) id) (split_first sep s))"

fun split_on :: "uchar \<Rightarrow> ustr \<Rightarrow> ustr list" where
  "split_on d [] = [[]]"
| "split_on d (c # s) = (if c = d then [] # split_on d s else (case split_on d s of p # ps \<Rightarrow> (c # p) # ps | [] \<Rightarrow> [[c]]))"

definition to_ascii_lowercase :: "ustr \<Rightarrow> ustr" where
  "to_ascii_lowercase = map (\<lambda>c. if 65 \<le> c \<and> c \<le> 90 then c + 32 else c)"

definition is_dot_segment :: "ustr \<Rightarrow> bool" where
  "is_dot_segment s \<longleftrightarrow> to_ascii_lowercase s \<in> {asc ''.'', asc ''..'', asc ''%2e'', asc ''%2e%2e'', asc ''.%2e'', asc ''%2e.''}"

definition ascii_digit :: "uchar \<Rightarrow> bool" where
  "ascii_digit c \<longleftrightarrow> 48 \<le> c \<and> c \<le> 57"

definition parse_u16 :: "ustr \<Rightarrow> nat option" where
  "parse_u16 s = (let n = foldl (\<lambda>n c. 10 * n + (c - 48)) 0 s in if n < 65536 then Some n else None)"

text \<open>The outer \<open>None\<close> is an authority that is not \<open>host[:port]\<close>, the inner one a missing port.\<close>

definition authority_port :: "ustr \<Rightarrow> nat option option" where
  "authority_port authority =
     (case (case authority of
          c # literal \<Rightarrow>
            if c = 91
            then (case split_first [93] literal of
                None \<Rightarrow> None
              | Some (address, after) \<Rightarrow>
                  if address = [] then None
                  else (case after of
                      [] \<Rightarrow> Some (address, None)
                    | d # port \<Rightarrow> if d = 58 then Some (address, Some port) else None))
            else (case split_first [58] authority of
                Some (host, port) \<Rightarrow> Some (host, Some port)
              | None \<Rightarrow> Some (authority, None))
        | [] \<Rightarrow> Some ([], None)) of
        None \<Rightarrow> None
      | Some (host, port) \<Rightarrow>
          if host = [] then None
          else (case port of
              None \<Rightarrow> Some None
            | Some p \<Rightarrow>
                if p \<noteq> [] \<and> list_all ascii_digit p then map_option Some (parse_u16 p) else None))"

definition split_scheme :: "ustr \<Rightarrow> (ustr option \<times> ustr) option" where
  "split_scheme entry = (case split_first (asc ''://'') entry of
     Some (scheme, rest) \<Rightarrow>
       if to_ascii_lowercase scheme = asc ''https'' then Some (Some (asc ''https''), rest)
       else if to_ascii_lowercase scheme = asc ''http'' then Some (Some (asc ''http''), rest)
       else None
   | None \<Rightarrow> Some (None, entry))"

definition endpoint_parse :: "url_parser \<Rightarrow> ustr \<Rightarrow> allowed_endpoint option" where
  "endpoint_parse parse entry =
     (if entry = [] \<or> list_ex (\<lambda>c. is_whitespace c \<or> is_control c \<or> c \<in> {92, 64, 63, 35}) entry then None
      else case split_scheme entry of
        None \<Rightarrow> None
      | Some (scheme, rest) \<Rightarrow>
          (let authority = takeWhile (\<lambda>c. c \<noteq> 47) rest; path = dropWhile (\<lambda>c. c \<noteq> 47) rest
           in case authority_port authority of
                None \<Rightarrow> None
              | Some explicit_port \<Rightarrow>
                  (let segments = filter (\<lambda>s. s \<noteq> []) (split_on 47 path)
                   in if list_ex is_dot_segment segments then None
                      else case parse ((case scheme of Some s \<Rightarrow> s | None \<Rightarrow> asc ''http'') @ asc ''://'' @ authority @ asc ''/'') of
                        None \<Rightarrow> None
                      | Some parsed \<Rightarrow> (case ul_host parsed of
                          None \<Rightarrow> None
                        | Some host \<Rightarrow> Some \<lparr>en_scheme = scheme, en_host = host,
                            en_port = (case scheme of Some s \<Rightarrow> ul_port_or_known_default parsed | None \<Rightarrow> explicit_port),
                            en_segments = segments\<rparr>))))"

definition admits :: "allowed_endpoint \<Rightarrow> parsed_url \<Rightarrow> bool" where
  "admits e request =
     (let scheme = (case en_scheme e of Some s \<Rightarrow> s = ul_scheme request | None \<Rightarrow> ul_scheme request \<in> {asc ''http'', asc ''https''});
          port = (case en_port e of Some p \<Rightarrow> ul_port_or_known_default request = Some p | None \<Rightarrow> ul_port request = None);
          host = (case ul_host request of Some h \<Rightarrow> h = en_host e | None \<Rightarrow> False);
          request_segments = (case ul_path_segments request of Some ss \<Rightarrow> filter (\<lambda>s. s \<noteq> []) ss | None \<Rightarrow> []);
          path = length (en_segments e) \<le> length request_segments \<and> list_all (\<lambda>(a, b). a = b) (zip (en_segments e) request_segments)
      in scheme \<and> port \<and> host \<and> path)"

definition endpoint_admits :: "url_parser \<Rightarrow> ustr \<Rightarrow> ustr \<Rightarrow> bool" where
  "endpoint_admits parse entry url = (case (endpoint_parse parse entry, http_url parse url) of
     (Some e, Some request) \<Rightarrow> admits e request | _ \<Rightarrow> False)"


section \<open>The governor\<close>

definition DEFAULT_RATE_LIMIT_PER_MIN :: nat where "DEFAULT_RATE_LIMIT_PER_MIN = 60"

datatype egress_decision = EdAllow | EdDeny ustr

record egress_policy =
  ep_allowed_endpoints :: "ustr list"
  ep_rate_limit_per_min :: nat

record egress_governor =
  eg_policies :: "string \<rightharpoonup> egress_policy"
  eg_rate_state :: "string \<rightharpoonup> (ustr \<rightharpoonup> nat list)"

definition governor_new :: egress_governor where
  "governor_new = \<lparr>eg_policies = Map.empty, eg_rate_state = Map.empty\<rparr>"

definition register_agent_with_limit :: "string \<Rightarrow> ustr list \<Rightarrow> nat \<Rightarrow> egress_governor \<Rightarrow> egress_governor" where
  "register_agent_with_limit agent allowed limit g =
     g\<lparr>eg_policies := (eg_policies g)(agent \<mapsto> \<lparr>ep_allowed_endpoints = allowed,
       ep_rate_limit_per_min = (if limit = 0 then DEFAULT_RATE_LIMIT_PER_MIN else limit)\<rparr>)\<rparr>"

definition egress_register_agent :: "string \<Rightarrow> ustr list \<Rightarrow> egress_governor \<Rightarrow> egress_governor" where
  "egress_register_agent agent allowed g = register_agent_with_limit agent allowed 0 g"

definition has_policy :: "string \<Rightarrow> egress_governor \<Rightarrow> bool" where
  "has_policy agent g \<longleftrightarrow> eg_policies g agent \<noteq> None"

definition egress_audit :: "aext \<Rightarrow> string \<Rightarrow> ustr \<Rightarrow> egress_decision \<Rightarrow> audit_env \<Rightarrow> audit_env" where
  "egress_audit X agent url decision env =
     (case (case decision of EdAllow \<Rightarrow> (''allow'', JObj []) | EdDeny reason \<Rightarrow> (''deny'', JObj [(''reason'', JStr reason)])) of
        (action, details) \<Rightarrow> audit_note X agent UserAction [(''event_kind'', jtext ''firewall.egress''), (''url'', JStr url),
          (''action'', jtext action), (''details'', details)] env)"

definition no_match_text :: "ustr \<Rightarrow> ustr" where
  "no_match_text url = asc ''URL '' @ [39] @ url @ [39] @ asc '' does not match any allowed endpoint for this agent''"

definition rate_text :: "nat \<Rightarrow> nat \<Rightarrow> ustr" where
  "rate_text n limit = asc (''rate limit exceeded: '' @ decimal n @ '' requests in last 60s (limit '' @ decimal limit @ '')'')"

definition stamps :: "egress_governor \<Rightarrow> string \<Rightarrow> ustr \<Rightarrow> nat list" where
  "stamps g agent entry = (case eg_rate_state g agent of
     Some windows \<Rightarrow> (case windows entry of Some ts \<Rightarrow> ts | None \<Rightarrow> []) | None \<Rightarrow> [])"

definition put_stamps :: "string \<Rightarrow> ustr \<Rightarrow> nat list \<Rightarrow> egress_governor \<Rightarrow> egress_governor" where
  "put_stamps agent entry ts g = g\<lparr>eg_rate_state := (eg_rate_state g)(agent \<mapsto>
     (case eg_rate_state g agent of Some windows \<Rightarrow> windows | None \<Rightarrow> Map.empty)(entry \<mapsto> ts))\<rparr>"

definition check_egress :: "url_parser \<Rightarrow> aext \<Rightarrow> nat \<Rightarrow> string \<Rightarrow> ustr \<Rightarrow> egress_governor \<Rightarrow> audit_env \<Rightarrow> egress_decision \<times> egress_governor \<times> audit_env" where
  "check_egress parse X now agent url g env = (case eg_policies g agent of
     None \<Rightarrow> (let decision = EdDeny (asc ''no egress policy registered for agent (default deny)'')
              in (decision, g, egress_audit X agent url decision env))
   | Some policy \<Rightarrow> (case List.find (\<lambda>entry. endpoint_admits parse entry url) (ep_allowed_endpoints policy) of
       None \<Rightarrow> (let decision = EdDeny (no_match_text url) in (decision, g, egress_audit X agent url decision env))
     | Some entry \<Rightarrow>
         (let window_start = now - 60;
              ts = filter (\<lambda>t. t > window_start) (stamps g agent entry)
          in if ep_rate_limit_per_min policy \<le> as_u32 (length ts)
             then (let decision = EdDeny (rate_text (length ts) (ep_rate_limit_per_min policy))
                   in (decision, put_stamps agent entry ts g, egress_audit X agent url decision env))
             else (EdAllow, put_stamps agent entry (ts @ [now]) g, egress_audit X agent url EdAllow env))))"


section \<open>What is let out\<close>

lemma zip_prefix: "length xs \<le> length ys \<and> list_all (\<lambda>(a, b). a = b) (zip xs ys) \<longleftrightarrow> prefix xs ys"
  by (induction xs ys rule: list_induct2') auto

lemma http_url_ok: "http_url parse url = Some u \<Longrightarrow> ul_scheme u \<in> {asc ''http'', asc ''https''} \<and> ul_username u = [] \<and> ul_password u = None"
  by (auto simp: http_url_def split: if_split_asm option.split_asm)

lemma endpoint_parse_ok:
  assumes "endpoint_parse parse entry = Some e"
  shows "list_all (\<lambda>s. s \<noteq> [] \<and> \<not> is_dot_segment s) (en_segments e)"
proof -
  obtain path where "en_segments e = filter (\<lambda>s. s \<noteq> []) (split_on 47 path)" "\<not> list_ex is_dot_segment (en_segments e)"
    using assms unfolding endpoint_parse_def Let_def
    by (auto simp del: asc_simps list_ex_iff split: if_split_asm option.split_asm prod.split_asm)
  then show ?thesis by (auto simp: list_all_iff list_ex_iff)
qed

definition segments_of :: "parsed_url \<Rightarrow> ustr list" where
  "segments_of u = filter (\<lambda>s. s \<noteq> []) (case ul_path_segments u of Some ss \<Rightarrow> ss | None \<Rightarrow> [])"

lemma admits_iff:
  "admits e u \<longleftrightarrow> (en_scheme e = Some (ul_scheme u) \<or> en_scheme e = None \<and> ul_scheme u \<in> {asc ''http'', asc ''https''})
     \<and> (case en_port e of Some p \<Rightarrow> ul_port_or_known_default u = Some p | None \<Rightarrow> ul_port u = None)
     \<and> ul_host u = Some (en_host e) \<and> prefix (en_segments e) (segments_of u)"
  unfolding admits_def Let_def zip_prefix [symmetric] segments_of_def by (auto split: option.split)



section \<open>The rate limit\<close>

text \<open>The governor in use: registrations and checks in any order under a clock that does not go back, with what was let
  out so far; \<open>cap\<close> bounds the limits an agent is registered with.\<close>

record egress_system =
  es_governor :: egress_governor
  es_env :: audit_env
  es_clock :: nat
  es_allowed :: "(string \<times> ustr \<times> nat) list"

definition matched :: "url_parser \<Rightarrow> string \<Rightarrow> ustr \<Rightarrow> egress_governor \<Rightarrow> ustr option" where
  "matched parse agent url g = (case eg_policies g agent of
     Some policy \<Rightarrow> List.find (\<lambda>entry. endpoint_admits parse entry url) (ep_allowed_endpoints policy) | None \<Rightarrow> None)"

inductive egress_step :: "url_parser \<Rightarrow> aext \<Rightarrow> (string \<Rightarrow> nat) \<Rightarrow> egress_system \<Rightarrow> egress_system \<Rightarrow> bool" for parse X cap where
  registered: "(if limit = 0 then DEFAULT_RATE_LIMIT_PER_MIN else limit) \<le> cap agent \<Longrightarrow>
    egress_step parse X cap s (s\<lparr>es_governor := register_agent_with_limit agent allowed limit (es_governor s)\<rparr>)"
| refused: "es_clock s \<le> now \<Longrightarrow> check_egress parse X now agent url (es_governor s) (es_env s) = (EdDeny reason, g, env) \<Longrightarrow>
    egress_step parse X cap s (s\<lparr>es_governor := g, es_env := env, es_clock := now\<rparr>)"
| allowed: "es_clock s \<le> now \<Longrightarrow> check_egress parse X now agent url (es_governor s) (es_env s) = (EdAllow, g, env) \<Longrightarrow>
    matched parse agent url (es_governor s) = Some entry \<Longrightarrow>
    egress_step parse X cap s \<lparr>es_governor = g, es_env = env, es_clock = now, es_allowed = es_allowed s @ [(agent, entry, now)]\<rparr>"

definition egress_start :: "audit_env \<Rightarrow> egress_system" where
  "egress_start env = \<lparr>es_governor = governor_new, es_env = env, es_clock = 0, es_allowed = []\<rparr>"

definition out_times :: "egress_system \<Rightarrow> string \<Rightarrow> ustr \<Rightarrow> nat list" where
  "out_times s agent entry = map (\<lambda>(a, e, t). t) (filter (\<lambda>(a, e, t). a = agent \<and> e = entry) (es_allowed s))"

definition recent :: "nat \<Rightarrow> nat list \<Rightarrow> nat list" where
  "recent now ts = filter (\<lambda>t. now - 60 < t) ts"

definition egress_ok :: "(string \<Rightarrow> nat) \<Rightarrow> string \<Rightarrow> ustr \<Rightarrow> egress_system \<Rightarrow> bool" where
  "egress_ok cap agent entry s \<longleftrightarrow> (\<forall>p. eg_policies (es_governor s) agent = Some p \<longrightarrow> ep_rate_limit_per_min p \<le> cap agent)
     \<and> recent (es_clock s) (out_times s agent entry) = recent (es_clock s) (stamps (es_governor s) agent entry)
     \<and> length (stamps (es_governor s) agent entry) \<le> cap agent
     \<and> (\<forall>T. length (filter (\<lambda>t. t \<le> T) (recent T (out_times s agent entry))) \<le> cap agent)"

lemma recent_later: "now \<le> later \<Longrightarrow> recent now xs = recent now ys \<Longrightarrow> recent later xs = recent later ys"
proof -
  assume "now \<le> later" "recent now xs = recent now ys"
  moreover have "recent later zs = recent later (recent now zs)" for zs
    using \<open>now \<le> later\<close> unfolding recent_def by (auto simp: filter_filter intro!: filter_cong)
  ultimately show ?thesis by metis
qed

lemma recent_length: "now \<le> T \<Longrightarrow> length (filter (\<lambda>t. t \<le> T) (recent T ts)) \<le> length (recent now ts)"
  unfolding recent_def by (induction ts) auto

lemma stamps_put [simp]:
  "stamps (put_stamps a e ts g) agent entry = (if a = agent \<and> e = entry then ts else stamps g agent entry)"
  "eg_policies (put_stamps a e ts g) = eg_policies g"
  "stamps (register_agent_with_limit a allowed limit g) agent entry = stamps g agent entry"
  by (auto simp: stamps_def put_stamps_def register_agent_with_limit_def split: option.split)

text \<open>The three ways a check ends.\<close>

lemma check_cases:
  assumes "check_egress parse X now agent url g env = (d, g', env')"
  obtains (unmatched) "d \<noteq> EdAllow" "g' = g"
  | (over) entry where "d \<noteq> EdAllow" "matched parse agent url g = Some entry" "g' = put_stamps agent entry (recent now (stamps g agent entry)) g"
  | (under) entry policy where "d = EdAllow" "matched parse agent url g = Some entry" "eg_policies g agent = Some policy"
      "as_u32 (length (recent now (stamps g agent entry))) < ep_rate_limit_per_min policy"
      "g' = put_stamps agent entry (recent now (stamps g agent entry) @ [now]) g"
proof (cases "matched parse agent url g")
  case None
  have "d \<noteq> EdAllow \<and> g' = g" using assms None by (auto simp: check_egress_def matched_def Let_def split: option.split_asm)
  then show ?thesis using unmatched by blast
next
  case (Some entry)
  then obtain policy where p: "eg_policies g agent = Some policy"
      "List.find (\<lambda>entry. endpoint_admits parse entry url) (ep_allowed_endpoints policy) = Some entry"
    by (auto simp: matched_def split: option.split_asm)
  note c = assms [unfolded check_egress_def p option.case Let_def, folded recent_def]
  show ?thesis
  proof (cases "ep_rate_limit_per_min policy \<le> as_u32 (length (recent now (stamps g agent entry)))")
    case True
    then show ?thesis using c over [OF _ Some] by auto
  next
    case False
    then show ?thesis using c under [OF _ Some p(1)] by auto
  qed
qed

lemma egress_okD:
  "egress_ok cap agent entry s \<Longrightarrow> recent (es_clock s) (out_times s agent entry) = recent (es_clock s) (stamps (es_governor s) agent entry)"
  by (simp add: egress_ok_def)

lemma ok_later:
  assumes "egress_ok cap agent entry s" "es_clock s \<le> es_clock t" "out_times t agent entry = out_times s agent entry"
    and "stamps (es_governor t) agent entry = stamps (es_governor s) agent entry" "eg_policies (es_governor t) = eg_policies (es_governor s)"
  shows "egress_ok cap agent entry t"
  using assms recent_later [OF assms(2) egress_okD [OF assms(1)]] by (simp add: egress_ok_def)

lemma ok_purged:
  assumes "egress_ok cap agent entry s" "es_clock s \<le> es_clock t" "out_times t agent entry = out_times s agent entry"
    and "stamps (es_governor t) agent entry = recent (es_clock t) (stamps (es_governor s) agent entry)" "eg_policies (es_governor t) = eg_policies (es_governor s)"
  shows "egress_ok cap agent entry t"
proof -
  let ?st = "stamps (es_governor s) agent entry"
  have "length (recent (es_clock t) ?st) \<le> length ?st" by (simp add: recent_def)
  then have l: "length (recent (es_clock t) ?st) \<le> cap agent" using assms(1) by (simp add: egress_ok_def)
  have "recent (es_clock t) (out_times s agent entry) = recent (es_clock t) ?st" by (rule recent_later [OF assms(2) egress_okD [OF assms(1)]])
  moreover have "recent (es_clock t) (recent (es_clock t) ?st) = recent (es_clock t) ?st" by (simp add: recent_def)
  ultimately show ?thesis using assms(1,3-5) l by (simp add: egress_ok_def)
qed

lemma ok_pushed:
  assumes "egress_ok cap agent entry s" "es_clock s \<le> now" "cap agent \<le> U32_MAX" "eg_policies (es_governor s) agent = Some policy"
    and "as_u32 (length (recent now (stamps (es_governor s) agent entry))) < ep_rate_limit_per_min policy"
    and t: "es_clock t = now" "out_times t agent entry = out_times s agent entry @ [now]" "eg_policies (es_governor t) = eg_policies (es_governor s)"
      "stamps (es_governor t) agent entry = recent now (stamps (es_governor s) agent entry) @ [now]"
  shows "egress_ok cap agent entry t"
proof -
  let ?ts = "out_times s agent entry" and ?st = "stamps (es_governor s) agent entry"
  have r: "recent now ?ts = recent now ?st" by (rule recent_later [OF assms(2) egress_okD [OF assms(1)]])
  have "length (recent now ?st) \<le> length ?st" by (simp add: recent_def)
  then have "length (recent now ?st) \<le> U32_MAX" using assms(1,3) by (simp add: egress_ok_def)
  then have "length (recent now ?st) < ep_rate_limit_per_min policy" using assms(5) by (simp add: as_u32_def)
  then have l: "length (recent now ?st) < cap agent" using assms(1,4) by (simp add: egress_ok_def)
  have "length (filter (\<lambda>t. t \<le> T) (recent T (?ts @ [now]))) \<le> cap agent" for T
  proof (cases "now \<le> T")
    case True
    then show ?thesis using recent_length [OF True, of ?ts] r l by (simp add: recent_def)
  next
    case False
    then have "filter (\<lambda>t. t \<le> T) (recent T (?ts @ [now])) = filter (\<lambda>t. t \<le> T) (recent T ?ts)" by (simp add: recent_def)
    then show ?thesis using assms(1) by (simp add: egress_ok_def)
  qed
  moreover have "recent now (?ts @ [now]) = recent now (recent now ?st @ [now])" using r by (simp add: recent_def)
  ultimately show ?thesis using assms(1) l t by (simp add: egress_ok_def)
qed

lemma egress_step_ok:
  assumes "\<forall>a. cap a \<le> U32_MAX"
  shows "egress_step parse X cap s t \<Longrightarrow> egress_ok cap agent entry s \<Longrightarrow> egress_ok cap agent entry t"
proof (induction rule: egress_step.induct)
  case (registered limit a s allowed)
  then show ?case by (simp add: egress_ok_def out_times_def) (simp add: register_agent_with_limit_def)
next
  case (refused s now a url reason g env)
  from refused.hyps(2) show ?case
  proof (cases rule: check_cases)
    case (over e)
    show ?thesis
    proof (cases "a = agent \<and> e = entry")
      case True
      then show ?thesis using over refused.hyps(1) by (intro ok_purged [OF refused.prems]) (simp_all add: out_times_def)
    next
      case False
      then show ?thesis using over refused.hyps(1) by (intro ok_later [OF refused.prems]) (auto simp: out_times_def)
    qed
  qed (use refused.hyps(1) in \<open>intro ok_later [OF refused.prems], simp_all add: out_times_def\<close>)
next
  case (allowed s now a url g env e)
  from allowed.hyps(2) show ?case
  proof (cases rule: check_cases)
    case (under e' policy)
    then have e: "e' = e" using allowed.hyps by simp
    show ?thesis
    proof (cases "a = agent \<and> e = entry")
      case True
      then show ?thesis using under e allowed.hyps(1) assms
        by (intro ok_pushed [OF allowed.prems allowed.hyps(1)]) (simp_all add: out_times_def)
    next
      case False
      then show ?thesis using under e allowed.hyps(1) by (intro ok_later [OF allowed.prems]) (auto simp: out_times_def)
    qed
  qed auto
qed

interpretation egress_runs: step_invariant "egress_step parse X (\<lambda>a. min (cap a) U32_MAX)" "egress_ok (\<lambda>a. min (cap a) U32_MAX) agent entry" "\<lambda>s t. True"
  for parse X cap agent entry
  by unfold_locales (use egress_step_ok [of "\<lambda>a. min (cap a) U32_MAX"] in auto)

text \<open>C15: the rate limit holds in every minute. In every run of registrations and checks in any order, the requests let
  out for an agent under one entry of its allowlist within any sixty seconds are at most the largest limit the
  agent was registered with. The clock may stand still but not go back.\<close>

theorem egress_rate_bounded:
  assumes "(egress_step parse X (\<lambda>a. min (cap a) U32_MAX))\<^sup>*\<^sup>* (egress_start env) s"
  shows "length (filter (\<lambda>(a, e, t). a = agent \<and> e = entry \<and> T - 60 < t \<and> t \<le> T) (es_allowed s)) \<le> cap agent"
proof -
  have "egress_ok (\<lambda>a. min (cap a) U32_MAX) agent entry (egress_start env)"
    by (simp add: egress_ok_def egress_start_def governor_new_def stamps_def out_times_def recent_def)
  then have "egress_ok (\<lambda>a. min (cap a) U32_MAX) agent entry s" using egress_runs.run [OF assms] by blast
  then have "length (filter (\<lambda>t. t \<le> T) (recent T (out_times s agent entry))) \<le> cap agent" by (simp add: egress_ok_def)
  moreover have "length (filter (\<lambda>t. t \<le> T) (recent T (map (\<lambda>(a, e, t). t) (filter (\<lambda>(a, e, t). a = agent \<and> e = entry) xs))))
      = length (filter (\<lambda>(a, e, t). a = agent \<and> e = entry \<and> T - 60 < t \<and> t \<le> T) xs)" for xs
    by (induction xs) (auto simp: recent_def)
  ultimately show ?thesis by (simp add: out_times_def)
qed

text \<open>A parser that knows one host, an agent with one entry, and a request under it.\<close>

definition sample_url :: parsed_url where
  "sample_url = \<lparr>ul_scheme = asc ''http'', ul_username = [], ul_password = None, ul_host = Some (HostDomain (asc ''h'')),
     ul_host_str = Some (asc ''h''), ul_port = None, ul_port_or_known_default = Some 80, ul_path_segments = Some [[]]\<rparr>"

definition sample_parser :: url_parser where
  "sample_parser raw = (if raw = asc ''http://h/'' then Some sample_url else None)"

definition sample_governor :: egress_governor where
  "sample_governor = register_agent_with_limit ''a'' [asc ''h''] 1 governor_new"

lemma sample_requested: "http_url sample_parser (asc ''http://h/'') = Some sample_url"
  by (simp add: http_url_def sample_parser_def) (simp add: sample_url_def is_whitespace_def is_control_def asc_def)

lemma sample_listed: "endpoint_parse sample_parser (asc ''h'') = Some \<lparr>en_scheme = None, en_host = HostDomain (asc ''h''), en_port = None, en_segments = []\<rparr>"
  by (simp add: endpoint_parse_def split_scheme_def authority_port_def sample_parser_def sample_url_def is_whitespace_def is_control_def asc_def)

lemma sample_admitted: "endpoint_admits sample_parser (asc ''h'') (asc ''http://h/'')"
  by (simp add: endpoint_admits_def sample_requested sample_listed admits_def del: asc_simps) (simp add: sample_url_def)

lemma sample_egress:
  "fst (check_egress sample_parser sample_aext 100 ''a'' (asc ''http://h/'') sample_governor env) = EdAllow"
  "matched sample_parser ''a'' (asc ''http://h/'') sample_governor = Some (asc ''h'')"
  using sample_admitted
  by (simp_all del: asc_simps add: check_egress_def matched_def sample_governor_def register_agent_with_limit_def governor_new_def stamps_def as_u32_def Let_def)


theorem egress_rate_bounded_witness:
  "\<exists>s. (egress_step sample_parser sample_aext (\<lambda>a. min 1 U32_MAX))\<^sup>*\<^sup>* (egress_start sample_env) s \<and> es_allowed s = [(''a'', asc ''h'', 100)]
     \<and> length (filter (\<lambda>(a, e, t). a = ''a'' \<and> e = asc ''h'' \<and> 110 - 60 < t \<and> t \<le> 110) (es_allowed s)) \<le> 1"
proof -
  let ?s0 = "egress_start sample_env"
  let ?s1 = "?s0\<lparr>es_governor := sample_governor\<rparr>"
  obtain g env where c: "check_egress sample_parser sample_aext 100 ''a'' (asc ''http://h/'') sample_governor sample_env = (EdAllow, g, env)"
    using sample_egress(1) [of sample_env] by (metis prod.collapse)
  let ?s2 = "\<lparr>es_governor = g, es_env = env, es_clock = 100, es_allowed = [(''a'', asc ''h'', 100)]\<rparr>"
  have "egress_step sample_parser sample_aext (\<lambda>a. min 1 U32_MAX) ?s0 ?s1"
    using egress_step.registered [of 1 "\<lambda>a. min 1 U32_MAX" "''a''" sample_parser sample_aext ?s0 "[asc ''h'']"]
    by (simp add: sample_governor_def egress_start_def U32_MAX_def)
  moreover have "egress_step sample_parser sample_aext (\<lambda>a. min 1 U32_MAX) ?s1 ?s2"
    using egress_step.allowed [of ?s1 100 sample_parser sample_aext "''a''" "asc ''http://h/''" g env "asc ''h''"] c sample_egress(2)
    by (simp add: egress_start_def)
  ultimately have r: "(egress_step sample_parser sample_aext (\<lambda>a. min 1 U32_MAX))\<^sup>*\<^sup>* ?s0 ?s2"
    by (meson converse_rtranclp_into_rtranclp rtranclp.rtrancl_refl)
  show ?thesis
    by (intro exI [of _ ?s2] conjI r) (simp, rule egress_rate_bounded [of _ _ "\<lambda>a. 1", OF r])
qed

end
