(* ===== verification/Spec2Isabelle.thy ===== *)
theory Spec2Isabelle
  imports Td_Lane Td_Slot Td_Hash Mother_Codes_Props Mother_Life Kernel_Stop Kernel_Trail Kernel_Egress
begin

text \<open>
\<^bold>\<open>The program.\<close> Nexus OS runs missions for one Owner. \<^verbatim>\<open>mother\<close> is the coordinator: it drafts a contract,
asks the Owner for consent, runs lanes (model calls with a role), sends every effect through a broker, and
writes each step to an append-only, hash-chained journal before it counts. After a restart the journal
is verified and replayed, and whatever the replay refuses is not taken as history.
\<^verbatim>\<open>crates/nexus-typed-decision\<close> is the advice component: a registry of questions, the text sent to a
model, the strict reader of its reply, the verdict tables of the Sentinel, Verifier and notes lanes, and
the one-use slot that admits a run. \<^verbatim>\<open>kernel\<close> supervises agents: it admits their work, charges
their fuel, asks for consent, audits what they do and stops all of it at once.

\<^bold>\<open>Typed decisions\<close> (\<^verbatim>\<open>src/crates/nexus-typed-decision/src\<close>).
\<^item> \<^verbatim>\<open>Td_Registry\<close>: \<^verbatim>\<open>ident.rs\<close>, \<^verbatim>\<open>registry.rs\<close>. Identifiers, questions, question sets, the rules a registered
  set must satisfy and the registered sets INJ-1, VER-1 and SEN-1.
\<^item> \<^verbatim>\<open>Td_Render\<close>: \<^verbatim>\<open>render.rs\<close>. The system text, the reply shape and the correction sentences.
\<^item> \<^verbatim>\<open>Td_Projection\<close>: \<^verbatim>\<open>projection.rs\<close>. The admitted inputs, their JSON encoding and the frame around them.
\<^item> \<^verbatim>\<open>Td_Budget\<close>: \<^verbatim>\<open>budget.rs\<close>. Preflight: coverage, sensitive spellings and the byte budget of both attempts.
\<^item> \<^verbatim>\<open>Td_Decode\<close>, \<^verbatim>\<open>Td_Decode_Props\<close>: \<^verbatim>\<open>decode.rs\<close>, \<^verbatim>\<open>read.rs\<close>. The reader of a reply, exact decimals,
  normalization to one million parts, readings and verdicts.
\<^item> \<^verbatim>\<open>Td_Lane\<close>: \<^verbatim>\<open>lane.rs\<close>. The composition tables of the three lanes.
\<^item> \<^verbatim>\<open>Td_Slot\<close>: \<^verbatim>\<open>slot.rs\<close>. The advice slot as a state machine over calls in any order.
\<^item> \<^verbatim>\<open>Td_Hash\<close>: \<^verbatim>\<open>hash.rs\<close>, \<^verbatim>\<open>record.rs\<close>. The registry and set hashes and the record view of a decision.

\<^bold>\<open>Mother\<close> (\<^verbatim>\<open>src/mother/src\<close>).
\<^item> \<^verbatim>\<open>Mother_Codes\<close>, \<^verbatim>\<open>Mother_Codes_Props\<close>: \<^verbatim>\<open>evidence.rs\<close> and the closed codes it takes from \<^verbatim>\<open>contract.rs\<close>,
  \<^verbatim>\<open>lane.rs\<close>, \<^verbatim>\<open>verifier.rs\<close> and the kernel's \<^verbatim>\<open>inert_page\<close>: each code type with its printer, parser and
  registry.
\<^item> \<^verbatim>\<open>Mother_State\<close>: \<^verbatim>\<open>state.rs\<close>. Mission states, triggers and the transition table.
\<^item> \<^verbatim>\<open>Mother_Journal\<close>, \<^verbatim>\<open>Mother_Chain\<close>: \<^verbatim>\<open>journal.rs\<close> and the evidence check. Events, entries, the hash chain,
  verification and the in-memory store.
\<^item> \<^verbatim>\<open>Mother_Mission\<close>: the data of a mission (\<^verbatim>\<open>coordinator.rs\<close>, \<^verbatim>\<open>contract.rs\<close>, \<^verbatim>\<open>effect.rs\<close>), the effect of a
  trigger on it, call accounting (\<^verbatim>\<open>coordinator/model_calls.rs\<close>) and the proof records of a page
  (\<^verbatim>\<open>coordinator/page_proof.rs\<close>).
\<^item> \<^verbatim>\<open>Mother_Replay\<close>: \<^verbatim>\<open>replay\<close> and \<^verbatim>\<open>inspect_history\<close> of \<^verbatim>\<open>coordinator.rs\<close>, one definition for each kind of
  record, every refusal a value of \<^verbatim>\<open>replay_violation\<close>.
\<^item> \<^verbatim>\<open>Mother_Replay_Inv\<close>: the invariant of a replayed mission and its preservation by every record.
\<^item> \<^verbatim>\<open>Mother_Replay_Log\<close>, \<^verbatim>\<open>Mother_Replay_Props\<close>, \<^verbatim>\<open>Mother_Life\<close>: what an accepted journal proves of its
  missions, and the abstract life cycle it refines.

\<^bold>\<open>Kernel\<close> (\<^verbatim>\<open>src/kernel/src\<close>).
\<^item> \<^verbatim>\<open>Kernel_Merkle\<close>, \<^verbatim>\<open>Kernel_Audit\<close>: \<^verbatim>\<open>audit/mod.rs\<close>, \<^verbatim>\<open>audit/retention.rs\<close>. The audit trail, its hash chain, the
  archived segments with Merkle roots and inclusion proofs, the batcher.
\<^item> \<^verbatim>\<open>Kernel_Fuel\<close>: \<^verbatim>\<open>fuel_hardening.rs\<close>. Budgets, alerts, costs, the burn detector, the ledger of an agent
  with the audit records it writes, and the shared fuel context as a step relation.
\<^item> \<^verbatim>\<open>Kernel_Policy\<close>: \<^verbatim>\<open>autonomy.rs\<close>, \<^verbatim>\<open>policy_engine/engine.rs\<close>, \<^verbatim>\<open>capabilities.rs\<close>, \<^verbatim>\<open>lifecycle.rs\<close>. The autonomy levels
  and their guard, the policy engine, capability names and the transitions of an agent.
\<^item> \<^verbatim>\<open>Kernel_Consent\<close>: \<^verbatim>\<open>consent.rs\<close>. Tiers of human consent, the policies of operations, the approval queue and the enforcement
  of an operation.
\<^item> \<^verbatim>\<open>Kernel_Stop\<close>: \<^verbatim>\<open>emergency_stop.rs\<close>. The stop authority, its controller, watches, halt log and audit, each section
  under the lock one step of a relation that threads interleave; the end of a guarded child process.
\<^item> \<^verbatim>\<open>Kernel_Supervisor\<close>: \<^verbatim>\<open>supervisor.rs\<close>. Registration, the life cycle of agents and its caps, fuel, violations, the
  safety halt and the gates, composed of the ledger, the guard, the policy engine, consent and the audit trail.
\<^item> \<^verbatim>\<open>Kernel_Supervision\<close>: all runs of the supervisor as a step relation with its open reservations, and what holds in them.
\<^item> \<^verbatim>\<open>Kernel_Trail\<close>: what the audit trail promises to the ledger, the guard, consent and the supervisor, and that every
  run of the supervisor keeps it.
\<^item> \<^verbatim>\<open>Kernel_Egress\<close>: \<^verbatim>\<open>firewall/egress.rs\<close>, \<^verbatim>\<open>http_url\<close> of \<^verbatim>\<open>governed_http.rs\<close>. Allowlist entries, the egress governor and its
  rate limit as a step relation.

\<^bold>\<open>How the model reads the code.\<close> A struct is a record whose fields carry a prefix, an enum a datatype
whose constructors carry one, a \<^verbatim>\<open>Result\<close> a sum with the error on the left, \<^verbatim>\<open>&mut self\<close> the state returned
updated. Unsigned integers are natural numbers; where the code checks, saturates or wraps, the bound is
written out (\<^verbatim>\<open>U32_MAX\<close>, \<^verbatim>\<open>U64_MAX\<close>, \<^verbatim>\<open>sat_add_u64\<close>). Byte strings are \<^verbatim>\<open>string\<close>, Unicode text a list of code
points. A \<^verbatim>\<open>BTreeMap\<close> is a sorted association list. All functions are total and executable, the loops
by structural recursion or with a termination proof on what they consume; no fuel is used. A loop that waits
for the operating system runs over the list of its answers, and \<^verbatim>\<open>None\<close> says that it still waits. A \<^verbatim>\<open>HashMap\<close> is a
map or an association list with different keys, a thread's step what it does under one lock.

\<^bold>\<open>Parameters.\<close> SHA-256, hex and \<^verbatim>\<open>serde_json\<close> are not part of the repository: they are fields of the
records \<^verbatim>\<open>ext\<close> (Mother) and \<^verbatim>\<open>aext\<close>, \<^verbatim>\<open>cext\<close> (the audit trail, with gzip, and consent) that the definitions take as an argument. What a
clock, an identifier source or a disk answers to a call is an argument of that call, and so is the parser of the
\<^verbatim>\<open>url\<close> crate. A theorem about hashes concludes with an explicit
collision rather than assuming there is none. The assumptions made of a parameter are named in the
theorem, and its witness instantiates the parameter with concrete functions.

\<^bold>\<open>What is shown.\<close> For typed decisions: exactly when a lane clears, what a decoded reply is, that it reads
back what was printed, that numbers and shares are exact, that no admitted text forges the frame, that
the budget covers both attempts, that a slot admits what was assessed and recorded and nothing twice.
For Mother: the codes round-trip, the journal's head commits to every entry, and in every accepted
journal no mission works without consent to its current contract, an end is final, effects alternate,
calls stay in their budget, an unclean session holds its missions, a settlement's first cause stands, a
done page is proved, a stop is open to the Owner, and the records follow the abstract life cycle. For the
kernel: an append keeps the whole audited history across memory and archive and both integrity checks, a
Merkle root commits to its segment and every inclusion proof ends, verifies and is as short as the tree allows, a
segment the disk refuses is lost (against the module's promise), fuel is conserved, alerted once and
restored, the policy engine denies by default and lets a denial override, and the autonomy guard passes
exactly the sufficient levels, a policy's denial counting as L5 (which L5 and L6 pass). At the
upper consent tiers an operation runs on enough approvals of other people, each used once, unless a policy
that asks for no approvers takes the tier away (against the comment in the code). In every interleaving an
emergency stop ends all admitted work for good and only its controller lifts it, each halt of a model call is
written once or counted as lost, and a halted child is never reported as a success. In every run of the
supervisor the caps on sovereign and transcendent agents hold, and balance, reservations and spend stay within an
agent's cap, and the audit trail is only ever extended and verifies. A request
leaves only under a well-formed entry of its agent's allowlist, at most the limit in every minute. Three flaws are shown too: an agent
without fuel cannot be stopped, a start that fails for want of fuel leaves its agent stuck, and below L6
a tool call that a policy subjects to approval is refused even when it was approved.

\<^bold>\<open>Interfaces.\<close> \<^verbatim>\<open>code_table\<close>, \<^verbatim>\<open>self_delimiting\<close> and \<^verbatim>\<open>step_invariant\<close> (\<^verbatim>\<open>Nexus_Prelude\<close>), \<^verbatim>\<open>item_writer\<close> (\<^verbatim>\<open>Td_Projection\<close>) and
\<^verbatim>\<open>coded\<close> (\<^verbatim>\<open>Mother_Codes\<close>) state what their users rely on; each is interpreted on the definitions of the
model, and the lemmas used by the properties are those of the interpretations.

\<^bold>\<open>Not modelled.\<close> The calls of the coordinator that drive ports, lanes, threads and dialogs; the file
adapters, hosts and desktop (input and output); the broker, the sandbox, the kernel's agents, page
inspection, the display texts of consent, and the persistence layer; of the emergency stop the blocking and
async waits and \<^verbatim>\<open>Drop\<close>, of the supervisor the time machine, the speculative engine, permissions and the
metrics of the safety supervisor, whose action is an argument, and of governed HTTP all but the check of a URL. Debug output and the Owner-view texts are display only.
\<close>

end
